theory Spec2Isabelle
  imports Complex_Main "HOL-Library.Multiset"
begin

chapter \<open>BeatBorders: the country-genre aggregation and geometry-join pipeline\<close>

text \<open>
  A shallow embedding of \<^verbatim>\<open>spotify_data_refresh.py\<close>, and of the boundary
  normalisation and the joins of \<^verbatim>\<open>prepare_and_render_maps.py\<close> and
  \<^verbatim>\<open>app.py\<close>. Every Python exception is a value (\<open>Inl\<close> of a sum), the
  network is an explicit world that is passed along, and every loop is a recursive
  function over the list the loop runs through.
\<close>

section \<open>Python values\<close>

text \<open>
  The exceptions the modelled code can raise. None of them is a
  \<^verbatim>\<open>requests.RequestException\<close>, so none is caught by \<^verbatim>\<open>safe_request\<close>.
\<close>

datatype error = ValueError | AttributeError | TypeError | KeyError | IndexError
  | RuntimeError | JSONDecodeError

text \<open>
  What \<^verbatim>\<open>resp.json()\<close> returns. Numbers are integers (floats are outside the
  model). The JSON booleans are \<open>JInt 1\<close> and \<open>JInt 0\<close>: Python's \<^verbatim>\<open>bool\<close> is a
  subclass of \<^verbatim>\<open>int\<close>, and under every operation the program applies to a
  decoded value (truth test, \<^verbatim>\<open>+\<close>, use as a dictionary key, \<^verbatim>\<open>.get\<close>,
  subscripting, iteration) \<^verbatim>\<open>True\<close> and \<^verbatim>\<open>False\<close> behave as 1 and 0. An object
  is its list of items in order, with distinct keys.
\<close>

datatype json = JNull | JInt int | JStr string | JArr "json list"
  | JObj "(string \<times> json) list"

text \<open>Python's truth test: \<^verbatim>\<open>if not x\<close>.\<close>

fun truthy :: "json \<Rightarrow> bool" where
  "truthy JNull = False"
| "truthy (JInt n) = (n \<noteq> 0)"
| "truthy (JStr s) = (s \<noteq> [])"
| "truthy (JArr xs) = (xs \<noteq> [])"
| "truthy (JObj kvs) = (kvs \<noteq> [])"

text \<open>\<^verbatim>\<open>x.get(k, d)\<close>: only a dict has the method.\<close>

fun py_get :: "json \<Rightarrow> string \<Rightarrow> json \<Rightarrow> error + json" where
  "py_get (JObj kvs) k d = Inr (case map_of kvs k of Some v \<Rightarrow> v | None \<Rightarrow> d)"
| "py_get _ k d = Inl AttributeError"

text \<open>\<^verbatim>\<open>x[k]\<close> with a string \<open>k\<close>: a dict looks the key up, everything else refuses
  a string subscript.\<close>

fun py_item :: "json \<Rightarrow> string \<Rightarrow> error + json" where
  "py_item (JObj kvs) k = (case map_of kvs k of Some v \<Rightarrow> Inr v | None \<Rightarrow> Inl KeyError)"
| "py_item _ k = Inl TypeError"

text \<open>\<^verbatim>\<open>x[0]\<close>: the first element of a list, the first character of a string;
  a dict has no key 0 (its keys are strings).\<close>

fun py_first :: "json \<Rightarrow> error + json" where
  "py_first (JArr []) = Inl IndexError"
| "py_first (JArr (x # xs)) = Inr x"
| "py_first (JStr []) = Inl IndexError"
| "py_first (JStr (c # cs)) = Inr (JStr [c])"
| "py_first (JObj kvs) = Inl KeyError"
| "py_first _ = Inl TypeError"

text \<open>Iteration (\<^verbatim>\<open>for x in v\<close>, \<^verbatim>\<open>list.extend(v)\<close>): a list gives its elements,
  a dict its keys, a string its characters; \<^verbatim>\<open>None\<close> and numbers are not iterable.
  \<^verbatim>\<open>len(v)\<close> is the length of that list.\<close>

fun py_iter :: "json \<Rightarrow> error + json list" where
  "py_iter (JArr xs) = Inr xs"
| "py_iter (JObj kvs) = Inr (map (\<lambda>kv. JStr (fst kv)) kvs)"
| "py_iter (JStr s) = Inr (map (\<lambda>c. JStr [c]) s)"
| "py_iter _ = Inl TypeError"

text \<open>\<^verbatim>\<open>acc + v\<close> for an integer \<open>acc\<close>: only a number can be added.\<close>

fun py_add :: "int \<Rightarrow> json \<Rightarrow> error + int" where
  "py_add acc (JInt n) = Inr (acc + n)"
| "py_add acc _ = Inl TypeError"

text \<open>A dictionary key must be hashable: lists and dicts are not.\<close>

fun hashable :: "json \<Rightarrow> bool" where
  "hashable (JArr xs) = False"
| "hashable (JObj kvs) = False"
| "hashable _ = True"

text \<open>The slice \<^verbatim>\<open>xs[:n]\<close>: a negative \<open>n\<close> counts from the end.\<close>

definition py_prefix :: "int \<Rightarrow> 'a list \<Rightarrow> 'a list" where
  "py_prefix n xs = (if 0 \<le> n then take (nat n) xs else take (length xs - nat (- n)) xs)"

text \<open>\<^verbatim>\<open>range(0, n, batch)\<close> for a positive \<open>batch\<close>.\<close>

definition py_range :: "int \<Rightarrow> nat \<Rightarrow> int list" where
  "py_range n batch = map (\<lambda>i. int (i * batch)) [0 ..< (nat n + batch - 1) div batch]"

subsection \<open>\<^verbatim>\<open>int(s)\<close> on a string\<close>

text \<open>
  Python's \<^verbatim>\<open>int\<close> strips white space, reads an optional sign and then decimal
  digits, where single underscores may stand between digits. Anything else raises
  \<^verbatim>\<open>ValueError\<close> (here \<open>None\<close>). Strings are ASCII.
\<close>

definition is_space :: "char \<Rightarrow> bool" where
  "is_space c = (let n = (of_char c :: nat) in (9 \<le> n \<and> n \<le> 13) \<or> (28 \<le> n \<and> n \<le> 32))"

definition digit_val :: "char \<Rightarrow> nat option" where
  "digit_val c = (let n = (of_char c :: nat) in if 48 \<le> n \<and> n \<le> 57 then Some (n - 48) else None)"

fun parse_digits :: "nat \<Rightarrow> string \<Rightarrow> nat option" where
  "parse_digits acc [] = Some acc"
| "parse_digits acc [c] =
     (case digit_val c of None \<Rightarrow> None | Some v \<Rightarrow> Some (10 * acc + v))"
| "parse_digits acc (c # d # ds) =
     (if c = CHR ''_'' then
        (case digit_val d of None \<Rightarrow> None | Some v \<Rightarrow> parse_digits (10 * acc + v) ds)
      else (case digit_val c of None \<Rightarrow> None | Some v \<Rightarrow> parse_digits (10 * acc + v) (d # ds)))"

fun parse_unsigned :: "string \<Rightarrow> nat option" where
  "parse_unsigned [] = None"
| "parse_unsigned (c # cs) =
     (case digit_val c of None \<Rightarrow> None | Some v \<Rightarrow> parse_digits v cs)"

definition strip :: "string \<Rightarrow> string" where
  "strip s = rev (dropWhile is_space (rev (dropWhile is_space s)))"

definition py_int :: "string \<Rightarrow> int option" where
  "py_int s =
     (case strip s of
        [] \<Rightarrow> None
      | c # cs \<Rightarrow>
          if c = CHR ''-'' then map_option (\<lambda>n. - int n) (parse_unsigned cs)
          else if c = CHR ''+'' then map_option int (parse_unsigned cs)
          else map_option int (parse_unsigned (c # cs)))"

section \<open>The network as a world\<close>

text \<open>
  A request as the program builds it: the method, the URL, the bearer token of the
  \<^verbatim>\<open>Authorization\<close> header, the query parameters in the order the dict literal
  lists them, the form data and the basic-auth pair (both only on the token request).
  The program formats a genre into the query \<^verbatim>\<open>genre:"..."\<close>; \<open>PGenre g\<close> is that
  string for the value \<open>g\<close>.
\<close>

datatype pval = PInt int | PStr string | PVal json | PGenre json

record request =
  rmethod :: string
  url :: string
  bearer :: "json option"
  params :: "(string \<times> pval) list"
  form :: "(string \<times> string) list"
  auth :: "(string \<times> string) option"

text \<open>
  A response: the status code, the \<^verbatim>\<open>Retry-After\<close> header when the response
  has one (\<^verbatim>\<open>resp.headers.get('Retry-After')\<close>), and the decoded body, \<open>None\<close> when
  the body is not JSON and \<^verbatim>\<open>resp.json()\<close> raises.
\<close>

record response =
  status_code :: int
  retry_after :: "string option"
  body :: "json option"

text \<open>\<^verbatim>\<open>requests.request\<close> returns a response or raises a
  \<^verbatim>\<open>RequestException\<close> (a timeout, a refused connection).\<close>

datatype http_outcome = Response response | RequestException

text \<open>
  The world: the server decides the outcome of a request from all requests sent so far
  (the last one is the current request), so a scripted sequence of responses and a
  server that answers by offset are both servers. \<open>sent\<close> logs the requests,
  \<open>slept\<close> the arguments of \<^verbatim>\<open>time.sleep\<close>, in seconds.
\<close>

record world =
  server :: "request list \<Rightarrow> http_outcome"
  sent :: "request list"
  slept :: "rat list"

type_synonym 'a result = "(error + 'a) \<times> world"

text \<open>\<^verbatim>\<open>time.sleep(d)\<close> raises \<^verbatim>\<open>ValueError\<close> for a negative \<open>d\<close>.\<close>

definition sleep :: "rat \<Rightarrow> world \<Rightarrow> unit result" where
  "sleep d w = (if d < 0 then (Inl ValueError, w) else (Inr (), w\<lparr>slept := slept w @ [d]\<rparr>))"

section \<open>The rate-limited fetcher\<close>

text \<open>
  \<^verbatim>\<open>raise_for_status\<close> raises \<^verbatim>\<open>HTTPError\<close>, a \<^verbatim>\<open>RequestException\<close>, for a
  status from 400 to 599.
\<close>

definition raises_for_status :: "response \<Rightarrow> bool" where
  "raises_for_status r = (400 \<le> status_code r \<and> status_code r < 600)"

text \<open>
  The loop \<^verbatim>\<open>for attempt in range(1, 4)\<close> of \<^verbatim>\<open>safe_request\<close>, over the
  attempts that are left. \<^verbatim>\<open>int(...)\<close> and \<^verbatim>\<open>time.sleep(retry)\<close> stand inside
  the \<^verbatim>\<open>try\<close>, but their \<^verbatim>\<open>ValueError\<close> is not a \<^verbatim>\<open>RequestException\<close> and
  leaves the function.
\<close>

text \<open>\<^verbatim>\<open>int(resp.headers.get('Retry-After', '1'))\<close>; \<open>None\<close> is its
  \<^verbatim>\<open>ValueError\<close>.\<close>

definition retry_seconds :: "response \<Rightarrow> int option" where
  "retry_seconds r = py_int (case retry_after r of None \<Rightarrow> ''1'' | Some s \<Rightarrow> s)"

fun attempts :: "nat list \<Rightarrow> request \<Rightarrow> world \<Rightarrow> (response option) result" where
  "attempts [] rq w = (Inr None, w)"
| "attempts (attempt # rest) rq w =
     (let w1 = w\<lparr>sent := sent w @ [rq]\<rparr> in
      case server w (sent w @ [rq]) of
        RequestException \<Rightarrow>
          (case sleep (2 ^ attempt) w1 of
             (Inl e, w2) \<Rightarrow> (Inl e, w2)
           | (Inr u, w2) \<Rightarrow> attempts rest rq w2)
      | Response resp \<Rightarrow>
          if status_code resp = 429 then
            (case retry_seconds resp of
               None \<Rightarrow> (Inl ValueError, w1)
             | Some retry \<Rightarrow>
                 (case sleep (of_int retry) w1 of
                    (Inl e, w2) \<Rightarrow> (Inl e, w2)
                  | (Inr u, w2) \<Rightarrow> attempts rest rq w2))
          else if 400 \<le> status_code resp \<and> status_code resp < 500 then (Inr None, w1)
          else if raises_for_status resp then
            (case sleep (2 ^ attempt) w1 of
               (Inl e, w2) \<Rightarrow> (Inl e, w2)
             | (Inr u, w2) \<Rightarrow> attempts rest rq w2)
          else (Inr (Some resp), w1))"

definition safe_request :: "request \<Rightarrow> world \<Rightarrow> (response option) result" where
  "safe_request rq w = attempts [1, 2, 3] rq w"

text \<open>
  A 429 response whose \<^verbatim>\<open>Retry-After\<close> the loop can sleep on: the header is
  absent, or \<^verbatim>\<open>int\<close> reads it and the number is not negative. An attempt fails,
  and the loop goes on to the next one, on a \<^verbatim>\<open>RequestException\<close>, on such a 429
  and on a status from 500 to 599.
\<close>

definition retry_after_usable :: "response \<Rightarrow> bool" where
  "retry_after_usable r = (case retry_seconds r of None \<Rightarrow> False | Some n \<Rightarrow> 0 \<le> n)"

fun failed_attempt :: "http_outcome \<Rightarrow> bool" where
  "failed_attempt RequestException = True"
| "failed_attempt (Response r) =
     (if status_code r = 429 then retry_after_usable r
      else 500 \<le> status_code r \<and> status_code r < 600)"

section \<open>Configuration\<close>

text \<open>The values the module reads from \<^verbatim>\<open>config.yaml\<close> when it is loaded.\<close>

record config =
  client_id :: string
  client_secret :: string
  markets_limit :: int
  genres_limit :: int
  tracks_per_genre :: int
  top_n_genres :: int
  top_n_artists :: int

section \<open>Token provider\<close>

definition token_request :: "config \<Rightarrow> request" where
  "token_request cfg =
     \<lparr>rmethod = ''POST'', url = ''https://accounts.spotify.com/api/token'', bearer = None,
      params = [], form = [(''grant_type'', ''client_credentials'')],
      auth = Some (client_id cfg, client_secret cfg)\<rparr>"

text \<open>\<^verbatim>\<open>resp.json()\<close>.\<close>

definition resp_json :: "response \<Rightarrow> error + json" where
  "resp_json resp = (case body resp of None \<Rightarrow> Inl JSONDecodeError | Some j \<Rightarrow> Inr j)"

text \<open>
  \<^verbatim>\<open>get_token\<close>. Python's \<^verbatim>\<open>None\<close> is \<open>JNull\<close>. \<^verbatim>\<open>if not resp\<close> asks whether
  \<^verbatim>\<open>safe_request\<close> returned \<^verbatim>\<open>None\<close>: a response it returns has a status outside
  400 to 599 and is true.
\<close>

definition get_token :: "config \<Rightarrow> world \<Rightarrow> json result" where
  "get_token cfg w =
     (case safe_request (token_request cfg) w of
        (Inl e, w1) \<Rightarrow> (Inl e, w1)
      | (Inr None, w1) \<Rightarrow> (Inr JNull, w1)
      | (Inr (Some resp), w1) \<Rightarrow>
          (case resp_json resp of
             Inl e \<Rightarrow> (Inl e, w1)
           | Inr j \<Rightarrow>
               (case py_get j ''access_token'' JNull of
                  Inl e \<Rightarrow> (Inl e, w1)
                | Inr token \<Rightarrow> (Inr token, w1))))"

section \<open>Paginated collector\<close>

text \<open>\<^verbatim>\<open>resp.json().get(key, {}).get('items', [])\<close>.\<close>

definition nested_items :: "string \<Rightarrow> response \<Rightarrow> error + json" where
  "nested_items key resp =
     (case resp_json resp of
        Inl e \<Rightarrow> Inl e
      | Inr j \<Rightarrow>
          (case py_get j key (JObj []) of
             Inl e \<Rightarrow> Inl e
           | Inr inner \<Rightarrow> py_get inner ''items'' (JArr [])))"

text \<open>
  The loop \<^verbatim>\<open>for offset in range(0, total, batch)\<close> with \<^verbatim>\<open>batch = 50\<close>, which
  \<^verbatim>\<open>get_all_categories\<close> and \<^verbatim>\<open>fetch_genre_tracks\<close> both have, line for line.
  They differ in the request (\<open>request_at\<close>), in the key under which the items stand
  (\<open>items_of\<close>) and in what \<^verbatim>\<open>extend\<close> appends (\<open>convert\<close>: the items themselves,
  or their name and id). \<^verbatim>\<open>len(items)\<close> is the number of elements appended.
\<close>

fun page_loop ::
  "(int \<Rightarrow> request) \<Rightarrow> (response \<Rightarrow> error + json) \<Rightarrow> (json \<Rightarrow> error + 'a list) \<Rightarrow>
   int list \<Rightarrow> 'a list \<Rightarrow> world \<Rightarrow> ('a list) result" where
  "page_loop request_at items_of convert [] acc w = (Inr acc, w)"
| "page_loop request_at items_of convert (offset # rest) acc w =
     (case safe_request (request_at offset) w of
        (Inl e, w1) \<Rightarrow> (Inl e, w1)
      | (Inr None, w1) \<Rightarrow> (Inr acc, w1)
      | (Inr (Some resp), w1) \<Rightarrow>
          (case items_of resp of
             Inl e \<Rightarrow> (Inl e, w1)
           | Inr items \<Rightarrow>
               if \<not> truthy items then (Inr acc, w1)
               else
                 (case convert items of
                    Inl e \<Rightarrow> (Inl e, w1)
                  | Inr xs \<Rightarrow>
                      if length xs < 50 then (Inr (acc @ xs), w1)
                      else
                        (case sleep (1 / 10) w1 of
                           (Inl e, w2) \<Rightarrow> (Inl e, w2)
                         | (Inr u, w2) \<Rightarrow>
                             page_loop request_at items_of convert rest (acc @ xs) w2))))"

subsection \<open>Categories\<close>

definition categories_request :: "json \<Rightarrow> int \<Rightarrow> request" where
  "categories_request token offset =
     \<lparr>rmethod = ''GET'', url = ''https://api.spotify.com/v1/browse/categories'',
      bearer = Some token, params = [(''limit'', PInt 50), (''offset'', PInt offset)],
      form = [], auth = None\<rparr>"

text \<open>The generator \<^verbatim>\<open>(i['name'], i['id']) for i in items\<close>, run to its end by
  \<^verbatim>\<open>extend\<close>.\<close>

fun name_id_each :: "json list \<Rightarrow> error + (json \<times> json) list" where
  "name_id_each [] = Inr []"
| "name_id_each (i # rest) =
     (case py_item i ''name'' of
        Inl e \<Rightarrow> Inl e
      | Inr n \<Rightarrow>
          (case py_item i ''id'' of
             Inl e \<Rightarrow> Inl e
           | Inr d \<Rightarrow>
               (case name_id_each rest of
                  Inl e \<Rightarrow> Inl e
                | Inr ps \<Rightarrow> Inr ((n, d) # ps))))"

definition name_id_pairs :: "json \<Rightarrow> error + (json \<times> json) list" where
  "name_id_pairs items = (case py_iter items of Inl e \<Rightarrow> Inl e | Inr xs \<Rightarrow> name_id_each xs)"

definition get_all_categories :: "json \<Rightarrow> int \<Rightarrow> world \<Rightarrow> ((json \<times> json) list) result" where
  "get_all_categories token n w =
     (case page_loop (categories_request token) (nested_items ''categories'') name_id_pairs
             (py_range n 50) [] w of
        (Inl e, w1) \<Rightarrow> (Inl e, w1)
      | (Inr categories, w1) \<Rightarrow> (Inr (py_prefix n categories), w1))"

subsection \<open>Tracks\<close>

text \<open>\<open>market\<close> is \<open>JNull\<close> for Python's \<^verbatim>\<open>None\<close>; \<^verbatim>\<open>if market\<close> is its truth
  test.\<close>

definition search_request :: "json \<Rightarrow> json \<Rightarrow> json \<Rightarrow> int \<Rightarrow> request" where
  "search_request token genre market offset =
     \<lparr>rmethod = ''GET'', url = ''https://api.spotify.com/v1/search'', bearer = Some token,
      params = [(''q'', PGenre genre), (''type'', PStr ''track''), (''limit'', PInt 50),
                (''offset'', PInt offset)]
               @ (if truthy market then [(''market'', PVal market)] else []),
      form = [], auth = None\<rparr>"

definition fetch_genre_tracks :: "json \<Rightarrow> json \<Rightarrow> json \<Rightarrow> int \<Rightarrow> world \<Rightarrow> (json list) result" where
  "fetch_genre_tracks token genre market total_tracks w =
     (case page_loop (search_request token genre market) (nested_items ''tracks'') py_iter
             (py_range total_tracks 50) [] w of
        (Inl e, w1) \<Rightarrow> (Inl e, w1)
      | (Inr all_tracks, w1) \<Rightarrow> (Inr (py_prefix total_tracks all_tracks), w1))"

text \<open>
  What the collectors' properties say of a response \<open>r\<close> that carries the page \<open>p\<close>:
  \<^verbatim>\<open>safe_request\<close> returns it, and its items are false (then the page is empty) or
  convert to \<open>p\<close>.
\<close>

definition carries_page ::
  "(response \<Rightarrow> error + json) \<Rightarrow> (json \<Rightarrow> error + 'a list) \<Rightarrow> response \<Rightarrow> 'a list \<Rightarrow> bool" where
  "carries_page items_of convert r p =
     (\<not> raises_for_status r \<and>
      (case items_of r of
         Inl e \<Rightarrow> False
       | Inr items \<Rightarrow> if truthy items then convert items = Inr p else p = []))"

section \<open>Markets\<close>

definition markets_request :: "config \<Rightarrow> json \<Rightarrow> request" where
  "markets_request cfg token =
     \<lparr>rmethod = ''GET'', url = ''https://api.spotify.com/v1/markets'', bearer = Some token,
      params = [(''limit'', PInt (markets_limit cfg))], form = [], auth = None\<rparr>"

text \<open>The slice \<^verbatim>\<open>v[:n]\<close> of a decoded value: of a list and of a string. A dict
  refuses a slice as a key (\<^verbatim>\<open>TypeError\<close>; \<^verbatim>\<open>KeyError\<close> from Python 3.12 on),
  \<^verbatim>\<open>None\<close> and numbers have no subscript.\<close>

fun py_slice :: "int \<Rightarrow> json \<Rightarrow> error + json" where
  "py_slice n (JArr xs) = Inr (JArr (py_prefix n xs))"
| "py_slice n (JStr s) = Inr (JStr (py_prefix n s))"
| "py_slice n _ = Inl TypeError"

definition get_markets :: "config \<Rightarrow> json \<Rightarrow> world \<Rightarrow> json result" where
  "get_markets cfg token w =
     (case safe_request (markets_request cfg token) w of
        (Inl e, w1) \<Rightarrow> (Inl e, w1)
      | (Inr None, w1) \<Rightarrow> (Inr (JArr []), w1)
      | (Inr (Some resp), w1) \<Rightarrow>
          (case resp_json resp of
             Inl e \<Rightarrow> (Inl e, w1)
           | Inr j \<Rightarrow>
               (case py_get j ''markets'' (JArr []) of
                  Inl e \<Rightarrow> (Inl e, w1)
                | Inr markets \<Rightarrow>
                    (case py_slice (markets_limit cfg) markets of
                       Inl e \<Rightarrow> (Inl e, w1)
                     | Inr ms \<Rightarrow> (Inr ms, w1)))))"

section \<open>Genre and artist aggregation\<close>

text \<open>\<^verbatim>\<open>sum(t.get('popularity', 0) for t in tracks)\<close>, from the left.\<close>

fun popularity_sum :: "json list \<Rightarrow> int \<Rightarrow> error + int" where
  "popularity_sum [] acc = Inr acc"
| "popularity_sum (t # ts) acc =
     (case py_get t ''popularity'' (JInt 0) of
        Inl e \<Rightarrow> Inl e
      | Inr p \<Rightarrow>
          (case py_add acc p of
             Inl e \<Rightarrow> Inl e
           | Inr acc' \<Rightarrow> popularity_sum ts acc'))"

text \<open>
  A Python dict with decoded values as keys is the list of its items in insertion
  order. \<^verbatim>\<open>d[k] = v\<close> replaces the value of a key that is there and appends a new
  key at the end; it raises \<^verbatim>\<open>TypeError\<close> for a key that is not hashable.
\<close>

fun dict_put :: "json \<Rightarrow> 'v \<Rightarrow> (json \<times> 'v) list \<Rightarrow> (json \<times> 'v) list" where
  "dict_put k v [] = [(k, v)]"
| "dict_put k v (kv # d) = (if fst kv = k then (fst kv, v) # d else kv # dict_put k v d)"

definition dict_set :: "json \<Rightarrow> 'v \<Rightarrow> (json \<times> 'v) list \<Rightarrow> error + (json \<times> 'v) list" where
  "dict_set k v d = (if hashable k then Inr (dict_put k v d) else Inl TypeError)"

text \<open>
  The loop of \<^verbatim>\<open>fetch_top_artists_for_genre\<close> over the tracks.
  \<^verbatim>\<open>artist_scores\<close> is a \<^verbatim>\<open>defaultdict(int)\<close>, so
  \<^verbatim>\<open>artist_scores[primary_name] += popularity\<close> reads 0 for a new name.
\<close>

fun artist_scores :: "json list \<Rightarrow> (json \<times> int) list \<Rightarrow> error + (json \<times> int) list" where
  "artist_scores [] d = Inr d"
| "artist_scores (t # ts) d =
     (case py_get t ''artists'' (JArr []) of
        Inl e \<Rightarrow> Inl e
      | Inr artists \<Rightarrow>
          if \<not> truthy artists then artist_scores ts d
          else
            (case py_first artists of
               Inl e \<Rightarrow> Inl e
             | Inr first_artist \<Rightarrow>
                 (case py_get first_artist ''name'' JNull of
                    Inl e \<Rightarrow> Inl e
                  | Inr primary_name \<Rightarrow>
                      (case py_get t ''popularity'' (JInt 0) of
                         Inl e \<Rightarrow> Inl e
                       | Inr popularity \<Rightarrow>
                           if \<not> hashable primary_name then Inl TypeError
                           else
                             (case py_add (case map_of d primary_name of None \<Rightarrow> 0 | Some s \<Rightarrow> s)
                                     popularity of
                                Inl e \<Rightarrow> Inl e
                              | Inr s \<Rightarrow> artist_scores ts (dict_put primary_name s d))))))"

text \<open>
  \<^verbatim>\<open>sorted(artist_scores.items(), key=lambda x: x[1], reverse=True)\<close>: Python's
  sort is stable, also with \<^verbatim>\<open>reverse=True\<close>, so it is the stable sort by the
  negated score.
\<close>

definition sorted_by_score :: "('a \<times> int) list \<Rightarrow> ('a \<times> int) list" where
  "sorted_by_score xs = sort_key (\<lambda>x. - snd x) xs"

text \<open>Lines 170 to 179 of \<^verbatim>\<open>fetch_top_artists_for_genre\<close>: what it does with the
  tracks it fetched.\<close>

definition rank_artists :: "json list \<Rightarrow> int \<Rightarrow> error + (json \<times> int) list" where
  "rank_artists tracks top_n =
     (case artist_scores tracks [] of
        Inl e \<Rightarrow> Inl e
      | Inr scores \<Rightarrow> Inr (py_prefix top_n (sorted_by_score scores)))"

definition fetch_top_artists_for_genre ::
  "json \<Rightarrow> json \<Rightarrow> json \<Rightarrow> int \<Rightarrow> int \<Rightarrow> world \<Rightarrow> ((json \<times> int) list) result" where
  "fetch_top_artists_for_genre token genre market total_tracks top_n w =
     (case fetch_genre_tracks token genre market total_tracks w of
        (Inl e, w1) \<Rightarrow> (Inl e, w1)
      | (Inr tracks, w1) \<Rightarrow>
          (case rank_artists tracks top_n of
             Inl e \<Rightarrow> (Inl e, w1)
           | Inr ranking \<Rightarrow> (Inr ranking, w1)))"

section \<open>Snapshot builder\<close>

text \<open>The dict \<^verbatim>\<open>result\<close> that \<^verbatim>\<open>main\<close> hands to \<^verbatim>\<open>json.dump\<close>.\<close>

record snapshot =
  top_genres :: "json list"
  country_genre_popularity :: "(json \<times> (json \<times> int) list) list"
  top_artists :: "(json \<times> (json \<times> (json \<times> int) list) list) list"

text \<open>The loop \<^verbatim>\<open>for name, _ in categories\<close> (lines 192 to 197).\<close>

fun global_scores_loop ::
  "config \<Rightarrow> json \<Rightarrow> (json \<times> json) list \<Rightarrow> (json \<times> int) list \<Rightarrow> world \<Rightarrow>
   ((json \<times> int) list) result" where
  "global_scores_loop cfg token [] global_scores w = (Inr global_scores, w)"
| "global_scores_loop cfg token (category # rest) global_scores w =
     (case fetch_genre_tracks token (fst category) JNull (tracks_per_genre cfg) w of
        (Inl e, w1) \<Rightarrow> (Inl e, w1)
      | (Inr tracks, w1) \<Rightarrow>
          (case popularity_sum tracks 0 of
             Inl e \<Rightarrow> (Inl e, w1)
           | Inr score \<Rightarrow>
               (case sleep (2 / 10) w1 of
                  (Inl e, w2) \<Rightarrow> (Inl e, w2)
                | (Inr u, w2) \<Rightarrow>
                    global_scores_loop cfg token rest (global_scores @ [(fst category, score)]) w2)))"

text \<open>The loop \<^verbatim>\<open>for genre in top_genres\<close> (lines 217 to 223): the tracks of one
  pair are fetched twice, once for the score and once inside
  \<^verbatim>\<open>fetch_top_artists_for_genre\<close>.\<close>

fun genre_loop ::
  "config \<Rightarrow> json \<Rightarrow> json \<Rightarrow> json list \<Rightarrow>
   (json \<times> int) list \<times> (json \<times> (json \<times> int) list) list \<Rightarrow> world \<Rightarrow>
   ((json \<times> int) list \<times> (json \<times> (json \<times> int) list) list) result" where
  "genre_loop cfg token market [] acc w = (Inr acc, w)"
| "genre_loop cfg token market (genre # rest) acc w =
     (case fetch_genre_tracks token genre market (tracks_per_genre cfg) w of
        (Inl e, w1) \<Rightarrow> (Inl e, w1)
      | (Inr tracks, w1) \<Rightarrow>
          (case popularity_sum tracks 0 of
             Inl e \<Rightarrow> (Inl e, w1)
           | Inr score \<Rightarrow>
               (case dict_set genre score (fst acc) of
                  Inl e \<Rightarrow> (Inl e, w1)
                | Inr country_scores \<Rightarrow>
                    (case fetch_top_artists_for_genre token genre market (tracks_per_genre cfg)
                            (top_n_artists cfg) w1 of
                       (Inl e, w2) \<Rightarrow> (Inl e, w2)
                     | (Inr ranking, w2) \<Rightarrow>
                         (case dict_set genre ranking (snd acc) of
                            Inl e \<Rightarrow> (Inl e, w2)
                          | Inr country_artists \<Rightarrow>
                              (case sleep (2 / 10) w2 of
                                 (Inl e, w3) \<Rightarrow> (Inl e, w3)
                               | (Inr u, w3) \<Rightarrow>
                                   genre_loop cfg token market rest
                                     (country_scores, country_artists) w3))))))"

text \<open>The loop \<^verbatim>\<open>for market in markets\<close> (lines 213 to 226).\<close>

fun market_loop ::
  "config \<Rightarrow> json \<Rightarrow> json list \<Rightarrow> json list \<Rightarrow>
   (json \<times> (json \<times> int) list) list \<times> (json \<times> (json \<times> (json \<times> int) list) list) list \<Rightarrow>
   world \<Rightarrow>
   ((json \<times> (json \<times> int) list) list \<times> (json \<times> (json \<times> (json \<times> int) list) list) list) result" where
  "market_loop cfg token genres [] acc w = (Inr acc, w)"
| "market_loop cfg token genres (market # rest) acc w =
     (case genre_loop cfg token market genres ([], []) w of
        (Inl e, w1) \<Rightarrow> (Inl e, w1)
      | (Inr (country_scores, country_artists), w1) \<Rightarrow>
          (case dict_set market country_scores (fst acc) of
             Inl e \<Rightarrow> (Inl e, w1)
           | Inr popularity \<Rightarrow>
               (case dict_set market country_artists (snd acc) of
                  Inl e \<Rightarrow> (Inl e, w1)
                | Inr artists \<Rightarrow> market_loop cfg token genres rest (popularity, artists) w1)))"

text \<open>Line 199: the names of the first \<^verbatim>\<open>TOP_N_GENRES\<close> global scores, highest
  first.\<close>

definition select_top_genres :: "config \<Rightarrow> (json \<times> int) list \<Rightarrow> json list" where
  "select_top_genres cfg global_scores =
     map fst (py_prefix (top_n_genres cfg) (sorted_by_score global_scores))"

text \<open>
  \<^verbatim>\<open>main\<close>. Its result is what it wrote: \<open>Inr (Some s)\<close> when it reached
  \<^verbatim>\<open>json.dump(result, f)\<close> with \<^verbatim>\<open>result = s\<close>, \<open>Inr None\<close> when it returned
  before, and \<open>Inl e\<close> when an exception left it, which can only happen before the
  file is opened. Every key and value of \<^verbatim>\<open>result\<close> is a string, a number,
  \<^verbatim>\<open>None\<close>, a list or a dict, so \<^verbatim>\<open>json.dump\<close> itself does not raise; errors of
  the file system are outside the model.
\<close>

definition main :: "config \<Rightarrow> world \<Rightarrow> (snapshot option) result" where
  "main cfg w =
     (case get_token cfg w of
        (Inl e, w1) \<Rightarrow> (Inl e, w1)
      | (Inr token, w1) \<Rightarrow>
          if \<not> truthy token then (Inr None, w1)
          else
            (case get_all_categories token (genres_limit cfg) w1 of
               (Inl e, w2) \<Rightarrow> (Inl e, w2)
             | (Inr categories, w2) \<Rightarrow>
                 (case global_scores_loop cfg token categories [] w2 of
                    (Inl e, w3) \<Rightarrow> (Inl e, w3)
                  | (Inr global_scores, w3) \<Rightarrow>
                      (case get_markets cfg token w3 of
                         (Inl e, w4) \<Rightarrow> (Inl e, w4)
                       | (Inr markets, w4) \<Rightarrow>
                           if \<not> truthy markets then (Inr None, w4)
                           else
                             (case py_iter markets of
                                Inl e \<Rightarrow> (Inl e, w4)
                              | Inr ms \<Rightarrow>
                                  (case market_loop cfg token (select_top_genres cfg global_scores)
                                          ms ([], []) w4 of
                                     (Inl e, w5) \<Rightarrow> (Inl e, w5)
                                   | (Inr (popularity, artists), w5) \<Rightarrow>
                                       (Inr (Some \<lparr>top_genres = select_top_genres cfg global_scores,
                                                   country_genre_popularity = popularity,
                                                   top_artists = artists\<rparr>), w5)))))))"

section \<open>Example worlds\<close>

text \<open>
  A server that reads its answers from a script: the \<open>n\<close>-th request gets the
  \<open>n\<close>-th outcome, and a request after the script's end finds the connection refused.
\<close>

definition scripted :: "http_outcome list \<Rightarrow> world" where
  "scripted outs =
     \<lparr>server = (\<lambda>h. if 0 < length h \<and> length h \<le> length outs then outs ! (length h - 1)
                      else RequestException),
      sent = [], slept = []\<rparr>"

definition example_request :: request where
  "example_request =
     \<lparr>rmethod = ''GET'', url = ''http://example.com'', bearer = None, params = [],
      form = [], auth = None\<rparr>"

definition http_response :: "int \<Rightarrow> string option \<Rightarrow> json option \<Rightarrow> response" where
  "http_response st ra b = \<lparr>status_code = st, retry_after = ra, body = b\<rparr>"


section \<open>Worlds that serve pages\<close>

text \<open>
  The requests of a collector for the pages \<open>j\<close> to \<open>n - 1\<close>, at the offsets
  \<open>50 * j\<close>, ..., and what the properties of the collectors assume of a world.
  \<open>serves_page\<close>: after one request for each page before it, the request for page
  \<open>i\<close> is answered at once by a response that carries \<open>p\<close>.
  \<open>serves_full_pages\<close>: this holds for each page of the list, and each has exactly
  50 elements. \<open>no_result_at\<close>: after the requests for \<open>k\<close> pages, the fetcher
  returns \<^verbatim>\<open>None\<close> for the next one.
\<close>

definition page_requests :: "(int \<Rightarrow> request) \<Rightarrow> nat \<Rightarrow> nat \<Rightarrow> request list" where
  "page_requests request_at j n = map (\<lambda>k. request_at (int (k * 50))) [j ..< n]"

definition serves_page ::
  "world \<Rightarrow> (int \<Rightarrow> request) \<Rightarrow> (response \<Rightarrow> error + json) \<Rightarrow> (json \<Rightarrow> error + 'a list) \<Rightarrow>
   nat \<Rightarrow> 'a list \<Rightarrow> bool" where
  "serves_page w request_at items_of convert i p =
     (case server w (sent w @ page_requests request_at 0 (Suc i)) of
        Response r \<Rightarrow> carries_page items_of convert r p
      | RequestException \<Rightarrow> False)"

definition serves_full_pages ::
  "world \<Rightarrow> (int \<Rightarrow> request) \<Rightarrow> (response \<Rightarrow> error + json) \<Rightarrow> (json \<Rightarrow> error + 'a list) \<Rightarrow>
   'a list list \<Rightarrow> bool" where
  "serves_full_pages w request_at items_of convert pages =
     list_all (\<lambda>i. serves_page w request_at items_of convert i (pages ! i) \<and> length (pages ! i) = 50)
       [0 ..< length pages]"

definition no_result_at ::
  "world \<Rightarrow> (int \<Rightarrow> request) \<Rightarrow> nat \<Rightarrow> bool" where
  "no_result_at w request_at k =
     (fst (safe_request (request_at (int (k * 50)))
            \<lparr>server = server w, sent = sent w @ page_requests request_at 0 k, slept = []\<rparr>)
      = Inr None)"

text \<open>Bodies as the API sends them, for the examples.\<close>

definition ok_response :: "json \<Rightarrow> http_outcome" where
  "ok_response j = Response (http_response 200 None (Some j))"

definition tracks_body :: "json list \<Rightarrow> json" where
  "tracks_body items = JObj [(''tracks'', JObj [(''items'', JArr items)])]"

definition categories_body :: "json list \<Rightarrow> json" where
  "categories_body items = JObj [(''categories'', JObj [(''items'', JArr items)])]"

definition category :: "string \<Rightarrow> string \<Rightarrow> json" where
  "category n i = JObj [(''name'', JStr n), (''id'', JStr i)]"

section \<open>The ranking as the specification words it\<close>

text \<open>
  A track as the data model has it: the names of its artists in order, and its
  popularity; \<open>track_json\<close> is the track as the search endpoint sends it.
\<close>

type_synonym track = "string list \<times> int"

definition track_json :: "track \<Rightarrow> json" where
  "track_json t =
     JObj [(''popularity'', JInt (snd t)),
           (''artists'', JArr (map (\<lambda>a. JObj [(''name'', JStr a)]) (fst t)))]"

text \<open>
  The ranking in the words of the specification. A track with at least one artist
  credits its popularity to the first one; \<open>first_seen\<close> lists each name once, in the
  order of first appearance; the total of an artist is the sum of the credits to it.
\<close>

definition credited :: "track list \<Rightarrow> (json \<times> int) list" where
  "credited ts =
     concat (map (\<lambda>t. case fst t of [] \<Rightarrow> [] | a # others \<Rightarrow> [(JStr a, snd t)]) ts)"

fun first_seen :: "'a list \<Rightarrow> 'a list" where
  "first_seen [] = []"
| "first_seen (x # xs) = x # removeAll x (first_seen xs)"

definition total_of :: "('a \<times> int) list \<Rightarrow> 'a \<Rightarrow> int" where
  "total_of cs a = sum_list (map snd (filter (\<lambda>c. fst c = a) cs))"

definition artist_totals :: "track list \<Rightarrow> (json \<times> int) list" where
  "artist_totals ts =
     map (\<lambda>a. (a, total_of (credited ts) a)) (first_seen (map fst (credited ts)))"

text \<open>The credits, one after the other, as the loop adds them to the dict.\<close>

fun credit_all :: "(json \<times> int) list \<Rightarrow> (json \<times> int) list \<Rightarrow> (json \<times> int) list" where
  "credit_all [] d = d"
| "credit_all (c # cs) d =
     credit_all cs (dict_put (fst c) ((case map_of d (fst c) of None \<Rightarrow> 0 | Some s \<Rightarrow> s) + snd c) d)"

text \<open>The configuration with the defaults of the module.\<close>

definition example_config :: config where
  "example_config =
     \<lparr>client_id = ''id'', client_secret = ''secret'', markets_limit = 10, genres_limit = 200,
      tracks_per_genre = 200, top_n_genres = 10, top_n_artists = 5\<rparr>"

definition markets_body :: "json list \<Rightarrow> json" where
  "markets_body ms = JObj [(''markets'', JArr ms)]"

text \<open>A run for the examples: one category, one market, two tracks for the pair.\<close>

definition example_run :: "http_outcome list" where
  "example_run =
     [ok_response (JObj [(''access_token'', JStr ''t'')]),
      ok_response (categories_body [category ''Pop'' ''pop'']),
      ok_response (tracks_body [track_json ([''A''], 10)]),
      ok_response (markets_body [JStr ''US'']),
      ok_response (tracks_body [track_json ([''A''], 10), track_json ([''B''], 7)]),
      ok_response (tracks_body [track_json ([''A''], 10), track_json ([''B''], 7)])]"

text \<open>
  What the market loop keeps true of the entries of its two dicts: the keys of an
  inner dict are the genres, and no artist list is longer than \<^verbatim>\<open>TOP_N_ARTISTS\<close>
  when that is not negative.
\<close>

definition complete_scores :: "json list \<Rightarrow> (json \<times> (json \<times> int) list) \<Rightarrow> bool" where
  "complete_scores genres kv = (fst ` set (snd kv) = set genres)"

definition complete_artists ::
  "config \<Rightarrow> json list \<Rightarrow> (json \<times> (json \<times> (json \<times> int) list) list) \<Rightarrow> bool" where
  "complete_artists cfg genres kv =
     (fst ` set (snd kv) = set genres
      \<and> (top_n_artists cfg < 0 \<or> list_all (\<lambda>ge. int (length (snd ge)) \<le> top_n_artists cfg) (snd kv)))"

text \<open>The snapshot that the example run writes.\<close>

definition example_snapshot :: snapshot where
  "example_snapshot =
     \<lparr>top_genres = [JStr ''Pop''],
      country_genre_popularity = [(JStr ''US'', [(JStr ''Pop'', 17)])],
      top_artists = [(JStr ''US'', [(JStr ''Pop'', [(JStr ''A'', 10), (JStr ''B'', 7)])])]\<rparr>"

text \<open>
  An outcome on which the fetcher gives up or goes on to its next attempt, so that a
  server with only such outcomes makes \<^verbatim>\<open>safe_request\<close> return \<^verbatim>\<open>None\<close>: a
  \<^verbatim>\<open>RequestException\<close>, or a status from 400 to 599 (a 429 with a
  \<^verbatim>\<open>Retry-After\<close> the loop can sleep on). \<open>unavailable_from n w\<close>: at least \<open>n\<close>
  requests have been sent, and every request after the first \<open>n\<close> has such an outcome.
\<close>

fun gives_no_result :: "http_outcome \<Rightarrow> bool" where
  "gives_no_result RequestException = True"
| "gives_no_result (Response r) =
     (400 \<le> status_code r \<and> status_code r < 600 \<and> (status_code r \<noteq> 429 \<or> retry_after_usable r))"

definition unavailable_from :: "nat \<Rightarrow> world \<Rightarrow> bool" where
  "unavailable_from n w = (n \<le> length (sent w) \<and> (\<forall>h. n < length h \<longrightarrow> gives_no_result (server w h)))"

section \<open>Boundary normalizer\<close>

text \<open>\<^verbatim>\<open>str.lower\<close> and \<^verbatim>\<open>str.upper\<close> on ASCII strings.\<close>

definition lower_char :: "char \<Rightarrow> char" where
  "lower_char c = (let n = (of_char c :: nat) in if 65 \<le> n \<and> n \<le> 90 then char_of (n + 32) else c)"

definition upper_char :: "char \<Rightarrow> char" where
  "upper_char c = (let n = (of_char c :: nat) in if 97 \<le> n \<and> n \<le> 122 then char_of (n - 32) else c)"

definition py_lower :: "string \<Rightarrow> string" where
  "py_lower s = map lower_char s"

definition py_upper :: "string \<Rightarrow> string" where
  "py_upper s = map upper_char s"

text \<open>
  The boundary file as a data frame: its columns in order, each with its label and its
  values, one per country. A value is a string or missing (\<open>None\<close>); the geometry
  and numeric properties play no part and are left out.
\<close>

type_synonym frame = "(string \<times> string option list) list"

definition iso2_aliases :: "string list" where
  "iso2_aliases = [''iso_a2'', ''iso2'', ''iso_3166_1_alpha_2'', ''iso3166-1-alpha-2'']"

text \<open>The loop \<^verbatim>\<open>for col in world.columns\<close> of
  \<^verbatim>\<open>prepare_and_render_maps.py\<close>: the column at which it breaks, \<open>None\<close> when it
  runs into its \<^verbatim>\<open>else\<close>.\<close>

fun first_iso2_column :: "string list \<Rightarrow> string option" where
  "first_iso2_column [] = None"
| "first_iso2_column (col # cols) =
     (if py_lower col \<in> set iso2_aliases then Some col else first_iso2_column cols)"

text \<open>\<^verbatim>\<open>world.rename(columns={col: "iso_a2"})\<close>.\<close>

definition rename_column :: "string \<Rightarrow> frame \<Rightarrow> frame" where
  "rename_column col f = map (\<lambda>c. (if fst c = col then ''iso_a2'' else fst c, snd c)) f"

text \<open>
  \<^verbatim>\<open>world["iso_a2"] = world["iso_a2"].str.upper()\<close>. With one column of that label
  \<^verbatim>\<open>world["iso_a2"]\<close> is a series, and \<^verbatim>\<open>.str.upper()\<close> leaves missing values
  missing; with several it is a data frame, which has no \<^verbatim>\<open>.str\<close>.
\<close>

definition upper_iso_a2 :: "frame \<Rightarrow> error + frame" where
  "upper_iso_a2 f =
     (if length (filter (\<lambda>c. fst c = ''iso_a2'') f) = 1
      then Inr (map (\<lambda>c. if fst c = ''iso_a2'' then (fst c, map (map_option py_upper) (snd c)) else c) f)
      else Inl AttributeError)"

text \<open>Lines 41 to 47 of \<^verbatim>\<open>prepare_and_render_maps.py\<close>.\<close>

definition normalize_boundaries :: "frame \<Rightarrow> error + frame" where
  "normalize_boundaries f =
     (case first_iso2_column (map fst f) of
        None \<Rightarrow> Inl RuntimeError
      | Some col \<Rightarrow> upper_iso_a2 (rename_column col f))"

text \<open>
  Lines 25 to 27 of \<^verbatim>\<open>app.py\<close>: the last column whose lower-cased label starts with
  \<^verbatim>\<open>iso\<close> and whose label contains \<^verbatim>\<open>2\<close>; \<^verbatim>\<open>[-1]\<close> of an empty list raises
  \<^verbatim>\<open>IndexError\<close>.
\<close>

definition app_iso2_candidate :: "string \<Rightarrow> bool" where
  "app_iso2_candidate c = (take 3 (py_lower c) = ''iso'' \<and> CHR ''2'' \<in> set c)"

definition app_normalize_boundaries :: "frame \<Rightarrow> error + frame" where
  "app_normalize_boundaries f =
     (case filter app_iso2_candidate (map fst f) of
        [] \<Rightarrow> Inl IndexError
      | c # cs \<Rightarrow> upper_iso_a2 (rename_column (last (c # cs)) f))"

section \<open>Aggregate-geometry joiner\<close>

text \<open>
  The snapshot as the two scripts load it from the file: JSON objects are lists of
  items with distinct string keys, scores are integers, artists are names.
  \<open>dict_get d k x\<close> is \<^verbatim>\<open>d.get(k, x)\<close>.
\<close>

type_synonym popularity_data = "(string \<times> (string \<times> int) list) list"

type_synonym artists_data = "(string \<times> (string \<times> (string \<times> int) list) list) list"

definition dict_get :: "('k \<times> 'v) list \<Rightarrow> 'k \<Rightarrow> 'v \<Rightarrow> 'v" where
  "dict_get d k x = (case map_of d k of None \<Rightarrow> x | Some v \<Rightarrow> v)"

text \<open>An integer in an f-string, and \<^verbatim>\<open>sep.join(xs)\<close>.\<close>

fun show_nat :: "nat \<Rightarrow> string" where
  "show_nat n =
     (if n < 10 then [char_of (48 + n)] else show_nat (n div 10) @ [char_of (48 + n mod 10)])"

definition show_int :: "int \<Rightarrow> string" where
  "show_int i = (if i < 0 then ''-'' @ show_nat (nat (- i)) else show_nat (nat i))"

fun join :: "string \<Rightarrow> string list \<Rightarrow> string" where
  "join sep [] = []"
| "join sep [x] = x"
| "join sep (x # y # ys) = x @ sep @ join sep (y # ys)"

text \<open>
  A row of a merged frame: the country code of the boundary record (missing when the
  record has none), the value, and the tooltip; \<open>None\<close> is pandas' NaN. Of the
  boundary frame only the \<^verbatim>\<open>iso_a2\<close> column takes part in the join.
\<close>

record joined_row =
  row_iso :: "string option"
  row_value :: int
  row_tooltip :: "string option"

text \<open>
  \<^verbatim>\<open>world.merge(df, how="left", on="iso_a2")\<close>, where \<open>recs\<close> are the records of
  \<open>df\<close> with their \<^verbatim>\<open>iso_a2\<close> first: every boundary record in order, once for
  each record of \<open>df\<close> with its code, and once with nothing when there is none. A frame
  made from no records has no column \<^verbatim>\<open>iso_a2\<close>, and the merge raises
  \<^verbatim>\<open>KeyError\<close>.
\<close>

definition left_merge :: "string option list \<Rightarrow> (string \<times> 'r) list \<Rightarrow> (string option \<times> 'r option) list" where
  "left_merge world recs =
     concat (map (\<lambda>k. case filter (\<lambda>r. Some (fst r) = k) recs of
                        [] \<Rightarrow> [(k, None)]
                      | m # ms \<Rightarrow> map (\<lambda>r. (k, Some (snd r))) (m # ms)) world)"

definition merge_on_iso ::
  "string option list \<Rightarrow> (string \<times> 'r) list \<Rightarrow> error + (string option \<times> 'r option) list" where
  "merge_on_iso world recs = (if recs = [] then Inl KeyError else Inr (left_merge world recs))"

subsection \<open>\<^verbatim>\<open>prepare_and_render_maps.py\<close>\<close>

text \<open>Lines 60 to 74: the total view.\<close>

definition total_records :: "popularity_data \<Rightarrow> (string \<times> int \<times> string) list" where
  "total_records popularity =
     map (\<lambda>kv. (py_upper (fst kv),
                sum_list (map snd (snd kv)),
                join ''<br>'' (map (\<lambda>gv. fst gv @ '': '' @ show_int (snd gv))
                                (take 5 (sorted_by_score (snd kv))))))
       popularity"

definition merged_total :: "string option list \<Rightarrow> popularity_data \<Rightarrow> error + joined_row list" where
  "merged_total world popularity =
     (case merge_on_iso world (total_records popularity) of
        Inl e \<Rightarrow> Inl e
      | Inr rows \<Rightarrow>
          Inr (map (\<lambda>kr. \<lparr>row_iso = fst kr,
                          row_value = (case snd kr of None \<Rightarrow> 0 | Some r \<Rightarrow> fst r),
                          row_tooltip = Some (case snd kr of None \<Rightarrow> ''No data'' | Some r \<Rightarrow> snd r)\<rparr>)
                 rows))"

text \<open>Lines 105 to 115: the view of one genre.\<close>

definition genre_records ::
  "popularity_data \<Rightarrow> artists_data \<Rightarrow> string \<Rightarrow> (string \<times> int \<times> string) list" where
  "genre_records popularity artists genre =
     map (\<lambda>kv. (py_upper (fst kv),
                dict_get (snd kv) genre 0,
                (let tip = join ''<br>'' (map (\<lambda>a. fst a @ '': '' @ show_int (snd a))
                                           (take 5 (dict_get (dict_get artists (fst kv) []) genre [])))
                 in if tip = [] then ''No artists'' else tip)))
       popularity"

definition merged_g :: "string option list \<Rightarrow> popularity_data \<Rightarrow> artists_data \<Rightarrow> string \<Rightarrow> error + joined_row list" where
  "merged_g world popularity artists genre =
     (case merge_on_iso world (genre_records popularity artists genre) of
        Inl e \<Rightarrow> Inl e
      | Inr rows \<Rightarrow>
          Inr (map (\<lambda>kr. \<lparr>row_iso = fst kr,
                          row_value = (case snd kr of None \<Rightarrow> 0 | Some r \<Rightarrow> fst r),
                          row_tooltip = Some (case snd kr of None \<Rightarrow> ''No data'' | Some r \<Rightarrow> snd r)\<rparr>)
                 rows))"

subsection \<open>\<^verbatim>\<open>app.py\<close>\<close>

text \<open>Lines 36 to 50: the total view.\<close>

definition tot_records :: "popularity_data \<Rightarrow> (string \<times> int \<times> string) list" where
  "tot_records country_pop =
     map (\<lambda>kv. (py_upper (fst kv),
                sum_list (map snd (snd kv)),
                join '', '' (map (\<lambda>gv. fst gv @ '' ('' @ show_int (snd gv) @ '')'')
                               (take 5 (sorted_by_score (snd kv))))))
       country_pop"

definition merged_tot :: "string option list \<Rightarrow> popularity_data \<Rightarrow> error + joined_row list" where
  "merged_tot world country_pop =
     (case merge_on_iso world (tot_records country_pop) of
        Inl e \<Rightarrow> Inl e
      | Inr rows \<Rightarrow>
          Inr (map (\<lambda>kr. \<lparr>row_iso = fst kr,
                          row_value = (case snd kr of None \<Rightarrow> 0 | Some r \<Rightarrow> fst r),
                          row_tooltip = Some (case snd kr of None \<Rightarrow> ''None'' | Some r \<Rightarrow> snd r)\<rparr>)
                 rows))"

text \<open>
  Lines 87 to 103: the view of one genre. The loop over \<^verbatim>\<open>country_art.items()\<close>
  fills \<^verbatim>\<open>recs\<close> and the dict \<^verbatim>\<open>country_tooltips\<close>, in which a later entry
  replaces an earlier one of the same key; \<^verbatim>\<open>country_pop[iso2]\<close> raises
  \<^verbatim>\<open>KeyError\<close> for a country that has artists and no scores. After the merge only
  \<^verbatim>\<open>value\<close> is filled, and \<^verbatim>\<open>merged_g["iso_a2"].map(country_tooltips)\<close> is NaN
  where the dict has no entry.
\<close>

fun app_genre_loop ::
  "popularity_data \<Rightarrow> string \<Rightarrow> (string \<times> (string \<times> (string \<times> int) list) list) list \<Rightarrow>
   error + ((string \<times> int) list \<times> (string \<times> string) list)" where
  "app_genre_loop country_pop genre [] = Inr ([], [])"
| "app_genre_loop country_pop genre (entry # rest) =
     (case map_of country_pop (fst entry) of
        None \<Rightarrow> Inl KeyError
      | Some scores \<Rightarrow>
          (case app_genre_loop country_pop genre rest of
             Inl e \<Rightarrow> Inl e
           | Inr later \<Rightarrow>
               (let tip = join '', '' (map (\<lambda>a. fst a @ '' ('' @ show_int (snd a) @ '')'')
                                         (take 5 (dict_get (snd entry) genre [])))
                in Inr ((py_upper (fst entry), dict_get scores genre 0) # fst later,
                        (if py_upper (fst entry) \<in> fst ` set (snd later) then snd later
                         else (py_upper (fst entry), if tip = [] then ''None'' else tip) # snd later)))))"

definition app_merged_g ::
  "string option list \<Rightarrow> popularity_data \<Rightarrow> artists_data \<Rightarrow> string \<Rightarrow> error + joined_row list" where
  "app_merged_g world country_pop country_art genre =
     (case app_genre_loop country_pop genre country_art of
        Inl e \<Rightarrow> Inl e
      | Inr recs_tooltips \<Rightarrow>
          (case merge_on_iso world (fst recs_tooltips) of
             Inl e \<Rightarrow> Inl e
           | Inr rows \<Rightarrow>
               Inr (map (\<lambda>kr. \<lparr>row_iso = fst kr,
                               row_value = (case snd kr of None \<Rightarrow> 0 | Some v \<Rightarrow> v),
                               row_tooltip = (case fst kr of None \<Rightarrow> None
                                              | Some code \<Rightarrow> map_of (snd recs_tooltips) code)\<rparr>)
                      rows)))"

text \<open>
  A boundary record has no entry among the country codes \<open>keys\<close> of the aggregate
  when it has no code at all or its code is not one of them.
\<close>

definition no_entry :: "string option \<Rightarrow> string list \<Rightarrow> bool" where
  "no_entry k keys = (case k of None \<Rightarrow> True | Some c \<Rightarrow> c \<notin> set keys)"

definition codes :: "(string \<times> 'v) list \<Rightarrow> string list" where
  "codes d = map (\<lambda>kv. py_upper (fst kv)) d"

text \<open>
  The example of the joiner: boundaries for the United States and France, and a
  snapshot that holds the United States only.
\<close>

definition example_world :: "string option list" where
  "example_world = [Some ''US'', Some ''FR'']"

definition example_popularity :: popularity_data where
  "example_popularity = [(''US'', [(''Pop'', 17)])]"

definition example_artists :: artists_data where
  "example_artists = [(''US'', [(''Pop'', [(''A'', 10), (''B'', 7)])])]"

chapter \<open>Properties\<close>

section \<open>The rate-limited fetcher\<close>

declare attempts.simps(2) [simp del]

lemma py_int_one: "py_int ''1'' = Some 1"
  by (simp add: py_int_def strip_def is_space_def digit_val_def)

lemma server_sleep [simp]: "server (snd (sleep d w)) = server w"
  by (simp add: sleep_def)

lemma attempts_step_fail:
  "failed_attempt (server w (sent w @ [rq])) \<Longrightarrow>
   \<exists>d. attempts (a # as) rq w = attempts as rq (w\<lparr>sent := sent w @ [rq], slept := slept w @ [d]\<rparr>)"
  by (cases "server w (sent w @ [rq])")
    (auto simp: attempts.simps(2) Let_def sleep_def retry_after_usable_def raises_for_status_def split: option.splits)

lemma attempts_cases:
  "(\<exists>res. attempts (a # as) rq w = (res, w\<lparr>sent := sent w @ [rq]\<rparr>))
   \<or> (\<exists>d. attempts (a # as) rq w = attempts as rq (w\<lparr>sent := sent w @ [rq], slept := slept w @ [d]\<rparr>))"
proof (cases "server w (sent w @ [rq])")
  case RequestException
  then have "attempts (a # as) rq w = attempts as rq (w\<lparr>sent := sent w @ [rq], slept := slept w @ [2 ^ a]\<rparr>)"
    by (simp add: attempts.simps(2) Let_def sleep_def)
  then show ?thesis by blast
next
  case (Response r)
  show ?thesis
  proof (cases "status_code r = 429")
    case True
    show ?thesis
    proof (cases "retry_seconds r")
      case None
      with True Response show ?thesis by (simp add: attempts.simps(2) Let_def)
    next
      case (Some n)
      show ?thesis
      proof (cases "0 \<le> n")
        case True
        with Some \<open>status_code r = 429\<close> Response
        have "attempts (a # as) rq w = attempts as rq (w\<lparr>sent := sent w @ [rq], slept := slept w @ [of_int n]\<rparr>)"
          by (simp add: attempts.simps(2) Let_def sleep_def)
        then show ?thesis by blast
      next
        case False
        with Some \<open>status_code r = 429\<close> Response show ?thesis
          by (simp add: attempts.simps(2) Let_def sleep_def)
      qed
    qed
  next
    case False
    show ?thesis
    proof (cases "500 \<le> status_code r \<and> status_code r < 600")
      case True
      with False Response
      have "attempts (a # as) rq w = attempts as rq (w\<lparr>sent := sent w @ [rq], slept := slept w @ [2 ^ a]\<rparr>)"
        by (simp add: attempts.simps(2) Let_def sleep_def raises_for_status_def)
      then show ?thesis by blast
    next
      case F2: False
      with False Response show ?thesis
        by (auto simp: attempts.simps(2) Let_def raises_for_status_def)
    qed
  qed
qed

lemma attempts_sent:
  "\<exists>k\<le>length as. sent (snd (attempts as rq w)) = sent w @ replicate k rq"
proof (induction as arbitrary: w)
  case Nil
  then show ?case by simp
next
  case (Cons a as)
  consider res where "attempts (a # as) rq w = (res, w\<lparr>sent := sent w @ [rq]\<rparr>)"
    | d where "attempts (a # as) rq w = attempts as rq (w\<lparr>sent := sent w @ [rq], slept := slept w @ [d]\<rparr>)"
    using attempts_cases [of a as rq w] by blast
  then show ?case
  proof cases
    case 1
    then have "sent (snd (attempts (a # as) rq w)) = sent w @ replicate 1 rq" by simp
    then show ?thesis by (intro exI [of _ 1]) simp
  next
    case 2
    obtain k where k: "k \<le> length as"
      and "sent (snd (attempts as rq (w\<lparr>sent := sent w @ [rq], slept := slept w @ [d]\<rparr>)))
           = sent (w\<lparr>sent := sent w @ [rq], slept := slept w @ [d]\<rparr>) @ replicate k rq"
      using Cons.IH by blast
    then have "sent (snd (attempts (a # as) rq w)) = sent w @ replicate (Suc k) rq"
      using 2 by (simp add: replicate_app_Cons_same)
    with k show ?thesis by (intro exI [of _ "Suc k"]) simp
  qed
qed

lemma attempts_total:
  "(\<And>h r. server w h = Response r \<Longrightarrow> status_code r = 429 \<Longrightarrow> retry_after_usable r) \<Longrightarrow>
   \<exists>res. fst (attempts as rq w) = Inr res"
proof (induction as arbitrary: w)
  case Nil
  then show ?case by simp
next
  case (Cons a as)
  have go: "\<exists>res. fst (attempts as rq (w\<lparr>sent := s, slept := sl\<rparr>)) = Inr res" for s sl
    by (rule Cons.IH) (use Cons.prems in simp)
  show ?case
  proof (cases "server w (sent w @ [rq])")
    case RequestException
    then show ?thesis by (simp add: attempts.simps(2) Let_def sleep_def go)
  next
    case (Response r)
    show ?thesis
    proof (cases "status_code r = 429")
      case True
      with Response Cons.prems have "retry_after_usable r" by blast
      with True Response show ?thesis
        by (auto simp: attempts.simps(2) Let_def sleep_def go retry_after_usable_def split: option.splits)
    next
      case False
      with Response show ?thesis by (simp add: attempts.simps(2) Let_def sleep_def go)
    qed
  qed
qed

lemma attempts_retry_absent:
  "server w (sent w @ [rq]) = Response r \<Longrightarrow> status_code r = 429 \<Longrightarrow> retry_after r = None \<Longrightarrow>
   attempts (a # as) rq w = attempts as rq (w\<lparr>sent := sent w @ [rq], slept := slept w @ [1]\<rparr>)"
  by (simp add: attempts.simps(2) Let_def sleep_def retry_seconds_def py_int_one)

lemma attempts_retry_malformed:
  "server w (sent w @ [rq]) = Response r \<Longrightarrow> status_code r = 429 \<Longrightarrow> retry_seconds r = None \<Longrightarrow>
   attempts (a # as) rq w = (Inl ValueError, w\<lparr>sent := sent w @ [rq]\<rparr>)"
  by (simp add: attempts.simps(2) Let_def)

lemma attempts_retry_seconds:
  "server w (sent w @ [rq]) = Response r \<Longrightarrow> status_code r = 429 \<Longrightarrow> retry_seconds r = Some n \<Longrightarrow>
   0 \<le> n \<Longrightarrow>
   attempts (a # as) rq w = attempts as rq (w\<lparr>sent := sent w @ [rq], slept := slept w @ [of_int n]\<rparr>)"
  by (simp add: attempts.simps(2) Let_def sleep_def)

lemma attempts_client_error:
  "server w (sent w @ [rq]) = Response r \<Longrightarrow> status_code r \<noteq> 429 \<Longrightarrow>
   400 \<le> status_code r \<Longrightarrow> status_code r < 500 \<Longrightarrow>
   attempts (a # as) rq w = (Inr None, w\<lparr>sent := sent w @ [rq]\<rparr>)"
  by (simp add: attempts.simps(2) Let_def)

lemma attempts_success:
  "server w (sent w @ [rq]) = Response r \<Longrightarrow> status_code r < 400 \<or> 600 \<le> status_code r \<Longrightarrow>
   attempts (a # as) rq w = (Inr (Some r), w\<lparr>sent := sent w @ [rq]\<rparr>)"
  by (auto simp: attempts.simps(2) Let_def raises_for_status_def)

text \<open>
  Claim C2, as the code has it. A 429 response with no \<^verbatim>\<open>Retry-After\<close> header makes
  \<^verbatim>\<open>safe_request\<close> sleep one second and go on with the second attempt. A header
  that \<^verbatim>\<open>int\<close> cannot read makes it raise \<^verbatim>\<open>ValueError\<close> at once, after one
  request and with no sleep. When every 429 response the server can give has no
  header or a number that is not negative, \<^verbatim>\<open>safe_request\<close> does not raise: it
  returns a response or \<^verbatim>\<open>None\<close>.
\<close>

theorem safe_request_retry_after:
  "(server w (sent w @ [rq]) = Response r \<and> status_code r = 429 \<and> retry_after r = None \<longrightarrow>
      safe_request rq w = attempts [2, 3] rq (w\<lparr>sent := sent w @ [rq], slept := slept w @ [1]\<rparr>))
   \<and> (server w (sent w @ [rq]) = Response r \<and> status_code r = 429 \<and> retry_seconds r = None \<longrightarrow>
      safe_request rq w = (Inl ValueError, w\<lparr>sent := sent w @ [rq]\<rparr>))
   \<and> ((\<forall>h r'. server w h = Response r' \<and> status_code r' = 429 \<longrightarrow> retry_after_usable r') \<longrightarrow>
      (\<exists>res. fst (safe_request rq w) = Inr res))"
proof (intro conjI impI)
  assume "server w (sent w @ [rq]) = Response r \<and> status_code r = 429 \<and> retry_after r = None"
  then show "safe_request rq w = attempts [2, 3] rq (w\<lparr>sent := sent w @ [rq], slept := slept w @ [1]\<rparr>)"
    unfolding safe_request_def by (intro attempts_retry_absent) auto
next
  assume "server w (sent w @ [rq]) = Response r \<and> status_code r = 429 \<and> retry_seconds r = None"
  then show "safe_request rq w = (Inl ValueError, w\<lparr>sent := sent w @ [rq]\<rparr>)"
    unfolding safe_request_def by (intro attempts_retry_malformed) auto
next
  assume "\<forall>h r'. server w h = Response r' \<and> status_code r' = 429 \<longrightarrow> retry_after_usable r'"
  then show "\<exists>res. fst (safe_request rq w) = Inr res"
    unfolding safe_request_def by (intro attempts_total) blast
qed

lemma http_response_sel [simp]:
  "status_code (http_response st ra b) = st"
  "retry_after (http_response st ra b) = ra"
  "body (http_response st ra b) = b"
  by (simp_all add: http_response_def)

lemma retry_seconds_absent: "retry_seconds (http_response st None b) = Some 1"
  by (simp add: retry_seconds_def http_response_def py_int_one)

lemma retry_seconds_zero: "retry_seconds (http_response st (Some ''0'') b) = Some 0"
  by (simp add: retry_seconds_def http_response_def py_int_def strip_def is_space_def digit_val_def)

lemma retry_seconds_http_date:
  "retry_seconds (http_response st (Some ''Wed, 21 Oct 2015 07:28:00 GMT'') b) = None"
  by (simp add: retry_seconds_def http_response_def py_int_def strip_def is_space_def digit_val_def)

theorem safe_request_retry_after_witness:
  "safe_request example_request
     (scripted [Response (http_response 429 None None), Response (http_response 200 None (Some JNull))])
   = (Inr (Some (http_response 200 None (Some JNull))),
      \<lparr>server = server (scripted [Response (http_response 429 None None),
                                  Response (http_response 200 None (Some JNull))]),
       sent = [example_request, example_request], slept = [1]\<rparr>)
   \<and> safe_request example_request
      (scripted [Response (http_response 429 (Some ''Wed, 21 Oct 2015 07:28:00 GMT'') None)])
     = (Inl ValueError,
        \<lparr>server = server (scripted [Response (http_response 429 (Some ''Wed, 21 Oct 2015 07:28:00 GMT'') None)]),
         sent = [example_request], slept = []\<rparr>)
   \<and> (\<exists>res. fst (safe_request example_request
        \<lparr>server = (\<lambda>h. Response (http_response 429 None None)), sent = [], slept = []\<rparr>) = Inr res)"
proof (intro conjI)
  let ?w = "scripted [Response (http_response 429 None None), Response (http_response 200 None (Some JNull))]"
  have "safe_request example_request ?w
      = attempts [2, 3] example_request (?w\<lparr>sent := sent ?w @ [example_request], slept := slept ?w @ [1]\<rparr>)"
    using safe_request_retry_after [of ?w example_request "http_response 429 None None"]
    by (simp add: scripted_def http_response_def)
  also have "\<dots> = (Inr (Some (http_response 200 None (Some JNull))),
      \<lparr>server = server ?w, sent = [example_request, example_request], slept = [1]\<rparr>)"
    by (simp add: attempts.simps(2) scripted_def http_response_def Let_def raises_for_status_def)
  finally show "safe_request example_request ?w
      = (Inr (Some (http_response 200 None (Some JNull))),
         \<lparr>server = server ?w, sent = [example_request, example_request], slept = [1]\<rparr>)" .
next
  let ?r = "http_response 429 (Some ''Wed, 21 Oct 2015 07:28:00 GMT'') None"
  show "safe_request example_request (scripted [Response ?r])
      = (Inl ValueError, \<lparr>server = server (scripted [Response ?r]), sent = [example_request], slept = []\<rparr>)"
    using safe_request_retry_after [of "scripted [Response ?r]" example_request ?r]
    by (simp add: retry_seconds_http_date) (simp add: scripted_def http_response_def)
next
  let ?w = "\<lparr>server = (\<lambda>h. Response (http_response 429 None None)), sent = [], slept = []\<rparr>"
  show "\<exists>res. fst (safe_request example_request ?w) = Inr res"
    using safe_request_retry_after [of ?w example_request, THEN conjunct2, THEN conjunct2]
    by (auto simp: retry_after_usable_def retry_seconds_absent)
qed

text \<open>
  Claim C2 as stated fails on an HTTP-date, the other form of \<^verbatim>\<open>Retry-After\<close> that
  HTTP allows: \<^verbatim>\<open>safe_request\<close> raises \<^verbatim>\<open>ValueError\<close>, it neither sleeps nor
  retries.
\<close>

theorem safe_request_retry_after_counterexample:
  "safe_request example_request
     (scripted [Response (http_response 429 (Some ''Wed, 21 Oct 2015 07:28:00 GMT'') None),
                Response (http_response 200 None (Some JNull))])
   = (Inl ValueError,
      \<lparr>server = server (scripted [Response (http_response 429 (Some ''Wed, 21 Oct 2015 07:28:00 GMT'') None),
                                  Response (http_response 200 None (Some JNull))]),
       sent = [example_request], slept = []\<rparr>)"
proof -
  let ?r = "http_response 429 (Some ''Wed, 21 Oct 2015 07:28:00 GMT'') None"
  let ?w = "scripted [Response ?r, Response (http_response 200 None (Some JNull))]"
  have "attempts [1, 2, 3] example_request ?w = (Inl ValueError, ?w\<lparr>sent := sent ?w @ [example_request]\<rparr>)"
    by (rule attempts_retry_malformed [of _ _ ?r])
      (simp_all add: scripted_def retry_seconds_http_date)
  then show ?thesis by (simp add: safe_request_def scripted_def)
qed

lemma safe_request_client_error:
  assumes "server w (sent w @ [rq]) = Response r" and "status_code r = 404"
  shows "safe_request rq w = (Inr None, w\<lparr>sent := sent w @ [rq]\<rparr>)"
  unfolding safe_request_def using assms by (intro attempts_client_error) auto

lemma safe_request_one_retry:
  assumes "server w (sent w @ [rq]) = Response r" and "status_code r = 429"
    and "retry_seconds r = Some n" and "0 \<le> n"
    and "server w (sent w @ [rq, rq]) = Response r2" and "status_code r2 = 200"
  shows "safe_request rq w =
    (Inr (Some r2), w\<lparr>sent := sent w @ [rq, rq], slept := slept w @ [of_int n]\<rparr>)"
proof -
  have "attempts [1, 2, 3] rq w
      = attempts [2, 3] rq (w\<lparr>sent := sent w @ [rq], slept := slept w @ [of_int n]\<rparr>)"
    using assms by (intro attempts_retry_seconds) auto
  also have "\<dots> = (Inr (Some r2), w\<lparr>sent := sent w @ [rq, rq], slept := slept w @ [of_int n]\<rparr>)"
    using assms attempts_success [of "w\<lparr>sent := sent w @ [rq], slept := slept w @ [of_int n]\<rparr>" rq r2 2 "[3]"]
    by simp
  finally show ?thesis by (simp add: safe_request_def)
qed

lemma safe_request_at_most_three:
  "\<exists>k\<le>3. sent (snd (safe_request rq w)) = sent w @ replicate k rq"
  using attempts_sent [of "[1, 2, 3]" rq w] unfolding safe_request_def
  by (simp add: numeral_3_eq_3)

lemma safe_request_three_failures:
  assumes "failed_attempt (server w (sent w @ [rq]))"
    and "failed_attempt (server w (sent w @ [rq, rq]))"
    and "failed_attempt (server w (sent w @ [rq, rq, rq]))"
  shows "\<exists>ds. safe_request rq w = (Inr None, w\<lparr>sent := sent w @ [rq, rq, rq], slept := slept w @ ds\<rparr>)"
proof -
  obtain d1 where s1: "attempts [1, 2, 3] rq w = attempts [2, 3] rq (w\<lparr>sent := sent w @ [rq], slept := slept w @ [d1]\<rparr>)"
    using attempts_step_fail [of w rq 1 "[2, 3]"] assms by blast
  obtain d2 where s2: "attempts [2, 3] rq (w\<lparr>sent := sent w @ [rq], slept := slept w @ [d1]\<rparr>)
      = attempts [3] rq (w\<lparr>sent := sent w @ [rq, rq], slept := slept w @ [d1, d2]\<rparr>)"
    using attempts_step_fail [of "w\<lparr>sent := sent w @ [rq], slept := slept w @ [d1]\<rparr>" rq 2 "[3]"] assms by auto
  obtain d3 where s3: "attempts [3] rq (w\<lparr>sent := sent w @ [rq, rq], slept := slept w @ [d1, d2]\<rparr>)
      = attempts [] rq (w\<lparr>sent := sent w @ [rq, rq, rq], slept := slept w @ [d1, d2, d3]\<rparr>)"
    using attempts_step_fail [of "w\<lparr>sent := sent w @ [rq, rq], slept := slept w @ [d1, d2]\<rparr>" rq 3 "[]"] assms by auto
  from s1 s2 s3 have "attempts [1, 2, 3] rq w
      = (Inr None, w\<lparr>sent := sent w @ [rq, rq, rq], slept := slept w @ [d1, d2, d3]\<rparr>)"
    by simp
  then show ?thesis unfolding safe_request_def by blast
qed

text \<open>
  Claim C3. A first response 404 gives \<^verbatim>\<open>None\<close> after one request and no sleep. A 429
  whose \<^verbatim>\<open>Retry-After\<close> reads as a number that is not negative, followed by a 200,
  gives the 200 response after two requests and one sleep of that number of seconds.
  Whatever the server does, \<^verbatim>\<open>safe_request\<close> sends the request at most three times,
  and three failed attempts give \<^verbatim>\<open>None\<close> after exactly three requests.
\<close>

theorem safe_request_attempts:
  "(server w (sent w @ [rq]) = Response r \<and> status_code r = 404 \<longrightarrow>
      safe_request rq w = (Inr None, w\<lparr>sent := sent w @ [rq]\<rparr>))
   \<and> (server w (sent w @ [rq]) = Response r \<and> status_code r = 429
        \<and> retry_seconds r = Some n \<and> 0 \<le> n
        \<and> server w (sent w @ [rq, rq]) = Response r2 \<and> status_code r2 = 200 \<longrightarrow>
      safe_request rq w =
        (Inr (Some r2), w\<lparr>sent := sent w @ [rq, rq], slept := slept w @ [of_int n]\<rparr>))
   \<and> (\<exists>k\<le>3. sent (snd (safe_request rq w)) = sent w @ replicate k rq)
   \<and> (failed_attempt (server w (sent w @ [rq])) \<and> failed_attempt (server w (sent w @ [rq, rq]))
        \<and> failed_attempt (server w (sent w @ [rq, rq, rq])) \<longrightarrow>
      (\<exists>ds. safe_request rq w =
         (Inr None, w\<lparr>sent := sent w @ [rq, rq, rq], slept := slept w @ ds\<rparr>)))"
  using safe_request_client_error [of w rq r] safe_request_one_retry [of w rq r n r2]
    safe_request_at_most_three [of rq w] safe_request_three_failures [of w rq]
  by blast


theorem safe_request_attempts_witness:
  "safe_request example_request (scripted [Response (http_response 404 None None)])
   = (Inr None,
      \<lparr>server = server (scripted [Response (http_response 404 None None)]),
       sent = [example_request], slept = []\<rparr>)
   \<and> safe_request example_request
      (scripted [Response (http_response 429 (Some ''0'') None),
                 Response (http_response 200 None (Some (JObj [(''ok'', JInt 1)])))])
     = (Inr (Some (http_response 200 None (Some (JObj [(''ok'', JInt 1)])))),
        \<lparr>server = server (scripted [Response (http_response 429 (Some ''0'') None),
                 Response (http_response 200 None (Some (JObj [(''ok'', JInt 1)])))]),
         sent = [example_request, example_request], slept = [0]\<rparr>)
   \<and> (\<exists>ds. safe_request example_request
         (scripted [RequestException, Response (http_response 503 None None),
                    Response (http_response 429 None None)])
       = (Inr None,
          \<lparr>server = server (scripted [RequestException, Response (http_response 503 None None),
                    Response (http_response 429 None None)]),
           sent = [example_request, example_request, example_request], slept = ds\<rparr>))"
proof (intro conjI)
  let ?w = "scripted [Response (http_response 404 None None)]"
  show "safe_request example_request ?w
      = (Inr None, \<lparr>server = server ?w, sent = [example_request], slept = []\<rparr>)"
    using safe_request_attempts [of ?w example_request "http_response 404 None None"]
    by (simp add: scripted_def http_response_def)
next
  let ?ok = "http_response 200 None (Some (JObj [(''ok'', JInt 1)]))"
  let ?w = "scripted [Response (http_response 429 (Some ''0'') None), Response ?ok]"
  show "safe_request example_request ?w
      = (Inr (Some ?ok), \<lparr>server = server ?w, sent = [example_request, example_request], slept = [0]\<rparr>)"
    using safe_request_attempts [of ?w example_request "http_response 429 (Some ''0'') None" 0 ?ok]
    by (simp add: retry_seconds_zero) (simp add: scripted_def http_response_def)
next
  let ?w = "scripted [RequestException, Response (http_response 503 None None),
                    Response (http_response 429 None None)]"
  show "\<exists>ds. safe_request example_request ?w
      = (Inr None, \<lparr>server = server ?w,
           sent = [example_request, example_request, example_request], slept = ds\<rparr>)"
    using safe_request_attempts [of ?w example_request]
    by (simp add: scripted_def retry_after_usable_def retry_seconds_absent)
qed

section \<open>The paginated collector\<close>

lemma attempts_server [simp]: "server (snd (attempts as rq w)) = server w"
proof (induction as arbitrary: w)
  case Nil
  then show ?case by simp
next
  case (Cons a as)
  from attempts_cases [of a as rq w] show ?case
  proof (elim disjE exE)
    fix res assume "attempts (a # as) rq w = (res, w\<lparr>sent := sent w @ [rq]\<rparr>)"
    then show ?thesis by simp
  next
    fix d assume "attempts (a # as) rq w = attempts as rq (w\<lparr>sent := sent w @ [rq], slept := slept w @ [d]\<rparr>)"
    then show ?thesis by (simp add: Cons.IH)
  qed
qed

lemma safe_request_server [simp]: "server (snd (safe_request rq w)) = server w"
  by (simp add: safe_request_def)

lemma attempts_fst_sent_indep:
  "server w1 = server w2 \<Longrightarrow> sent w1 = sent w2 \<Longrightarrow>
   fst (attempts as rq w1) = fst (attempts as rq w2)
   \<and> sent (snd (attempts as rq w1)) = sent (snd (attempts as rq w2))"
proof (induction as arbitrary: w1 w2)
  case Nil
  then show ?case by simp
next
  case (Cons a as)
  have go: "fst (attempts as rq (w1\<lparr>sent := s, slept := x\<rparr>)) = fst (attempts as rq (w2\<lparr>sent := s, slept := y\<rparr>))
    \<and> sent (snd (attempts as rq (w1\<lparr>sent := s, slept := x\<rparr>))) = sent (snd (attempts as rq (w2\<lparr>sent := s, slept := y\<rparr>)))" for s x y
    by (rule Cons.IH) (simp_all add: Cons.prems)
  show ?case
  proof (cases "server w2 (sent w2 @ [rq])")
    case RequestException
    then show ?thesis using Cons.prems go by (simp add: attempts.simps(2) Let_def sleep_def)
  next
    case (Response r)
    then show ?thesis using Cons.prems go
      by (simp add: attempts.simps(2) Let_def sleep_def split: option.splits)
  qed
qed

lemma safe_request_returns:
  "server w (sent w @ [rq]) = Response r \<Longrightarrow> \<not> raises_for_status r \<Longrightarrow>
   safe_request rq w = (Inr (Some r), w\<lparr>sent := sent w @ [rq]\<rparr>)"
  unfolding safe_request_def
  by (rule attempts_success) (auto simp: raises_for_status_def)

lemma page_requests_Suc: "j < n \<Longrightarrow> page_requests rq j n = rq (int (j * 50)) # page_requests rq (Suc j) n"
  by (simp add: page_requests_def upt_rec)

lemma page_requests_empty [simp]: "page_requests rq j j = []"
  by (simp add: page_requests_def)

lemma page_requests_append: "page_requests rq j (Suc n) = page_requests rq j n @ [rq (int (n * 50))]" if "j \<le> n"
  using that by (simp add: page_requests_def)

lemma page_loop_full_pages:
  assumes "\<forall>i<length ps. \<exists>r. server w (sent w @ page_requests rq j (j + Suc i)) = Response r
              \<and> carries_page items_of convert r (ps ! i) \<and> length (ps ! i) = 50"
  shows "\<exists>w'. server w' = server w
      \<and> sent w' = sent w @ page_requests rq j (j + min (length ps) (m - j))
      \<and> page_loop rq items_of convert (map (\<lambda>k. int (k * 50)) [j ..< m]) acc w
        = (if m \<le> j + length ps then (Inr (acc @ concat (take (m - j) ps)), w')
           else page_loop rq items_of convert (map (\<lambda>k. int (k * 50)) [j + length ps ..< m])
                  (acc @ concat ps) w')"
  using assms
proof (induction ps arbitrary: j acc w)
  case Nil
  show ?case by (rule exI [of _ w]) simp
next
  case (Cons p ps)
  show ?case
  proof (cases "j < m")
    case False
    then show ?thesis by (intro exI [of _ w]) simp
  next
    case True
    obtain r where r: "server w (sent w @ [rq (int (j * 50))]) = Response r"
      and cp: "carries_page items_of convert r p" and len: "length p = 50"
      using Cons.prems [rule_format, of 0] by (auto simp: page_requests_def)
    let ?w1 = "w\<lparr>sent := sent w @ [rq (int (j * 50))]\<rparr>"
    let ?w2 = "?w1\<lparr>slept := slept ?w1 @ [1 / 10]\<rparr>"
    from cp have nr: "\<not> raises_for_status r" by (simp add: carries_page_def)
    from cp len obtain items where it: "items_of r = Inr items" "truthy items" "convert items = Inr p"
      by (auto simp: carries_page_def split: sum.splits if_splits)
    have step: "page_loop rq items_of convert (map (\<lambda>k. int (k * 50)) [j ..< m]) acc w
        = page_loop rq items_of convert (map (\<lambda>k. int (k * 50)) [Suc j ..< m]) (acc @ p) ?w2"
      using True safe_request_returns [OF r nr] it len
      by (simp add: upt_rec [of j m] sleep_def)
    have "\<forall>i<length ps. \<exists>r. server ?w2 (sent ?w2 @ page_requests rq (Suc j) (Suc j + Suc i)) = Response r
              \<and> carries_page items_of convert r (ps ! i) \<and> length (ps ! i) = 50"
    proof (intro allI impI)
      fix i assume "i < length ps"
      then have "Suc i < length (p # ps)" by simp
      from Cons.prems [rule_format, OF this]
      show "\<exists>r. server ?w2 (sent ?w2 @ page_requests rq (Suc j) (Suc j + Suc i)) = Response r
              \<and> carries_page items_of convert r (ps ! i) \<and> length (ps ! i) = 50"
        by (simp add: page_requests_Suc [of j])
    qed
    from Cons.IH [OF this, of "acc @ p"] obtain w' where w': "server w' = server ?w2"
      "sent w' = sent ?w2 @ page_requests rq (Suc j) (Suc j + min (length ps) (m - Suc j))"
      "page_loop rq items_of convert (map (\<lambda>k. int (k * 50)) [Suc j ..< m]) (acc @ p) ?w2
        = (if m \<le> Suc j + length ps then (Inr ((acc @ p) @ concat (take (m - Suc j) ps)), w')
           else page_loop rq items_of convert (map (\<lambda>k. int (k * 50)) [Suc j + length ps ..< m])
                  ((acc @ p) @ concat ps) w')"
      by blast
    have sent': "sent w' = sent w @ page_requests rq j (j + min (length (p # ps)) (m - j))"
    proof -
      have "j + min (length (p # ps)) (m - j) = Suc j + min (length ps) (m - Suc j)"
        using True by (auto simp: min_def)
      moreover have "j < Suc j + min (length ps) (m - Suc j)" by simp
      ultimately show ?thesis using w'(2) by (simp add: page_requests_Suc [of j])
    qed
    have tk: "take (m - j) (p # ps) = p # take (m - Suc j) ps"
      using True by (simp add: take_Cons' )
    show ?thesis
      by (rule exI [of _ w']) (use w' sent' step tk True in \<open>auto simp: Suc_diff_Suc\<close>)
  qed
qed

lemma serves_full_pagesD:
  assumes "serves_full_pages w rq items_of convert pages"
  shows "\<forall>i<length pages. \<exists>r. server w (sent w @ page_requests rq 0 (0 + Suc i)) = Response r
              \<and> carries_page items_of convert r (pages ! i) \<and> length (pages ! i) = 50"
proof (intro allI impI)
  fix i assume "i < length pages"
  with assms have "serves_page w rq items_of convert i (pages ! i) \<and> length (pages ! i) = 50"
    by (simp add: serves_full_pages_def list_all_iff)
  then show "\<exists>r. server w (sent w @ page_requests rq 0 (0 + Suc i)) = Response r
              \<and> carries_page items_of convert r (pages ! i) \<and> length (pages ! i) = 50"
    by (cases "server w (sent w @ page_requests rq 0 (Suc i))") (simp_all add: serves_page_def)
qed

lemma length_concat_full: "(\<forall>p\<in>set ps. length p = 50) \<Longrightarrow> length (concat ps) = 50 * length ps"
  by (induction ps) auto

lemma py_range_50: "py_range n 50 = map (\<lambda>k. int (k * 50)) [0 ..< (nat n + 49) div 50]"
  by (simp add: py_range_def add.commute)

lemma prefix_of_collected:
  assumes "\<forall>p\<in>set pages. length p = 50" and "(nat n + 49) div 50 \<le> length pages"
  shows "py_prefix n (concat (take ((nat n + 49) div 50) pages)) = take (nat n) (concat pages @ rest)"
proof -
  let ?m = "(nat n + 49) div 50"
  have len: "length (concat (take ?m pages)) = 50 * ?m"
    using assms by (subst length_concat_full) (auto dest: in_set_takeD)
  have le: "nat n \<le> 50 * ?m" by arith
  have "concat pages @ rest = concat (take ?m pages) @ (concat (drop ?m pages) @ rest)"
    by (metis append_assoc append_take_drop_id concat_append)
  then have "take (nat n) (concat pages @ rest) = take (nat n) (concat (take ?m pages))"
    using len le by simp
  moreover have "py_prefix n (concat (take ?m pages)) = take (nat n) (concat (take ?m pages))"
  proof (cases "0 \<le> n")
    case True
    then show ?thesis by (simp add: py_prefix_def)
  next
    case False
    then have "?m = 0" by simp
    then show ?thesis using False by (simp add: py_prefix_def)
  qed
  ultimately show ?thesis by simp
qed

lemma prefix_all:
  assumes "length pages < (nat n + 49) div 50"
  shows "py_prefix n xs = take (nat n) xs"
proof -
  from assms have "0 < n" by (cases "0 < n") auto
  then show ?thesis by (simp add: py_prefix_def)
qed

lemma page_loop_short_page:
  assumes full: "serves_full_pages w rq items_of convert pages"
    and short: "serves_page w rq items_of convert (length pages) p" "length p < 50"
  shows "\<exists>collected w'. page_loop rq items_of convert (py_range n 50) [] w = (Inr collected, w')
      \<and> py_prefix n collected = take (nat n) (concat (pages @ [p]))"
proof -
  let ?m = "(nat n + 49) div 50"
  let ?k = "length pages"
  have all50: "\<forall>p\<in>set pages. length p = 50"
    using serves_full_pagesD [OF full] by (auto simp: in_set_conv_nth)
  from page_loop_full_pages [OF serves_full_pagesD [OF full], of ?m "[]"]
  obtain w' where w': "server w' = server w"
    "sent w' = sent w @ page_requests rq 0 (min ?k ?m)"
    "page_loop rq items_of convert (map (\<lambda>k. int (k * 50)) [0 ..< ?m]) [] w
        = (if ?m \<le> ?k then (Inr (concat (take ?m pages)), w')
           else page_loop rq items_of convert (map (\<lambda>k. int (k * 50)) [?k ..< ?m]) (concat pages) w')"
    by auto
  show ?thesis
  proof (cases "?m \<le> ?k")
    case True
    with w'(3) prefix_of_collected [OF all50 True, of p] show ?thesis
      by (simp add: py_range_50)
  next
    case False
    then have lt: "?k < ?m" by simp
    from short obtain r where r: "server w (sent w @ page_requests rq 0 (Suc ?k)) = Response r"
      and cp: "carries_page items_of convert r p"
      by (auto simp: serves_page_def split: http_outcome.splits)
    have "server w' (sent w' @ [rq (int (?k * 50))]) = Response r"
      using r w' lt by (simp add: page_requests_append min_def)
    moreover from cp have "\<not> raises_for_status r" by (simp add: carries_page_def)
    ultimately have sr: "safe_request (rq (int (?k * 50))) w'
        = (Inr (Some r), w'\<lparr>sent := sent w' @ [rq (int (?k * 50))]\<rparr>)"
      by (rule safe_request_returns)
    have "page_loop rq items_of convert (map (\<lambda>k. int (k * 50)) [?k ..< ?m]) (concat pages) w'
        = (Inr (concat pages @ p), w'\<lparr>sent := sent w' @ [rq (int (?k * 50))]\<rparr>)"
      using lt sr cp short(2)
      by (auto simp: upt_rec [of ?k ?m] carries_page_def split: sum.splits)
    with w'(3) False prefix_all [OF lt, of "concat pages @ p"] show ?thesis
      by (simp add: py_range_50)
  qed
qed

lemma page_loop_no_result:
  assumes full: "serves_full_pages w rq items_of convert pages"
    and none: "no_result_at w rq (length pages)"
  shows "\<exists>collected w'. page_loop rq items_of convert (py_range n 50) [] w = (Inr collected, w')
      \<and> py_prefix n collected = take (nat n) (concat pages)"
proof -
  let ?m = "(nat n + 49) div 50"
  let ?k = "length pages"
  have all50: "\<forall>p\<in>set pages. length p = 50"
    using serves_full_pagesD [OF full] by (auto simp: in_set_conv_nth)
  from page_loop_full_pages [OF serves_full_pagesD [OF full], of ?m "[]"]
  obtain w' where w': "server w' = server w"
    "sent w' = sent w @ page_requests rq 0 (min ?k ?m)"
    "page_loop rq items_of convert (map (\<lambda>k. int (k * 50)) [0 ..< ?m]) [] w
        = (if ?m \<le> ?k then (Inr (concat (take ?m pages)), w')
           else page_loop rq items_of convert (map (\<lambda>k. int (k * 50)) [?k ..< ?m]) (concat pages) w')"
    by auto
  show ?thesis
  proof (cases "?m \<le> ?k")
    case True
    with w'(3) prefix_of_collected [OF all50 True, of "[]"] show ?thesis
      by (simp add: py_range_50)
  next
    case False
    then have lt: "?k < ?m" by simp
    let ?v = "\<lparr>server = server w, sent = sent w @ page_requests rq 0 ?k, slept = []\<rparr>"
    have "fst (safe_request (rq (int (?k * 50))) w') = fst (safe_request (rq (int (?k * 50))) ?v)"
      unfolding safe_request_def
      using attempts_fst_sent_indep [of w' ?v] w' lt by (simp add: min_def)
    with none have "fst (safe_request (rq (int (?k * 50))) w') = Inr None"
      by (simp add: no_result_at_def)
    then obtain w1 where "safe_request (rq (int (?k * 50))) w' = (Inr None, w1)"
      by (cases "safe_request (rq (int (?k * 50))) w'") auto
    then have "page_loop rq items_of convert (map (\<lambda>k. int (k * 50)) [?k ..< ?m]) (concat pages) w'
        = (Inr (concat pages), w1)"
      using lt by (simp add: upt_rec [of ?k ?m])
    with w'(3) False prefix_all [OF lt, of "concat pages"] show ?thesis
      by (simp add: py_range_50)
  qed
qed

text \<open>
  Claim C4, for \<^verbatim>\<open>fetch_genre_tracks\<close> and for \<^verbatim>\<open>get_all_categories\<close> (whose
  elements are the name and id of each item). When the server answers the page requests
  with full pages of 50 and then with a short page, the collector returns all of them,
  one after the other, cut to the first \<open>n\<close> elements when the requested total \<open>n\<close> is
  smaller. When the fetcher instead returns \<^verbatim>\<open>None\<close> after the full pages, the
  collector returns the full pages it has, cut in the same way.
\<close>

theorem paginated_collectors:
  "(serves_full_pages w (search_request token genre market) (nested_items ''tracks'') py_iter pages
      \<and> serves_page w (search_request token genre market) (nested_items ''tracks'') py_iter
            (length pages) p
      \<and> length p < 50 \<longrightarrow>
    fst (fetch_genre_tracks token genre market n w) = Inr (take (nat n) (concat (pages @ [p]))))
   \<and> (serves_full_pages w (search_request token genre market) (nested_items ''tracks'') py_iter pages
      \<and> no_result_at w (search_request token genre market) (length pages) \<longrightarrow>
    fst (fetch_genre_tracks token genre market n w) = Inr (take (nat n) (concat pages)))
   \<and> (serves_full_pages w (categories_request token) (nested_items ''categories'') name_id_pairs cpages
      \<and> serves_page w (categories_request token) (nested_items ''categories'') name_id_pairs
            (length cpages) cp
      \<and> length cp < 50 \<longrightarrow>
    fst (get_all_categories token n w) = Inr (take (nat n) (concat (cpages @ [cp]))))
   \<and> (serves_full_pages w (categories_request token) (nested_items ''categories'') name_id_pairs cpages
      \<and> no_result_at w (categories_request token) (length cpages) \<longrightarrow>
    fst (get_all_categories token n w) = Inr (take (nat n) (concat cpages)))"
proof (intro conjI impI)
  assume "serves_full_pages w (search_request token genre market) (nested_items ''tracks'') py_iter pages
      \<and> serves_page w (search_request token genre market) (nested_items ''tracks'') py_iter
            (length pages) p
      \<and> length p < 50"
  then show "fst (fetch_genre_tracks token genre market n w) = Inr (take (nat n) (concat (pages @ [p])))"
    using page_loop_short_page [of w "search_request token genre market" "nested_items ''tracks''"
        py_iter pages p n]
    by (auto simp: fetch_genre_tracks_def)
next
  assume "serves_full_pages w (search_request token genre market) (nested_items ''tracks'') py_iter pages
      \<and> no_result_at w (search_request token genre market) (length pages)"
  then show "fst (fetch_genre_tracks token genre market n w) = Inr (take (nat n) (concat pages))"
    using page_loop_no_result [of w "search_request token genre market" "nested_items ''tracks''"
        py_iter pages n]
    by (auto simp: fetch_genre_tracks_def)
next
  assume "serves_full_pages w (categories_request token) (nested_items ''categories'') name_id_pairs cpages
      \<and> serves_page w (categories_request token) (nested_items ''categories'') name_id_pairs
            (length cpages) cp
      \<and> length cp < 50"
  then show "fst (get_all_categories token n w) = Inr (take (nat n) (concat (cpages @ [cp])))"
    using page_loop_short_page [of w "categories_request token" "nested_items ''categories''"
        name_id_pairs cpages cp n]
    by (auto simp: get_all_categories_def)
next
  assume "serves_full_pages w (categories_request token) (nested_items ''categories'') name_id_pairs cpages
      \<and> no_result_at w (categories_request token) (length cpages)"
  then show "fst (get_all_categories token n w) = Inr (take (nat n) (concat cpages))"
    using page_loop_no_result [of w "categories_request token" "nested_items ''categories''"
        name_id_pairs cpages n]
    by (auto simp: get_all_categories_def)
qed

lemma carries_tracks_page:
  "carries_page (nested_items ''tracks'') py_iter (http_response 200 None (Some (tracks_body p))) p"
  by (simp add: carries_page_def nested_items_def resp_json_def tracks_body_def
      raises_for_status_def)

lemma safe_request_not_found:
  "server w (sent w @ [rq]) = Response (http_response 404 None b) \<Longrightarrow>
   fst (safe_request rq w) = Inr None"
  unfolding safe_request_def
  by (subst attempts_client_error [of _ _ "http_response 404 None b"]) simp_all

theorem paginated_collectors_witness:
  "fst (fetch_genre_tracks (JStr ''t'') (JStr ''Pop'') JNull 200
         (scripted [ok_response (tracks_body (replicate 50 (JObj [(''id'', JInt 1)]))),
                    ok_response (tracks_body [JObj [(''id'', JInt 2)]])]))
   = Inr (replicate 50 (JObj [(''id'', JInt 1)]) @ [JObj [(''id'', JInt 2)]])
   \<and> fst (fetch_genre_tracks (JStr ''t'') (JStr ''Pop'') JNull 200
         (scripted [ok_response (tracks_body (replicate 50 (JObj [(''id'', JInt 1)]))),
                    Response (http_response 404 None None)]))
     = Inr (replicate 50 (JObj [(''id'', JInt 1)]))
   \<and> fst (get_all_categories (JStr ''t'') 200
         (scripted [ok_response (categories_body [category ''Pop'' ''pop''])]))
     = Inr [(JStr ''Pop'', JStr ''pop'')]
   \<and> fst (get_all_categories (JStr ''t'') 200 (scripted [Response (http_response 404 None None)]))
     = Inr []"
proof (intro conjI)
  let ?x = "JObj [(''id'', JInt 1)]" and ?y = "JObj [(''id'', JInt 2)]"
  let ?w = "scripted [ok_response (tracks_body (replicate 50 ?x)), ok_response (tracks_body [?y])]"
  have "fst (fetch_genre_tracks (JStr ''t'') (JStr ''Pop'') JNull 200 ?w)
      = Inr (take (nat 200) (concat ([replicate 50 ?x] @ [[?y]])))"
    by (rule paginated_collectors [of ?w "JStr ''t''" "JStr ''Pop''" JNull "[replicate 50 ?x]" "[?y]" 200,
          THEN conjunct1, rule_format])
      (simp add: serves_full_pages_def serves_page_def scripted_def page_requests_def ok_response_def
        carries_tracks_page)
  then show "fst (fetch_genre_tracks (JStr ''t'') (JStr ''Pop'') JNull 200 ?w)
      = Inr (replicate 50 ?x @ [?y])"
    by simp
next
  let ?x = "JObj [(''id'', JInt 1)]"
  let ?w = "scripted [ok_response (tracks_body (replicate 50 ?x)), Response (http_response 404 None None)]"
  have "fst (fetch_genre_tracks (JStr ''t'') (JStr ''Pop'') JNull 200 ?w)
      = Inr (take (nat 200) (concat [replicate 50 ?x]))"
    by (rule paginated_collectors [of ?w "JStr ''t''" "JStr ''Pop''" JNull "[replicate 50 ?x]" _ 200,
          THEN conjunct2, THEN conjunct1, rule_format])
      (simp add: serves_full_pages_def serves_page_def no_result_at_def scripted_def page_requests_def
        ok_response_def carries_tracks_page safe_request_not_found)
  then show "fst (fetch_genre_tracks (JStr ''t'') (JStr ''Pop'') JNull 200 ?w)
      = Inr (replicate 50 ?x)"
    by simp
next
  let ?w = "scripted [ok_response (categories_body [category ''Pop'' ''pop''])]"
  have "fst (get_all_categories (JStr ''t'') 200 ?w)
      = Inr (take (nat 200) (concat ([] @ [[(JStr ''Pop'', JStr ''pop'')]])))"
    by (rule paginated_collectors [where w = ?w and token = "JStr ''t''" and n = 200 and cpages = "[]"
            and cp = "[(JStr ''Pop'', JStr ''pop'')]",
          THEN conjunct2, THEN conjunct2, THEN conjunct1, rule_format])
      (simp add: serves_full_pages_def serves_page_def scripted_def page_requests_def ok_response_def
        carries_page_def nested_items_def resp_json_def categories_body_def category_def
        raises_for_status_def name_id_pairs_def)
  then show "fst (get_all_categories (JStr ''t'') 200 ?w) = Inr [(JStr ''Pop'', JStr ''pop'')]"
    by simp
next
  let ?w = "scripted [Response (http_response 404 None None)]"
  have "fst (get_all_categories (JStr ''t'') 200 ?w) = Inr (take (nat 200) (concat []))"
    by (rule paginated_collectors [where w = ?w and token = "JStr ''t''" and n = 200 and cpages = "[]",
          THEN conjunct2, THEN conjunct2, THEN conjunct2, rule_format])
      (simp add: serves_full_pages_def no_result_at_def scripted_def page_requests_def
        safe_request_not_found)
  then show "fst (get_all_categories (JStr ''t'') 200 ?w) = Inr []"
    by simp
qed

section \<open>The aggregator\<close>

lemma removeAll_first_seen_mid:
  "removeAll x (first_seen (us @ x # zs)) = removeAll x (first_seen (us @ zs))"
proof (induction us)
  case Nil
  then show ?case by simp
next
  case (Cons u us)
  have "removeAll x (removeAll u (first_seen (us @ x # zs)))
      = removeAll u (removeAll x (first_seen (us @ x # zs)))"
    by (simp add: removeAll_filter_not_eq conj_commute)
  also have "\<dots> = removeAll u (removeAll x (first_seen (us @ zs)))"
    by (simp add: Cons.IH)
  also have "\<dots> = removeAll x (removeAll u (first_seen (us @ zs)))"
    by (simp add: removeAll_filter_not_eq conj_commute)
  finally show ?case using Cons.IH by auto
qed

lemma first_seen_again:
  "x \<in> set ys \<Longrightarrow> first_seen (ys @ x # zs) = first_seen (ys @ zs)"
proof (induction ys)
  case Nil
  then show ?case by simp
next
  case (Cons y ys)
  show ?case
  proof (cases "y = x")
    case True
    then show ?thesis using removeAll_first_seen_mid [of x ys zs] by simp
  next
    case False
    with Cons show ?thesis by simp
  qed
qed

lemma set_first_seen [simp]: "set (first_seen xs) = set xs"
  by (induction xs) auto

lemma distinct_first_seen [simp]: "distinct (first_seen xs)"
  by (induction xs) (auto simp: distinct_removeAll)

lemma first_seen_distinct: "distinct xs \<Longrightarrow> first_seen xs = xs"
  by (induction xs) auto

lemma map_fst_dict_put:
  "map fst (dict_put k v d) = (if k \<in> set (map fst d) then map fst d else map fst d @ [k])"
  by (induction d) auto

lemma map_of_dict_put: "map_of (dict_put k v d) = (map_of d)(k \<mapsto> v)"
  by (induction d) (auto simp: fun_eq_iff)

lemma distinct_dict_put: "distinct (map fst d) \<Longrightarrow> distinct (map fst (dict_put k v d))"
  by (simp add: map_fst_dict_put)

lemma artist_scores_credits:
  "artist_scores (map track_json ts) d = Inr (credit_all (credited ts) d)"
proof (induction ts arbitrary: d)
  case Nil
  then show ?case by (simp add: credited_def)
next
  case (Cons t ts)
  show ?case
  proof (cases "fst t")
    case Nil
    then show ?thesis using Cons.IH [of d] by (simp add: track_json_def credited_def)
  next
    case (Cons a others)
    then show ?thesis
      using Cons.IH [of "dict_put (JStr a) ((case map_of d (JStr a) of None \<Rightarrow> 0 | Some s \<Rightarrow> s) + snd t) d"]
      by (simp add: track_json_def credited_def)
  qed
qed

lemma credit_all_keys:
  "distinct (map fst d) \<Longrightarrow> map fst (credit_all cs d) = first_seen (map fst d @ map fst cs)"
proof (induction cs arbitrary: d)
  case Nil
  then show ?case by (simp add: first_seen_distinct)
next
  case (Cons c cs)
  let ?d = "dict_put (fst c) ((case map_of d (fst c) of None \<Rightarrow> 0 | Some s \<Rightarrow> s) + snd c) d"
  have "map fst (credit_all (c # cs) d) = first_seen (map fst ?d @ map fst cs)"
    using Cons.IH [of ?d] Cons.prems by (simp add: distinct_dict_put)
  also have "\<dots> = first_seen (map fst d @ map fst (c # cs))"
    by (auto simp: map_fst_dict_put first_seen_again)
  finally show ?case .
qed

lemma credit_all_scores:
  "map_of (credit_all cs d) k =
     (if k \<in> set (map fst d) \<union> set (map fst cs)
      then Some ((case map_of d k of None \<Rightarrow> 0 | Some s \<Rightarrow> s) + total_of cs k) else None)"
proof (induction cs arbitrary: d)
  case Nil
  then show ?case
    by (auto simp: total_of_def map_of_eq_None_iff [symmetric] simp del: map_of_eq_None_iff
        split: option.splits)
next
  case (Cons c cs)
  show ?case
    by (simp add: Cons.IH map_of_dict_put map_fst_dict_put total_of_def split: option.splits)
qed

lemma dict_as_map:
  "distinct (map fst d) \<Longrightarrow> d = map (\<lambda>k. (k, the (map_of d k))) (map fst d)"
proof (induction d)
  case Nil
  then show ?case by simp
next
  case (Cons kv d)
  from Cons.prems
  have "map (\<lambda>k. (k, the (map_of (kv # d) k))) (map fst d) = map (\<lambda>k. (k, the (map_of d k))) (map fst d)"
    by (intro map_cong) (auto simp: image_iff)
  with Cons show ?case by simp
qed

lemma artist_scores_totals:
  "artist_scores (map track_json ts) [] = Inr (artist_totals ts)"
proof -
  let ?r = "credit_all (credited ts) []"
  have keys: "map fst ?r = first_seen (map fst (credited ts))"
    using credit_all_keys [of "[]" "credited ts"] by simp
  then have "distinct (map fst ?r)" by simp
  from dict_as_map [OF this] have "?r = map (\<lambda>k. (k, the (map_of ?r k))) (first_seen (map fst (credited ts)))"
    using keys by simp
  also have "\<dots> = artist_totals ts"
    unfolding artist_totals_def
    by (intro map_cong) (auto simp: credit_all_scores)
  finally show ?thesis by (simp add: artist_scores_credits)
qed

lemma sorted_by_score_descending: "sorted_wrt (\<lambda>x y. snd y \<le> snd x) (sorted_by_score xs)"
proof -
  have "sorted (map (\<lambda>x. - snd x) (sorted_by_score xs))"
    unfolding sorted_by_score_def by (rule sorted_sort_key)
  then show ?thesis by (simp add: sorted_map)
qed

lemma sorted_by_score_stable:
  "filter (\<lambda>x. snd x = s) (sorted_by_score xs) = filter (\<lambda>x. snd x = s) xs"
  using sort_key_stable [of "\<lambda>x. - snd x" "- s" xs] by (simp add: sorted_by_score_def)

lemma mset_sorted_by_score: "mset (sorted_by_score xs) = mset xs"
  by (simp add: sorted_by_score_def)

text \<open>
  Claim C5. For tracks of the data model's shape, \<^verbatim>\<open>fetch_top_artists_for_genre\<close>
  turns the tracks it fetched into the slice \<^verbatim>\<open>[:top_n]\<close> of a list that holds
  exactly the per-artist totals (each track credited to its first artist, tracks with
  no artist skipped), in descending order of the total, where artists of equal total
  stand in the order of their first appearance. The three tracks of the
  specification's example give A with 30 before B with 5.
\<close>

theorem artist_ranking:
  "(fetch_genre_tracks token genre market total_tracks w = (Inr (map track_json ts), w1) \<longrightarrow>
      fetch_top_artists_for_genre token genre market total_tracks top_n w
      = (Inr (py_prefix top_n (sorted_by_score (artist_totals ts))), w1))
   \<and> rank_artists (map track_json ts) top_n = Inr (py_prefix top_n (sorted_by_score (artist_totals ts)))
   \<and> mset (sorted_by_score (artist_totals ts)) = mset (artist_totals ts)
   \<and> sorted_wrt (\<lambda>x y. snd y \<le> snd x) (sorted_by_score (artist_totals ts))
   \<and> (\<forall>s. filter (\<lambda>x. snd x = s) (sorted_by_score (artist_totals ts))
          = filter (\<lambda>x. snd x = s) (artist_totals ts))
   \<and> rank_artists (map track_json [([''A''], 10), ([''A''], 20), ([''B''], 5)]) 5
     = Inr [(JStr ''A'', 30), (JStr ''B'', 5)]"
proof -
  have ex: "sorted_by_score (artist_totals [([''A''], 10), ([''A''], 20), ([''B''], 5)])
      = [(JStr ''A'', 30), (JStr ''B'', 5)]"
    by (simp add: artist_totals_def credited_def total_of_def sorted_by_score_def)
  have "rank_artists (map track_json us) k = Inr (py_prefix k (sorted_by_score (artist_totals us)))" for us k
    by (simp add: rank_artists_def artist_scores_totals)
  with ex show ?thesis
    by (simp add: sorted_by_score_descending sorted_by_score_stable mset_sorted_by_score py_prefix_def
        fetch_top_artists_for_genre_def del: map_map list.map)
qed

lemma nested_items_tracks_body [simp]:
  "nested_items ''tracks'' (http_response st ra (Some (tracks_body items))) = Inr (JArr items)"
  by (simp add: nested_items_def resp_json_def tracks_body_def)

theorem artist_ranking_witness:
  "fetch_top_artists_for_genre (JStr ''t'') (JStr ''Pop'') (JStr ''US'') 50 2
     (scripted [ok_response (tracks_body
        (map track_json [([''A''], 10), ([''A'', ''C''], 20), ([], 40), ([''B''], 5)]))])
   = (Inr [(JStr ''A'', 30), (JStr ''B'', 5)],
      \<lparr>server = server (scripted [ok_response (tracks_body
          (map track_json [([''A''], 10), ([''A'', ''C''], 20), ([], 40), ([''B''], 5)]))]),
       sent = [search_request (JStr ''t'') (JStr ''Pop'') (JStr ''US'') 0], slept = []\<rparr>)"
proof -
  let ?ts = "[([''A''], 10), ([''A'', ''C''], 20), ([], 40), ([''B''], 5)] :: track list"
  let ?w = "scripted [ok_response (tracks_body (map track_json ?ts))]"
  let ?w1 = "\<lparr>server = server ?w, sent = [search_request (JStr ''t'') (JStr ''Pop'') (JStr ''US'') 0],
      slept = []\<rparr>"
  have sr: "safe_request (search_request (JStr ''t'') (JStr ''Pop'') (JStr ''US'') 0) ?w
      = (Inr (Some (http_response 200 None (Some (tracks_body (map track_json ?ts))))), ?w1)"
    by (subst safe_request_returns [of _ _ "http_response 200 None (Some (tracks_body (map track_json ?ts)))"])
      (simp_all add: scripted_def ok_response_def raises_for_status_def)
  have fetch: "fetch_genre_tracks (JStr ''t'') (JStr ''Pop'') (JStr ''US'') 50 ?w
      = (Inr (map track_json ?ts), ?w1)"
    using sr by (simp add: fetch_genre_tracks_def py_range_def py_prefix_def)
  have "sorted_by_score (artist_totals ?ts) = [(JStr ''A'', 30), (JStr ''B'', 5)]"
    by (simp add: artist_totals_def credited_def total_of_def sorted_by_score_def)
  with artist_ranking [of "JStr ''t''" "JStr ''Pop''" "JStr ''US''" 50 ?w ?ts ?w1 2, THEN conjunct1] fetch
  show ?thesis by (simp add: py_prefix_def del: list.map)
qed

section \<open>The markets fetch\<close>

lemma length_py_prefix: "0 \<le> n \<Longrightarrow> int (length (py_prefix n xs)) \<le> n"
  by (simp add: py_prefix_def)

lemma get_markets_sent:
  "\<exists>k\<le>3. sent (snd (get_markets cfg token w)) = sent w @ replicate k (markets_request cfg token)"
proof -
  have "sent (snd (get_markets cfg token w)) = sent (snd (safe_request (markets_request cfg token) w))"
    by (simp add: get_markets_def split: prod.splits sum.splits option.splits)
  then show ?thesis using safe_request_at_most_three [of "markets_request cfg token" w] by simp
qed

text \<open>
  Claim C9, as the code has it. \<^verbatim>\<open>get_markets\<close> calls the fetcher once: every request
  it sends is the same request, with the one parameter \<^verbatim>\<open>limit\<close> and no offset, and
  there are at most three of them (the fetcher's attempts). It returns the slice
  \<^verbatim>\<open>[:MARKETS_LIMIT]\<close> of the markets of that one response, which has at most
  \<^verbatim>\<open>MARKETS_LIMIT\<close> elements when the limit is not negative, and the empty list when
  the fetcher returns \<^verbatim>\<open>None\<close>.
\<close>

theorem get_markets_single_call:
  "(\<exists>k\<le>3. sent (snd (get_markets cfg token w)) = sent w @ replicate k (markets_request cfg token))
   \<and> params (markets_request cfg token) = [(''limit'', PInt (markets_limit cfg))]
   \<and> (safe_request (markets_request cfg token) w = (Inr (Some r), w1)
        \<and> body r = Some (JObj kvs) \<and> map_of kvs ''markets'' = Some (JArr ms) \<longrightarrow>
      get_markets cfg token w = (Inr (JArr (py_prefix (markets_limit cfg) ms)), w1))
   \<and> (0 \<le> markets_limit cfg \<longrightarrow> int (length (py_prefix (markets_limit cfg) ms)) \<le> markets_limit cfg)
   \<and> (safe_request (markets_request cfg token) w = (Inr None, w1) \<longrightarrow>
      get_markets cfg token w = (Inr (JArr []), w1))"
  using get_markets_sent [of cfg token w]
  by (simp add: length_py_prefix markets_request_def get_markets_def resp_json_def)

lemma safe_request_scripted_first:
  "\<not> raises_for_status r \<Longrightarrow>
   safe_request rq (scripted (Response r # outs))
   = (Inr (Some r), \<lparr>server = server (scripted (Response r # outs)), sent = [rq], slept = []\<rparr>)"
  by (subst safe_request_returns [of _ _ r]) (simp_all add: scripted_def)

theorem get_markets_single_call_witness:
  "get_markets example_config (JStr ''t'')
     (scripted [ok_response (markets_body (map JStr [''US'', ''GB'', ''DE'', ''FR'', ''ES'', ''IT'', ''SE'', ''NO'', ''JP'', ''BR'', ''MX'']))])
   = (Inr (JArr (map JStr [''US'', ''GB'', ''DE'', ''FR'', ''ES'', ''IT'', ''SE'', ''NO'', ''JP'', ''BR''])),
      \<lparr>server = server (scripted [ok_response (markets_body (map JStr [''US'', ''GB'', ''DE'', ''FR'', ''ES'', ''IT'', ''SE'', ''NO'', ''JP'', ''BR'', ''MX'']))]),
       sent = [markets_request example_config (JStr ''t'')], slept = []\<rparr>)
   \<and> int (length (py_prefix (markets_limit example_config) (map JStr [''US'', ''GB'', ''DE'', ''FR'', ''ES'', ''IT'', ''SE'', ''NO'', ''JP'', ''BR'', ''MX'']))) \<le> 10
   \<and> fst (get_markets example_config (JStr ''t'') (scripted [Response (http_response 404 None None)]))
     = Inr (JArr [])"
proof (intro conjI)
  let ?ms = "map JStr [''US'', ''GB'', ''DE'', ''FR'', ''ES'', ''IT'', ''SE'', ''NO'', ''JP'', ''BR'', ''MX'']"
  let ?r = "http_response 200 None (Some (markets_body ?ms))"
  let ?w = "scripted [ok_response (markets_body ?ms)]"
  let ?w1 = "\<lparr>server = server ?w, sent = [markets_request example_config (JStr ''t'')], slept = []\<rparr>"
  have "safe_request (markets_request example_config (JStr ''t'')) ?w = (Inr (Some ?r), ?w1)"
    unfolding ok_response_def by (rule safe_request_scripted_first) (simp add: raises_for_status_def)
  with get_markets_single_call [of example_config "JStr ''t''" ?w ?r ?w1 "[(''markets'', JArr ?ms)]" ?ms]
  have "get_markets example_config (JStr ''t'') ?w
      = (Inr (JArr (py_prefix (markets_limit example_config) ?ms)), ?w1)"
    by (simp add: markets_body_def)
  then show "get_markets example_config (JStr ''t'') ?w
      = (Inr (JArr (map JStr [''US'', ''GB'', ''DE'', ''FR'', ''ES'', ''IT'', ''SE'', ''NO'', ''JP'', ''BR''])), ?w1)"
    by (simp add: example_config_def py_prefix_def)
next
  let ?ms = "map JStr [''US'', ''GB'', ''DE'', ''FR'', ''ES'', ''IT'', ''SE'', ''NO'', ''JP'', ''BR'', ''MX'']"
  show "int (length (py_prefix (markets_limit example_config) ?ms)) \<le> 10"
    using get_markets_single_call [of example_config _ _ _ _ _ ?ms]
    by (simp add: example_config_def)
next
  let ?w = "scripted [Response (http_response 404 None None)]"
  obtain w1 where "safe_request (markets_request example_config (JStr ''t'')) ?w = (Inr None, w1)"
    using safe_request_not_found [of ?w "markets_request example_config (JStr ''t'')" None]
    by (cases "safe_request (markets_request example_config (JStr ''t'')) ?w") (auto simp: scripted_def)
  with get_markets_single_call [of example_config "JStr ''t''" ?w _ w1]
  show "fst (get_markets example_config (JStr ''t'') ?w) = Inr (JArr [])"
    by simp
qed

text \<open>
  Claim C9 as stated fails: asked for up to 60 markets and given 50 in the first
  response, where a collector with pages of 50 would go on to offset 50,
  \<^verbatim>\<open>get_markets\<close> sends one request, with no offset, and returns those 50.
\<close>

theorem get_markets_counterexample:
  "get_markets (example_config\<lparr>markets_limit := 60\<rparr>) (JStr ''t'')
     (scripted [ok_response (markets_body (replicate 50 (JStr ''US''))),
                ok_response (markets_body (replicate 10 (JStr ''GB'')))])
   = (Inr (JArr (replicate 50 (JStr ''US''))),
      \<lparr>server = server (scripted [ok_response (markets_body (replicate 50 (JStr ''US''))),
                                  ok_response (markets_body (replicate 10 (JStr ''GB'')))]),
       sent = [\<lparr>rmethod = ''GET'', url = ''https://api.spotify.com/v1/markets'',
                bearer = Some (JStr ''t''), params = [(''limit'', PInt 60)], form = [],
                auth = None\<rparr>],
       slept = []\<rparr>)"
proof -
  let ?cfg = "example_config\<lparr>markets_limit := 60\<rparr>"
  let ?r = "http_response 200 None (Some (markets_body (replicate 50 (JStr ''US''))))"
  let ?w = "scripted [ok_response (markets_body (replicate 50 (JStr ''US''))),
                ok_response (markets_body (replicate 10 (JStr ''GB'')))]"
  have "safe_request (markets_request ?cfg (JStr ''t'')) ?w
      = (Inr (Some ?r), \<lparr>server = server ?w, sent = [markets_request ?cfg (JStr ''t'')], slept = []\<rparr>)"
    unfolding ok_response_def by (rule safe_request_scripted_first) (simp add: raises_for_status_def)
  then show ?thesis
    by (simp add: get_markets_def resp_json_def markets_body_def py_prefix_def)
      (simp add: markets_request_def example_config_def)
qed

section \<open>The snapshot builder\<close>

lemma set_dict_put: "set (dict_put k v d) \<subseteq> insert (k, v) (set d)"
  by (induction d) auto

lemma map_of_dict_put_same: "map_of (dict_put k v d) k = Some v"
  by (simp add: map_of_dict_put)

lemma rank_artists_length:
  "rank_artists tracks top_n = Inr ranking \<Longrightarrow> 0 \<le> top_n \<Longrightarrow> int (length ranking) \<le> top_n"
  by (auto simp: rank_artists_def length_py_prefix split: sum.splits)

lemma fetch_top_artists_length:
  "fetch_top_artists_for_genre token genre market total_tracks top_n w = (Inr ranking, w') \<Longrightarrow>
   0 \<le> top_n \<Longrightarrow> int (length ranking) \<le> top_n"
  by (auto simp: fetch_top_artists_for_genre_def split: prod.splits sum.splits
      dest: rank_artists_length)

text \<open>One round of the genre loop that does not raise: what it adds to the two dicts.\<close>

lemma genre_loop_step:
  assumes "genre_loop cfg token market (genre # rest) acc w = (Inr acc', w')"
  shows "\<exists>score ranking w3.
     genre_loop cfg token market rest (dict_put genre score (fst acc), dict_put genre ranking (snd acc)) w3
     = (Inr acc', w')
     \<and> (0 \<le> top_n_artists cfg \<longrightarrow> int (length ranking) \<le> top_n_artists cfg)"
proof -
  obtain r1 w1 where f1: "fetch_genre_tracks token genre market (tracks_per_genre cfg) w = (r1, w1)"
    by (cases "fetch_genre_tracks token genre market (tracks_per_genre cfg) w")
  with assms obtain tracks where t: "r1 = Inr tracks" by (cases r1) auto
  from assms f1 t obtain score where sc: "popularity_sum tracks 0 = Inr score"
    by (cases "popularity_sum tracks 0") auto
  from assms f1 t sc have h: "hashable genre"
    by (auto simp: dict_set_def split: if_splits)
  obtain r2 w2 where f2: "fetch_top_artists_for_genre token genre market (tracks_per_genre cfg)
      (top_n_artists cfg) w1 = (r2, w2)"
    by (cases "fetch_top_artists_for_genre token genre market (tracks_per_genre cfg)
      (top_n_artists cfg) w1")
  with assms f1 t sc h obtain ranking where rk: "r2 = Inr ranking"
    by (cases r2) (auto simp: dict_set_def)
  from assms f1 t sc h f2 rk
  have "genre_loop cfg token market rest
      (dict_put genre score (fst acc), dict_put genre ranking (snd acc)) (w2\<lparr>slept := slept w2 @ [2 / 10]\<rparr>)
     = (Inr acc', w')"
    by (simp add: dict_set_def sleep_def)
  moreover have "0 \<le> top_n_artists cfg \<longrightarrow> int (length ranking) \<le> top_n_artists cfg"
    using f2 rk fetch_top_artists_length by blast
  ultimately show ?thesis by blast
qed

lemma keys_dict_put: "fst ` set (dict_put k v d) = insert k (fst ` set d)"
  using arg_cong [OF map_fst_dict_put [of k v d], of set] by auto

lemma genre_loop_keys:
  assumes "genre_loop cfg token market genres acc w = (Inr acc', w')"
    and "map fst (fst acc) = map fst (snd acc)"
  shows "map fst (fst acc') = map fst (snd acc')
    \<and> fst ` set (fst acc') = fst ` set (fst acc) \<union> set genres"
  using assms
proof (induction genres arbitrary: acc w)
  case Nil
  then show ?case by simp
next
  case (Cons genre rest)
  from genre_loop_step [OF Cons.prems(1)] obtain score ranking w3 where
    rest: "genre_loop cfg token market rest
        (dict_put genre score (fst acc), dict_put genre ranking (snd acc)) w3 = (Inr acc', w')"
    by blast
  have "genre \<in> set (map fst (fst acc)) \<longleftrightarrow> genre \<in> set (map fst (snd acc))"
    by (simp only: Cons.prems(2))
  then have e: "map fst (dict_put genre score (fst acc)) = map fst (dict_put genre ranking (snd acc))"
    unfolding map_fst_dict_put using Cons.prems(2) by simp
  have "map fst (fst acc') = map fst (snd acc')
    \<and> fst ` set (fst acc') = fst ` set (dict_put genre score (fst acc)) \<union> set rest"
    using Cons.IH [OF rest] e by simp
  then show ?case by (auto simp: keys_dict_put)
qed

lemma genre_loop_lengths:
  assumes "genre_loop cfg token market genres acc w = (Inr acc', w')"
    and "0 \<le> top_n_artists cfg"
    and "\<forall>kv\<in>set (snd acc). int (length (snd kv)) \<le> top_n_artists cfg"
  shows "\<forall>kv\<in>set (snd acc'). int (length (snd kv)) \<le> top_n_artists cfg"
  using assms
proof (induction genres arbitrary: acc w)
  case Nil
  then show ?case by simp
next
  case (Cons genre rest)
  from genre_loop_step [OF Cons.prems(1)] obtain score ranking w3 where
    rest: "genre_loop cfg token market rest
        (dict_put genre score (fst acc), dict_put genre ranking (snd acc)) w3 = (Inr acc', w')"
    and len: "0 \<le> top_n_artists cfg \<longrightarrow> int (length ranking) \<le> top_n_artists cfg"
    by blast
  have "\<forall>kv\<in>set (dict_put genre ranking (snd acc)). int (length (snd kv)) \<le> top_n_artists cfg"
    using set_dict_put [of genre ranking "snd acc"] len Cons.prems(2,3) by auto
  with Cons.IH [OF rest Cons.prems(2)] show ?case by simp
qed

lemma market_loop_keys:
  assumes "market_loop cfg token genres ms acc w = (Inr acc', w')"
    and "map fst (fst acc) = map fst (snd acc)"
    and "list_all (complete_scores genres) (fst acc)"
    and "list_all (complete_artists cfg genres) (snd acc)"
  shows "map fst (fst acc') = map fst (snd acc')
    \<and> fst ` set (fst acc') = fst ` set (fst acc) \<union> set ms
    \<and> list_all (complete_scores genres) (fst acc')
    \<and> list_all (complete_artists cfg genres) (snd acc')"
  using assms
proof (induction ms arbitrary: acc w)
  case Nil
  then show ?case by simp
next
  case (Cons market rest)
  obtain r1 w1 where g: "genre_loop cfg token market genres ([], []) w = (r1, w1)"
    by (cases "genre_loop cfg token market genres ([], []) w")
  with Cons.prems(1) obtain cs ca where r1: "r1 = Inr (cs, ca)"
    by (cases r1) auto
  from Cons.prems(1) g r1 have h: "hashable market"
    by (auto simp: dict_set_def split: if_splits)
  from Cons.prems(1) g r1 h
  have rest: "market_loop cfg token genres rest (dict_put market cs (fst acc), dict_put market ca (snd acc)) w1
        = (Inr acc', w')"
    by (simp add: dict_set_def)
  from g r1 have gl: "genre_loop cfg token market genres ([], []) w = (Inr (cs, ca), w1)" by simp
  from genre_loop_keys [OF gl] have k1: "map fst cs = map fst ca" and k2: "fst ` set cs = set genres"
    by simp_all
  have "fst ` set ca = set (map fst ca)" by simp
  also have "\<dots> = set (map fst cs)" by (simp only: k1)
  also have "\<dots> = set genres" using k2 by simp
  finally have k3: "fst ` set ca = set genres" .
  have lens: "0 \<le> top_n_artists cfg \<Longrightarrow> \<forall>kv\<in>set ca. int (length (snd kv)) \<le> top_n_artists cfg"
    using genre_loop_lengths [OF gl] by simp
  have c1: "complete_scores genres (market, cs)"
    using k2 by (simp add: complete_scores_def)
  have c2: "complete_artists cfg genres (market, ca)"
    using k3 lens by (fastforce simp: complete_artists_def list_all_iff)
  have a1: "list_all (complete_scores genres) (dict_put market cs (fst acc))"
    using set_dict_put [of market cs "fst acc"] c1 Cons.prems(3) by (auto simp: list_all_iff)
  have a2: "list_all (complete_artists cfg genres) (dict_put market ca (snd acc))"
    using set_dict_put [of market ca "snd acc"] c2 Cons.prems(4) by (auto simp: list_all_iff)
  have "market \<in> set (map fst (fst acc)) \<longleftrightarrow> market \<in> set (map fst (snd acc))"
    by (simp only: Cons.prems(2))
  then have e: "map fst (dict_put market cs (fst acc)) = map fst (dict_put market ca (snd acc))"
    unfolding map_fst_dict_put using Cons.prems(2) by simp
  have "map fst (fst acc') = map fst (snd acc')
    \<and> fst ` set (fst acc') = fst ` set (dict_put market cs (fst acc)) \<union> set rest
    \<and> list_all (complete_scores genres) (fst acc')
    \<and> list_all (complete_artists cfg genres) (snd acc')"
    using Cons.IH [OF rest] e a1 a2 by simp
  then show ?case by (auto simp: keys_dict_put)
qed

lemma main_written:
  assumes "main cfg w = (Inr (Some s), w')"
  shows "\<exists>token w1 cats w2 gs w3 markets w4 ms.
      get_token cfg w = (Inr token, w1) \<and> truthy token
      \<and> get_all_categories token (genres_limit cfg) w1 = (Inr cats, w2)
      \<and> global_scores_loop cfg token cats [] w2 = (Inr gs, w3)
      \<and> get_markets cfg token w3 = (Inr markets, w4) \<and> truthy markets \<and> py_iter markets = Inr ms
      \<and> market_loop cfg token (select_top_genres cfg gs) ms ([], []) w4
          = (Inr (country_genre_popularity s, top_artists s), w')
      \<and> top_genres s = select_top_genres cfg gs"
proof -
  obtain r1 w1 where s1: "get_token cfg w = (r1, w1)" by (cases "get_token cfg w")
  with assms obtain token where t: "r1 = Inr token" and tt: "truthy token"
    by (cases r1) (auto simp: main_def split: if_splits)
  obtain r2 w2 where s2: "get_all_categories token (genres_limit cfg) w1 = (r2, w2)"
    by (cases "get_all_categories token (genres_limit cfg) w1")
  with assms s1 t tt obtain cats where c: "r2 = Inr cats"
    by (cases r2) (auto simp: main_def)
  obtain r3 w3 where s3: "global_scores_loop cfg token cats [] w2 = (r3, w3)"
    by (cases "global_scores_loop cfg token cats [] w2")
  with assms s1 t tt s2 c obtain gs where g: "r3 = Inr gs"
    by (cases r3) (auto simp: main_def)
  obtain r4 w4 where s4: "get_markets cfg token w3 = (r4, w4)"
    by (cases "get_markets cfg token w3")
  with assms s1 t tt s2 c s3 g obtain markets where m: "r4 = Inr markets" and mt: "truthy markets"
    by (cases r4) (auto simp: main_def split: if_splits)
  from assms s1 t tt s2 c s3 g s4 m mt obtain ms where it: "py_iter markets = Inr ms"
    by (cases "py_iter markets") (auto simp: main_def)
  obtain r5 w5 where s5: "market_loop cfg token (select_top_genres cfg gs) ms ([], []) w4 = (r5, w5)"
    by (cases "market_loop cfg token (select_top_genres cfg gs) ms ([], []) w4")
  with assms s1 t tt s2 c s3 g s4 m mt it obtain acc where a: "r5 = Inr acc"
    by (cases r5) (auto simp: main_def)
  from assms s1 t tt s2 c s3 g s4 m mt it s5 a
  have "s = \<lparr>top_genres = select_top_genres cfg gs, country_genre_popularity = fst acc,
      top_artists = snd acc\<rparr>" and "w' = w5"
    by (auto simp: main_def split: prod.splits)
  with s1 t tt s2 c s3 g s4 m mt it s5 a show ?thesis by auto
qed

lemma main_snapshot_complete:
  assumes "main cfg w = (Inr (Some s), w')"
  shows "map fst (country_genre_popularity s) = map fst (top_artists s)"
    and "list_all (complete_scores (top_genres s)) (country_genre_popularity s)"
    and "list_all (complete_artists cfg (top_genres s)) (top_artists s)"
proof -
  from main_written [OF assms] obtain token gs ms w4 where
    ml: "market_loop cfg token (select_top_genres cfg gs) ms ([], []) w4
          = (Inr (country_genre_popularity s, top_artists s), w')"
    and tg: "top_genres s = select_top_genres cfg gs"
    by blast
  from market_loop_keys [OF ml] tg
  show "map fst (country_genre_popularity s) = map fst (top_artists s)"
    and "list_all (complete_scores (top_genres s)) (country_genre_popularity s)"
    and "list_all (complete_artists cfg (top_genres s)) (top_artists s)"
    by simp_all
qed

lemma main_snapshot_markets:
  assumes "main cfg w = (Inr (Some s), w')"
    and "get_token cfg w = (Inr token, w1)"
    and "get_all_categories token (genres_limit cfg) w1 = (Inr cats, w2)"
    and "global_scores_loop cfg token cats [] w2 = (Inr gs, w3)"
    and "get_markets cfg token w3 = (Inr markets, w4)"
    and "py_iter markets = Inr ms"
  shows "fst ` set (country_genre_popularity s) = set ms \<and> top_genres s = select_top_genres cfg gs"
proof -
  from main_written [OF assms(1)] assms(2-6)
  have ml: "market_loop cfg token (select_top_genres cfg gs) ms ([], []) w4
          = (Inr (country_genre_popularity s, top_artists s), w')"
    and tg: "top_genres s = select_top_genres cfg gs"
    by auto
  from market_loop_keys [OF ml] tg show ?thesis by simp
qed

lemma dict_lookup_key: "k \<in> fst ` set d \<Longrightarrow> \<exists>v. map_of d k = Some v \<and> (k, v) \<in> set d"
  by (metis (no_types, lifting) image_iff map_of_SomeD map_of_eq_None_iff not_Some_eq)

text \<open>
  Claim C10. In a snapshot that \<^verbatim>\<open>main\<close> writes, \<^verbatim>\<open>country_genre_popularity\<close> and
  \<^verbatim>\<open>top_artists\<close> have the same keys in the same order; the keys of every inner
  dict are exactly the elements of \<^verbatim>\<open>top_genres\<close>; so every market of
  \<^verbatim>\<open>top_artists\<close> and every genre of \<^verbatim>\<open>top_genres\<close> has a score. When
  \<^verbatim>\<open>TOP_N_ARTISTS\<close> is not negative, no artist list is longer than it. The outer
  keys are exactly the markets that \<^verbatim>\<open>get_markets\<close> returned in this run, and
  \<^verbatim>\<open>top_genres\<close> is the selection from the global scores of this run.
\<close>

theorem snapshot_shape:
  "main cfg w = (Inr (Some s), w') \<longrightarrow>
     map fst (country_genre_popularity s) = map fst (top_artists s)
     \<and> list_all (\<lambda>kv. fst ` set (snd kv) = set (top_genres s)) (country_genre_popularity s)
     \<and> list_all (\<lambda>kv. fst ` set (snd kv) = set (top_genres s)) (top_artists s)
     \<and> (0 \<le> top_n_artists cfg \<longrightarrow>
          list_all (\<lambda>kv. list_all (\<lambda>ge. int (length (snd ge)) \<le> top_n_artists cfg) (snd kv))
            (top_artists s))
     \<and> (\<forall>m g. m \<in> fst ` set (top_artists s) \<and> g \<in> set (top_genres s) \<longrightarrow>
          (\<exists>scores v. map_of (country_genre_popularity s) m = Some scores \<and> map_of scores g = Some v))
     \<and> (get_token cfg w = (Inr token, w1)
          \<and> get_all_categories token (genres_limit cfg) w1 = (Inr cats, w2)
          \<and> global_scores_loop cfg token cats [] w2 = (Inr gs, w3)
          \<and> get_markets cfg token w3 = (Inr markets, w4)
          \<and> py_iter markets = Inr ms \<longrightarrow>
        fst ` set (country_genre_popularity s) = set ms
        \<and> top_genres s = select_top_genres cfg gs)"
proof (intro impI)
  assume m: "main cfg w = (Inr (Some s), w')"
  note c = main_snapshot_complete [OF m]
  have keys: "map fst (country_genre_popularity s) = map fst (top_artists s)" by (rule c(1))
  have p: "list_all (\<lambda>kv. fst ` set (snd kv) = set (top_genres s)) (country_genre_popularity s)"
    using c(2) by (simp add: complete_scores_def list_all_iff)
  have a: "list_all (\<lambda>kv. fst ` set (snd kv) = set (top_genres s)) (top_artists s)"
    using c(3) by (simp add: complete_artists_def list_all_iff)
  have l: "0 \<le> top_n_artists cfg \<longrightarrow>
          list_all (\<lambda>kv. list_all (\<lambda>ge. int (length (snd ge)) \<le> top_n_artists cfg) (snd kv))
            (top_artists s)"
    using c(3) by (auto simp: complete_artists_def list_all_iff)
  have look: "\<exists>scores v. map_of (country_genre_popularity s) m = Some scores \<and> map_of scores g = Some v"
    if "m \<in> fst ` set (top_artists s) \<and> g \<in> set (top_genres s)" for m g
  proof -
    have "fst ` set (top_artists s) = set (map fst (top_artists s))" by simp
    also have "\<dots> = set (map fst (country_genre_popularity s))" by (simp only: keys)
    finally have "m \<in> fst ` set (country_genre_popularity s)" using that by simp
    from dict_lookup_key [OF this] obtain scores where
      sc: "map_of (country_genre_popularity s) m = Some scores"
      and "(m, scores) \<in> set (country_genre_popularity s)" by blast
    with p have "fst ` set (snd (m, scores)) = set (top_genres s)"
      unfolding list_all_iff by blast
    then have "fst ` set scores = set (top_genres s)" by simp
    with that have "g \<in> fst ` set scores" by simp
    from dict_lookup_key [OF this] sc show ?thesis by blast
  qed
  have mk: "get_token cfg w = (Inr token, w1)
          \<and> get_all_categories token (genres_limit cfg) w1 = (Inr cats, w2)
          \<and> global_scores_loop cfg token cats [] w2 = (Inr gs, w3)
          \<and> get_markets cfg token w3 = (Inr markets, w4)
          \<and> py_iter markets = Inr ms \<longrightarrow>
        fst ` set (country_genre_popularity s) = set ms
        \<and> top_genres s = select_top_genres cfg gs"
    using main_snapshot_markets [OF m] by blast
  from keys p a l look mk
  show "map fst (country_genre_popularity s) = map fst (top_artists s)
     \<and> list_all (\<lambda>kv. fst ` set (snd kv) = set (top_genres s)) (country_genre_popularity s)
     \<and> list_all (\<lambda>kv. fst ` set (snd kv) = set (top_genres s)) (top_artists s)
     \<and> (0 \<le> top_n_artists cfg \<longrightarrow>
          list_all (\<lambda>kv. list_all (\<lambda>ge. int (length (snd ge)) \<le> top_n_artists cfg) (snd kv))
            (top_artists s))
     \<and> (\<forall>m g. m \<in> fst ` set (top_artists s) \<and> g \<in> set (top_genres s) \<longrightarrow>
          (\<exists>scores v. map_of (country_genre_popularity s) m = Some scores \<and> map_of scores g = Some v))
     \<and> (get_token cfg w = (Inr token, w1)
          \<and> get_all_categories token (genres_limit cfg) w1 = (Inr cats, w2)
          \<and> global_scores_loop cfg token cats [] w2 = (Inr gs, w3)
          \<and> get_markets cfg token w3 = (Inr markets, w4)
          \<and> py_iter markets = Inr ms \<longrightarrow>
        fst ` set (country_genre_popularity s) = set ms
        \<and> top_genres s = select_top_genres cfg gs)"
    by blast
qed

lemma main_example_run:
  "fst (main example_config (scripted example_run)) = Inr (Some example_snapshot)"
  by code_simp

lemma result_pair: "fst p = a \<Longrightarrow> p = (a, snd p)"
  by (cases p) simp

text \<open>The example run writes its snapshot, and the snapshot has the shape of C10.\<close>

theorem snapshot_shape_witness:
  "fst (main example_config (scripted example_run)) = Inr (Some example_snapshot)
   \<and> map fst (country_genre_popularity example_snapshot) = map fst (top_artists example_snapshot)
   \<and> list_all (\<lambda>kv. fst ` set (snd kv) = set (top_genres example_snapshot))
        (country_genre_popularity example_snapshot)
   \<and> list_all (\<lambda>kv. fst ` set (snd kv) = set (top_genres example_snapshot))
        (top_artists example_snapshot)
   \<and> list_all (\<lambda>kv. list_all (\<lambda>ge. int (length (snd ge)) \<le> 5) (snd kv))
        (top_artists example_snapshot)
   \<and> (\<exists>scores v. map_of (country_genre_popularity example_snapshot) (JStr ''US'') = Some scores
          \<and> map_of scores (JStr ''Pop'') = Some v)
   \<and> fst ` set (country_genre_popularity example_snapshot) = set [JStr ''US'']
   \<and> top_genres example_snapshot = select_top_genres example_config [(JStr ''Pop'', 10)]"
proof -
  let ?w = "scripted example_run" and ?t = "JStr ''t''"
  let ?w1 = "snd (get_token example_config ?w)"
  let ?cats = "[(JStr ''Pop'', JStr ''pop'')]"
  let ?w2 = "snd (get_all_categories ?t (genres_limit example_config) ?w1)"
  let ?gs = "[(JStr ''Pop'', 10 :: int)]"
  let ?w3 = "snd (global_scores_loop example_config ?t ?cats [] ?w2)"
  let ?w4 = "snd (get_markets example_config ?t ?w3)"
  have m: "main example_config ?w = (Inr (Some example_snapshot), snd (main example_config ?w))"
    by (rule result_pair) (rule main_example_run)
  have "fst (get_token example_config ?w) = Inr ?t" by code_simp
  then have s1: "get_token example_config ?w = (Inr ?t, ?w1)" by (rule result_pair)
  have "fst (get_all_categories ?t (genres_limit example_config) ?w1) = Inr ?cats" by code_simp
  then have s2: "get_all_categories ?t (genres_limit example_config) ?w1 = (Inr ?cats, ?w2)"
    by (rule result_pair)
  have "fst (global_scores_loop example_config ?t ?cats [] ?w2) = Inr ?gs" by code_simp
  then have s3: "global_scores_loop example_config ?t ?cats [] ?w2 = (Inr ?gs, ?w3)"
    by (rule result_pair)
  have "fst (get_markets example_config ?t ?w3) = Inr (JArr [JStr ''US''])" by code_simp
  then have s4: "get_markets example_config ?t ?w3 = (Inr (JArr [JStr ''US'']), ?w4)"
    by (rule result_pair)
  have s5: "py_iter (JArr [JStr ''US'']) = Inr [JStr ''US'']" by simp
  have n: "0 \<le> top_n_artists example_config" "top_n_artists example_config = 5"
    by (simp_all add: example_config_def)
  have k: "JStr ''US'' \<in> fst ` set (top_artists example_snapshot)
      \<and> JStr ''Pop'' \<in> set (top_genres example_snapshot)"
    by (simp add: example_snapshot_def)
  note sh = snapshot_shape [of example_config ?w example_snapshot "snd (main example_config ?w)"
      ?t ?w1 ?cats ?w2 ?gs ?w3 "JArr [JStr ''US'']" ?w4 "[JStr ''US'']", THEN mp, OF m]
  note c1 = sh [THEN conjunct1]
  note c2 = sh [THEN conjunct2, THEN conjunct1]
  note c3 = sh [THEN conjunct2, THEN conjunct2, THEN conjunct1]
  note c4 = sh [THEN conjunct2, THEN conjunct2, THEN conjunct2, THEN conjunct1, THEN mp, OF n(1)]
  note c5 = sh [THEN conjunct2, THEN conjunct2, THEN conjunct2, THEN conjunct2, THEN conjunct1,
      THEN spec, THEN spec, THEN mp, OF k]
  have chain: "get_token example_config ?w = (Inr ?t, ?w1)
      \<and> get_all_categories ?t (genres_limit example_config) ?w1 = (Inr ?cats, ?w2)
      \<and> global_scores_loop example_config ?t ?cats [] ?w2 = (Inr ?gs, ?w3)
      \<and> get_markets example_config ?t ?w3 = (Inr (JArr [JStr ''US'']), ?w4)
      \<and> py_iter (JArr [JStr ''US'']) = Inr [JStr ''US'']"
    by (intro conjI s1 s2 s3 s4 s5)
  note c6 = sh [THEN conjunct2, THEN conjunct2, THEN conjunct2, THEN conjunct2, THEN conjunct2,
      THEN mp, OF chain]
  from c4 have c4': "list_all (\<lambda>kv. list_all (\<lambda>ge. int (length (snd ge)) \<le> 5) (snd kv))
        (top_artists example_snapshot)"
    by (simp only: n(2))
  show ?thesis
    by (intro conjI main_example_run c1 c2 c3 c4' c5 c6 [THEN conjunct1] c6 [THEN conjunct2])
qed

lemma get_token_no_result:
  "safe_request (token_request cfg) w = (Inr None, w1) \<Longrightarrow> get_token cfg w = (Inr JNull, w1)"
  by (simp add: get_token_def)

text \<open>
  Claim C8. \<^verbatim>\<open>main\<close> returns without writing when \<^verbatim>\<open>get_token\<close> returns a token
  that is false, as it does when the fetcher has no result for the token request, and
  when \<^verbatim>\<open>get_markets\<close> returns markets that are false (the empty list); an
  exception of \<^verbatim>\<open>get_token\<close> leaves \<^verbatim>\<open>main\<close> as it is, again with nothing
  written. A run therefore ends with no file or with a snapshot, and a snapshot that is
  written is complete: both dicts have the same markets, and every inner dict has
  exactly the selected genres as keys.
\<close>

theorem main_aborts_without_output:
  "(get_token cfg w = (Inr token, w1) \<and> \<not> truthy token \<longrightarrow> main cfg w = (Inr None, w1))
   \<and> (safe_request (token_request cfg) w = (Inr None, w1) \<longrightarrow> main cfg w = (Inr None, w1))
   \<and> (get_token cfg w = (Inl e, w1) \<longrightarrow> main cfg w = (Inl e, w1))
   \<and> (get_token cfg w = (Inr token, w1) \<and> truthy token
        \<and> get_all_categories token (genres_limit cfg) w1 = (Inr cats, w2)
        \<and> global_scores_loop cfg token cats [] w2 = (Inr gs, w3)
        \<and> get_markets cfg token w3 = (Inr markets, w4) \<and> \<not> truthy markets \<longrightarrow>
      main cfg w = (Inr None, w4))
   \<and> (main cfg w = (Inr (Some s), w') \<longrightarrow>
        map fst (country_genre_popularity s) = map fst (top_artists s)
        \<and> list_all (\<lambda>kv. fst ` set (snd kv) = set (top_genres s)) (country_genre_popularity s)
        \<and> list_all (\<lambda>kv. fst ` set (snd kv) = set (top_genres s)) (top_artists s))"
proof (intro conjI impI)
  assume "get_token cfg w = (Inr token, w1) \<and> \<not> truthy token"
  then show "main cfg w = (Inr None, w1)" by (simp add: main_def)
next
  assume "safe_request (token_request cfg) w = (Inr None, w1)"
  then show "main cfg w = (Inr None, w1)" by (simp add: main_def get_token_no_result)
next
  assume "get_token cfg w = (Inl e, w1)"
  then show "main cfg w = (Inl e, w1)" by (simp add: main_def)
next
  assume "get_token cfg w = (Inr token, w1) \<and> truthy token
        \<and> get_all_categories token (genres_limit cfg) w1 = (Inr cats, w2)
        \<and> global_scores_loop cfg token cats [] w2 = (Inr gs, w3)
        \<and> get_markets cfg token w3 = (Inr markets, w4) \<and> \<not> truthy markets"
  then show "main cfg w = (Inr None, w4)" by (simp add: main_def)
next
  assume m: "main cfg w = (Inr (Some s), w')"
  show "map fst (country_genre_popularity s) = map fst (top_artists s)"
    by (rule main_snapshot_complete(1) [OF m])
  show "list_all (\<lambda>kv. fst ` set (snd kv) = set (top_genres s)) (country_genre_popularity s)"
    using main_snapshot_complete(2) [OF m] by (simp add: complete_scores_def list_all_iff)
  show "list_all (\<lambda>kv. fst ` set (snd kv) = set (top_genres s)) (top_artists s)"
    using main_snapshot_complete(3) [OF m] by (simp add: complete_artists_def list_all_iff)
qed

theorem main_aborts_without_output_witness:
  "fst (main example_config (scripted [ok_response (JObj [])])) = Inr None
   \<and> fst (main example_config (scripted [Response (http_response 401 None None)])) = Inr None
   \<and> fst (main example_config (scripted [ok_response JNull])) = Inl AttributeError
   \<and> fst (main example_config (scripted (take 3 example_run @ [ok_response (markets_body [])])))
     = Inr None
   \<and> fst (main example_config (scripted example_run)) = Inr (Some example_snapshot)
   \<and> map fst (country_genre_popularity example_snapshot) = map fst (top_artists example_snapshot)
   \<and> list_all (\<lambda>kv. fst ` set (snd kv) = set (top_genres example_snapshot))
        (country_genre_popularity example_snapshot)
   \<and> list_all (\<lambda>kv. fst ` set (snd kv) = set (top_genres example_snapshot))
        (top_artists example_snapshot)"
proof -
  let ?t = "JStr ''t''"
  let ?cats = "[(JStr ''Pop'', JStr ''pop'')]"
  let ?gs = "[(JStr ''Pop'', 10 :: int)]"
  have a: "fst (main example_config (scripted [ok_response (JObj [])])) = Inr None"
  proof -
    let ?w = "scripted [ok_response (JObj [])]"
    have "fst (get_token example_config ?w) = Inr JNull" by code_simp
    then have "get_token example_config ?w = (Inr JNull, snd (get_token example_config ?w))"
      by (rule result_pair)
    with main_aborts_without_output [of example_config ?w JNull "snd (get_token example_config ?w)",
        THEN conjunct1]
    show ?thesis by simp
  qed
  have b: "fst (main example_config (scripted [Response (http_response 401 None None)])) = Inr None"
  proof -
    let ?w = "scripted [Response (http_response 401 None None)]"
    have "fst (safe_request (token_request example_config) ?w) = Inr None" by code_simp
    then have "safe_request (token_request example_config) ?w
        = (Inr None, snd (safe_request (token_request example_config) ?w))"
      by (rule result_pair)
    with main_aborts_without_output [of example_config ?w _ "snd (safe_request (token_request example_config) ?w)",
        THEN conjunct2, THEN conjunct1]
    show ?thesis by simp
  qed
  have c: "fst (main example_config (scripted [ok_response JNull])) = Inl AttributeError"
  proof -
    let ?w = "scripted [ok_response JNull]"
    have "fst (get_token example_config ?w) = Inl AttributeError" by code_simp
    then have "get_token example_config ?w = (Inl AttributeError, snd (get_token example_config ?w))"
      by (rule result_pair)
    with main_aborts_without_output [of example_config ?w _ "snd (get_token example_config ?w)" AttributeError,
        THEN conjunct2, THEN conjunct2, THEN conjunct1]
    show ?thesis by simp
  qed
  have d: "fst (main example_config (scripted (take 3 example_run @ [ok_response (markets_body [])])))
     = Inr None"
  proof -
    let ?w = "scripted (take 3 example_run @ [ok_response (markets_body [])])"
    let ?w1 = "snd (get_token example_config ?w)"
    let ?w2 = "snd (get_all_categories ?t (genres_limit example_config) ?w1)"
    let ?w3 = "snd (global_scores_loop example_config ?t ?cats [] ?w2)"
    let ?w4 = "snd (get_markets example_config ?t ?w3)"
    have "fst (get_token example_config ?w) = Inr ?t" by code_simp
    then have s1: "get_token example_config ?w = (Inr ?t, ?w1)" by (rule result_pair)
    have "fst (get_all_categories ?t (genres_limit example_config) ?w1) = Inr ?cats" by code_simp
    then have s2: "get_all_categories ?t (genres_limit example_config) ?w1 = (Inr ?cats, ?w2)"
      by (rule result_pair)
    have "fst (global_scores_loop example_config ?t ?cats [] ?w2) = Inr ?gs" by code_simp
    then have s3: "global_scores_loop example_config ?t ?cats [] ?w2 = (Inr ?gs, ?w3)"
      by (rule result_pair)
    have "fst (get_markets example_config ?t ?w3) = Inr (JArr [])" by code_simp
    then have s4: "get_markets example_config ?t ?w3 = (Inr (JArr []), ?w4)"
      by (rule result_pair)
    have chain: "get_token example_config ?w = (Inr ?t, ?w1) \<and> truthy ?t
        \<and> get_all_categories ?t (genres_limit example_config) ?w1 = (Inr ?cats, ?w2)
        \<and> global_scores_loop example_config ?t ?cats [] ?w2 = (Inr ?gs, ?w3)
        \<and> get_markets example_config ?t ?w3 = (Inr (JArr []), ?w4) \<and> \<not> truthy (JArr [])"
      by (intro conjI s1 s2 s3 s4) simp_all
    from main_aborts_without_output [of example_config ?w ?t ?w1 _ ?cats ?w2 ?gs ?w3 "JArr []" ?w4,
        THEN conjunct2, THEN conjunct2, THEN conjunct2, THEN conjunct1, THEN mp, OF chain]
    show ?thesis by simp
  qed
  have m: "main example_config (scripted example_run)
      = (Inr (Some example_snapshot), snd (main example_config (scripted example_run)))"
    by (rule result_pair) (rule main_example_run)
  note e = main_aborts_without_output [of example_config "scripted example_run" _ _ _ _ _ _ _ _ _
      example_snapshot "snd (main example_config (scripted example_run))",
      THEN conjunct2, THEN conjunct2, THEN conjunct2, THEN conjunct2, THEN mp, OF m]
  show ?thesis
    by (intro conjI a b c d main_example_run e [THEN conjunct1] e [THEN conjunct2, THEN conjunct1]
        e [THEN conjunct2, THEN conjunct2])
qed

section \<open>Failures of single pairs\<close>

lemma unavailable_from_later:
  "unavailable_from n w \<Longrightarrow> server w' = server w \<Longrightarrow> length (sent w) \<le> length (sent w') \<Longrightarrow>
   unavailable_from n w'"
  by (simp add: unavailable_from_def)

lemma attempts_unavailable:
  "unavailable_from n w \<Longrightarrow>
   \<exists>w'. attempts as rq w = (Inr None, w') \<and> unavailable_from n w'"
proof (induction as arbitrary: w)
  case Nil
  then show ?case by simp
next
  case (Cons a as)
  let ?w1 = "w\<lparr>sent := sent w @ [rq]\<rparr>"
  have g: "gives_no_result (server w (sent w @ [rq]))"
    using Cons.prems by (simp add: unavailable_from_def)
  have later: "unavailable_from n (w\<lparr>sent := sent w @ [rq], slept := sl\<rparr>)" for sl
    using Cons.prems by (simp add: unavailable_from_def)
  have later1: "unavailable_from n ?w1"
    using Cons.prems by (simp add: unavailable_from_def)
  consider res where "attempts (a # as) rq w = (res, ?w1)" "res = Inr None"
    | d where "attempts (a # as) rq w = attempts as rq (w\<lparr>sent := sent w @ [rq], slept := slept w @ [d]\<rparr>)"
  proof (cases "server w (sent w @ [rq])")
    case RequestException
    then have "attempts (a # as) rq w = attempts as rq (w\<lparr>sent := sent w @ [rq], slept := slept w @ [2 ^ a]\<rparr>)"
      by (simp add: attempts.simps(2) Let_def sleep_def)
    then show ?thesis using that by blast
  next
    case (Response r)
    show ?thesis
    proof (cases "status_code r = 429")
      case True
      with g Response obtain k where "retry_seconds r = Some k" "0 \<le> k"
        by (auto simp: retry_after_usable_def split: option.splits)
      with True Response have "attempts (a # as) rq w
          = attempts as rq (w\<lparr>sent := sent w @ [rq], slept := slept w @ [of_int k]\<rparr>)"
        by (intro attempts_retry_seconds) auto
      then show ?thesis using that by blast
    next
      case False
      show ?thesis
      proof (cases "status_code r < 500")
        case True
        with False g Response have "attempts (a # as) rq w = (Inr None, ?w1)"
          by (intro attempts_client_error) auto
        then show ?thesis using that by blast
      next
        case F: False
        with False g Response
        have "attempts (a # as) rq w = attempts as rq (w\<lparr>sent := sent w @ [rq], slept := slept w @ [2 ^ a]\<rparr>)"
          by (simp add: attempts.simps(2) Let_def sleep_def raises_for_status_def)
        then show ?thesis using that by blast
      qed
    qed
  qed
  then show ?case
  proof cases
    case 1
    with later1 show ?thesis by blast
  next
    case 2
    with Cons.IH [OF later] show ?thesis by simp
  qed
qed

lemma safe_request_unavailable:
  "unavailable_from n w \<Longrightarrow> \<exists>w'. safe_request rq w = (Inr None, w') \<and> unavailable_from n w'"
  unfolding safe_request_def by (rule attempts_unavailable)

lemma page_loop_first_none:
  "safe_request (rq 0) w = (Inr None, w1) \<Longrightarrow> 0 < n \<Longrightarrow>
   page_loop rq items_of convert (py_range n 50) [] w = (Inr [], w1)"
proof -
  assume a: "safe_request (rq 0) w = (Inr None, w1)" and n: "0 < n"
  then have "0 < (nat n + 49) div 50" by simp
  then have "py_range n 50 = 0 # map (\<lambda>k. int (k * 50)) [1 ..< (nat n + 49) div 50]"
    by (simp add: py_range_50 upt_rec [of 0])
  with a show ?thesis by simp
qed

lemma fetch_genre_tracks_first_none:
  "safe_request (search_request token genre market 0) w = (Inr None, w1) \<Longrightarrow> 0 < n \<Longrightarrow>
   fetch_genre_tracks token genre market n w = (Inr [], w1)"
  by (simp add: fetch_genre_tracks_def page_loop_first_none py_prefix_def)

lemma rank_artists_none: "rank_artists [] top_n = Inr []"
  by (simp add: rank_artists_def sorted_by_score_def py_prefix_def)

lemma genre_loop_pair_fails:
  assumes "0 < tracks_per_genre cfg" and "hashable genre"
    and "safe_request (search_request token genre market 0) w = (Inr None, w1)"
    and "safe_request (search_request token genre market 0) w1 = (Inr None, w2)"
  shows "genre_loop cfg token market (genre # rest) acc w
    = genre_loop cfg token market rest (dict_put genre 0 (fst acc), dict_put genre [] (snd acc))
        (w2\<lparr>slept := slept w2 @ [2 / 10]\<rparr>)"
  using assms
  by (simp add: fetch_genre_tracks_first_none fetch_top_artists_for_genre_def rank_artists_none
      dict_set_def sleep_def)

lemma page_loop_first_not_json:
  "safe_request (rq 0) w = (Inr (Some r), w1) \<Longrightarrow> body r = None \<Longrightarrow> 0 < n \<Longrightarrow>
   page_loop rq (nested_items key) convert (py_range n 50) [] w = (Inl JSONDecodeError, w1)"
proof -
  assume a: "safe_request (rq 0) w = (Inr (Some r), w1)" "body r = None" and n: "0 < n"
  then have "0 < (nat n + 49) div 50" by simp
  then have "py_range n 50 = 0 # map (\<lambda>k. int (k * 50)) [1 ..< (nat n + 49) div 50]"
    by (simp add: py_range_50 upt_rec [of 0])
  with a show ?thesis by (simp add: nested_items_def resp_json_def)
qed

lemma genre_loop_not_json:
  assumes "0 < tracks_per_genre cfg"
    and "safe_request (search_request token genre market 0) w = (Inr (Some r), w1)"
    and "body r = None"
  shows "genre_loop cfg token market (genre # rest) acc w = (Inl JSONDecodeError, w1)"
  using assms by (simp add: fetch_genre_tracks_def page_loop_first_not_json)

lemma list_all_dict_put: "P (k, v) \<Longrightarrow> list_all P d \<Longrightarrow> list_all P (dict_put k v d)"
  by (induction d) (auto simp: case_prod_unfold)

lemma fetch_genre_tracks_unavailable:
  assumes "unavailable_from n w"
  shows "\<exists>w'. fetch_genre_tracks token genre market total_tracks w = (Inr [], w')
    \<and> unavailable_from n w'"
proof (cases "0 < total_tracks")
  case True
  from safe_request_unavailable [OF assms] obtain w' where
    "safe_request (search_request token genre market 0) w = (Inr None, w')" "unavailable_from n w'"
    by blast
  with True show ?thesis by (auto simp: fetch_genre_tracks_first_none)
next
  case False
  then have "py_range total_tracks 50 = []" by (simp add: py_range_def)
  with assms show ?thesis by (simp add: fetch_genre_tracks_def py_prefix_def)
qed

lemma genre_loop_unavailable:
  assumes "unavailable_from n w" and "list_all hashable genres"
    and "list_all (\<lambda>ge. snd ge = 0) (fst acc)" and "list_all (\<lambda>ge. snd ge = []) (snd acc)"
  shows "\<exists>acc' w'. genre_loop cfg token market genres acc w = (Inr acc', w')
    \<and> unavailable_from n w'
    \<and> list_all (\<lambda>ge. snd ge = 0) (fst acc') \<and> list_all (\<lambda>ge. snd ge = []) (snd acc')"
  using assms
proof (induction genres arbitrary: acc w)
  case Nil
  then show ?case by simp
next
  case (Cons genre rest)
  from fetch_genre_tracks_unavailable [OF Cons.prems(1)] obtain w1 where
    f1: "fetch_genre_tracks token genre market (tracks_per_genre cfg) w = (Inr [], w1)"
    and u1: "unavailable_from n w1" by blast
  from fetch_genre_tracks_unavailable [OF u1] obtain w2 where
    f2: "fetch_genre_tracks token genre market (tracks_per_genre cfg) w1 = (Inr [], w2)"
    and u2: "unavailable_from n w2" by blast
  let ?w3 = "w2\<lparr>slept := slept w2 @ [2 / 10]\<rparr>"
  let ?acc = "(dict_put genre 0 (fst acc), dict_put genre [] (snd acc))"
  have step: "genre_loop cfg token market (genre # rest) acc w = genre_loop cfg token market rest ?acc ?w3"
    using f1 f2 Cons.prems(2)
    by (simp add: fetch_top_artists_for_genre_def rank_artists_none dict_set_def sleep_def)
  have u3: "unavailable_from n ?w3"
    using u2 by (simp add: unavailable_from_def)
  have z1: "list_all (\<lambda>ge. snd ge = 0) (fst ?acc)"
    using Cons.prems(3) by (simp add: list_all_dict_put)
  have z2: "list_all (\<lambda>ge. snd ge = []) (snd ?acc)"
    using Cons.prems(4) by (simp add: list_all_dict_put)
  from Cons.IH [OF u3 _ z1 z2] Cons.prems(2) step show ?case by simp
qed

lemma market_loop_unavailable:
  assumes "unavailable_from n w" and "list_all hashable genres" and "list_all hashable ms"
    and "list_all (\<lambda>kv. list_all (\<lambda>ge. snd ge = 0) (snd kv)) (fst acc)"
    and "list_all (\<lambda>kv. list_all (\<lambda>ge. snd ge = []) (snd kv)) (snd acc)"
  shows "\<exists>acc' w'. market_loop cfg token genres ms acc w = (Inr acc', w')
    \<and> list_all (\<lambda>kv. list_all (\<lambda>ge. snd ge = 0) (snd kv)) (fst acc')
    \<and> list_all (\<lambda>kv. list_all (\<lambda>ge. snd ge = []) (snd kv)) (snd acc')"
  using assms
proof (induction ms arbitrary: acc w)
  case Nil
  then show ?case by simp
next
  case (Cons market rest)
  from genre_loop_unavailable [OF Cons.prems(1,2), of "([], [])" cfg token market]
  obtain cs ca w1 where
    g: "genre_loop cfg token market genres ([], []) w = (Inr (cs, ca), w1)"
    and u1: "unavailable_from n w1"
    and z: "list_all (\<lambda>ge. snd ge = 0) cs" "list_all (\<lambda>ge. snd ge = []) ca"
    by auto
  let ?acc = "(dict_put market cs (fst acc), dict_put market ca (snd acc))"
  have step: "market_loop cfg token genres (market # rest) acc w = market_loop cfg token genres rest ?acc w1"
    using g Cons.prems(3) by (simp add: dict_set_def)
  have z1: "list_all (\<lambda>kv. list_all (\<lambda>ge. snd ge = 0) (snd kv)) (fst ?acc)"
    using Cons.prems(4) z(1) by (simp add: list_all_dict_put)
  have z2: "list_all (\<lambda>kv. list_all (\<lambda>ge. snd ge = []) (snd kv)) (snd ?acc)"
    using Cons.prems(5) z(2) by (simp add: list_all_dict_put)
  from Cons.IH [OF u1 Cons.prems(2) _ z1 z2] Cons.prems(3) step show ?case by simp
qed

lemma main_all_pairs_fail:
  assumes "get_token cfg w = (Inr token, w1)" and "truthy token"
    and "get_all_categories token (genres_limit cfg) w1 = (Inr cats, w2)"
    and "global_scores_loop cfg token cats [] w2 = (Inr gs, w3)"
    and "get_markets cfg token w3 = (Inr markets, w4)" and "truthy markets"
    and "py_iter markets = Inr ms"
    and "list_all hashable ms" and "list_all hashable (select_top_genres cfg gs)"
    and "unavailable_from (length (sent w4)) w4"
  shows "\<exists>s w'. main cfg w = (Inr (Some s), w')
    \<and> list_all (\<lambda>kv. list_all (\<lambda>ge. snd ge = 0) (snd kv)) (country_genre_popularity s)
    \<and> list_all (\<lambda>kv. list_all (\<lambda>ge. snd ge = []) (snd kv)) (top_artists s)
    \<and> fst ` set (country_genre_popularity s) = set ms"
proof -
  from market_loop_unavailable [OF assms(10,9,8), of "([], [])" cfg token]
  obtain cgp ta w' where
    ml: "market_loop cfg token (select_top_genres cfg gs) ms ([], []) w4 = (Inr (cgp, ta), w')"
    and z: "list_all (\<lambda>kv. list_all (\<lambda>ge. snd ge = 0) (snd kv)) cgp"
      "list_all (\<lambda>kv. list_all (\<lambda>ge. snd ge = []) (snd kv)) ta"
    by auto
  let ?s = "\<lparr>top_genres = select_top_genres cfg gs, country_genre_popularity = cgp, top_artists = ta\<rparr>"
  have m: "main cfg w = (Inr (Some ?s), w')"
    using assms(1-7) ml by (simp add: main_def)
  from market_loop_keys [OF ml] have "fst ` set cgp = set ms" by simp
  with m z show ?thesis by (intro exI [of _ ?s] exI [of _ w']) simp
qed

text \<open>
  Claim C1, as the code has it. When the fetcher has no result for the first page of
  both fetches of a pair (the one for the score and the one inside
  \<^verbatim>\<open>fetch_top_artists_for_genre\<close>), the genre loop records the score 0 and the empty
  artist list for the pair and goes on with the remaining genres. When, after the
  markets were fetched, every request has an outcome on which the fetcher gives no
  result, \<^verbatim>\<open>main\<close> still writes a snapshot: it has an entry for every fetched
  market, all scores are 0 and all artist lists are empty. A response whose body is not
  JSON is different: \<^verbatim>\<open>resp.json()\<close> raises, nothing catches the exception, and it
  leaves the loop.
\<close>

theorem pair_failure_is_recorded:
  "(0 < tracks_per_genre cfg \<and> hashable genre
      \<and> safe_request (search_request token genre market 0) w = (Inr None, w1)
      \<and> safe_request (search_request token genre market 0) w1 = (Inr None, w2) \<longrightarrow>
    genre_loop cfg token market (genre # rest) acc w
    = genre_loop cfg token market rest (dict_put genre 0 (fst acc), dict_put genre [] (snd acc))
        (w2\<lparr>slept := slept w2 @ [2 / 10]\<rparr>))
   \<and> (get_token cfg v = (Inr token, v1) \<and> truthy token
      \<and> get_all_categories token (genres_limit cfg) v1 = (Inr cats, v2)
      \<and> global_scores_loop cfg token cats [] v2 = (Inr gs, v3)
      \<and> get_markets cfg token v3 = (Inr markets, v4) \<and> truthy markets
      \<and> py_iter markets = Inr ms
      \<and> list_all hashable ms \<and> list_all hashable (select_top_genres cfg gs)
      \<and> unavailable_from (length (sent v4)) v4 \<longrightarrow>
    (\<exists>s v'. main cfg v = (Inr (Some s), v')
      \<and> list_all (\<lambda>kv. list_all (\<lambda>ge. snd ge = 0) (snd kv)) (country_genre_popularity s)
      \<and> list_all (\<lambda>kv. list_all (\<lambda>ge. snd ge = []) (snd kv)) (top_artists s)
      \<and> fst ` set (country_genre_popularity s) = set ms))
   \<and> (0 < tracks_per_genre cfg
      \<and> safe_request (search_request token genre market 0) w = (Inr (Some r), w1)
      \<and> body r = None \<longrightarrow>
    genre_loop cfg token market (genre # rest) acc w = (Inl JSONDecodeError, w1))"
proof (intro conjI impI)
  assume "0 < tracks_per_genre cfg \<and> hashable genre
      \<and> safe_request (search_request token genre market 0) w = (Inr None, w1)
      \<and> safe_request (search_request token genre market 0) w1 = (Inr None, w2)"
  then show "genre_loop cfg token market (genre # rest) acc w
    = genre_loop cfg token market rest (dict_put genre 0 (fst acc), dict_put genre [] (snd acc))
        (w2\<lparr>slept := slept w2 @ [2 / 10]\<rparr>)"
    by (elim conjE) (rule genre_loop_pair_fails; assumption)
next
  assume "get_token cfg v = (Inr token, v1) \<and> truthy token
      \<and> get_all_categories token (genres_limit cfg) v1 = (Inr cats, v2)
      \<and> global_scores_loop cfg token cats [] v2 = (Inr gs, v3)
      \<and> get_markets cfg token v3 = (Inr markets, v4) \<and> truthy markets
      \<and> py_iter markets = Inr ms
      \<and> list_all hashable ms \<and> list_all hashable (select_top_genres cfg gs)
      \<and> unavailable_from (length (sent v4)) v4"
  then show "\<exists>s v'. main cfg v = (Inr (Some s), v')
      \<and> list_all (\<lambda>kv. list_all (\<lambda>ge. snd ge = 0) (snd kv)) (country_genre_popularity s)
      \<and> list_all (\<lambda>kv. list_all (\<lambda>ge. snd ge = []) (snd kv)) (top_artists s)
      \<and> fst ` set (country_genre_popularity s) = set ms"
    by (elim conjE) (rule main_all_pairs_fail [of cfg v token v1 cats v2 gs v3 markets v4 ms]; assumption)
next
  assume "0 < tracks_per_genre cfg
      \<and> safe_request (search_request token genre market 0) w = (Inr (Some r), w1)
      \<and> body r = None"
  then show "genre_loop cfg token market (genre # rest) acc w = (Inl JSONDecodeError, w1)"
    by (elim conjE) (rule genre_loop_not_json [of cfg token genre market w r w1]; assumption)
qed

text \<open>
  Claim C1 as stated fails on a malformed body: when the first search response for the
  pair (US, Pop) is a 200 whose body is not JSON, \<^verbatim>\<open>main\<close> ends with the exception
  and writes no snapshot.
\<close>

theorem pair_failure_counterexample:
  "fst (main example_config
         (scripted (take 4 example_run @ [Response (http_response 200 None None)])))
   = Inl JSONDecodeError"
  by code_simp

lemma safe_request_serverD: "safe_request rq w = (res, w') \<Longrightarrow> server w' = server w"
  using safe_request_server [of rq w] by simp

lemma page_loop_server [simp]:
  "server (snd (page_loop rq items_of convert offsets acc w)) = server w"
proof (induction offsets arbitrary: acc w)
  case Nil
  then show ?case by simp
next
  case (Cons offset rest)
  show ?case
    by (auto simp: Cons.IH sleep_def split: prod.splits sum.splits option.splits
        dest: safe_request_serverD)
qed

lemma page_loop_serverD:
  "page_loop rq items_of convert offsets acc w = (res, w') \<Longrightarrow> server w' = server w"
  using page_loop_server [of rq items_of convert offsets acc w] by simp

lemma get_token_server [simp]: "server (snd (get_token cfg w)) = server w"
  by (auto simp: get_token_def split: prod.splits sum.splits option.splits
      dest: safe_request_serverD)

lemma get_markets_server [simp]: "server (snd (get_markets cfg token w)) = server w"
  by (auto simp: get_markets_def split: prod.splits sum.splits option.splits
      dest: safe_request_serverD)

lemma get_all_categories_server [simp]: "server (snd (get_all_categories token n w)) = server w"
  by (auto simp: get_all_categories_def split: prod.splits sum.splits dest: page_loop_serverD)

lemma fetch_genre_tracks_server [simp]:
  "server (snd (fetch_genre_tracks token genre market n w)) = server w"
  by (auto simp: fetch_genre_tracks_def split: prod.splits sum.splits dest: page_loop_serverD)

lemma fetch_genre_tracks_serverD:
  "fetch_genre_tracks token genre market n w = (res, w') \<Longrightarrow> server w' = server w"
  using fetch_genre_tracks_server [of token genre market n w] by simp

lemma global_scores_loop_server [simp]:
  "server (snd (global_scores_loop cfg token cats acc w)) = server w"
proof (induction cats arbitrary: acc w)
  case Nil
  then show ?case by simp
next
  case (Cons c cats)
  show ?case
    by (auto simp: Cons.IH sleep_def split: prod.splits sum.splits
        dest: fetch_genre_tracks_serverD)
qed

theorem pair_failure_is_recorded_witness:
  "fst (genre_loop example_config (JStr ''t'') (JStr ''US'') [JStr ''Pop''] ([], [])
         (scripted [Response (http_response 404 None None), Response (http_response 404 None None)]))
   = Inr ([(JStr ''Pop'', 0)], [(JStr ''Pop'', [])])
   \<and> (\<exists>s v'. main example_config (scripted (take 4 example_run)) = (Inr (Some s), v')
      \<and> list_all (\<lambda>kv. list_all (\<lambda>ge. snd ge = 0) (snd kv)) (country_genre_popularity s)
      \<and> list_all (\<lambda>kv. list_all (\<lambda>ge. snd ge = []) (snd kv)) (top_artists s)
      \<and> fst ` set (country_genre_popularity s) = set [JStr ''US''])
   \<and> fst (genre_loop example_config (JStr ''t'') (JStr ''US'') [JStr ''Pop''] ([], [])
         (scripted [Response (http_response 200 None None)]))
     = Inl JSONDecodeError"
proof (intro conjI)
  let ?t = "JStr ''t''"
  let ?rq = "search_request ?t (JStr ''Pop'') (JStr ''US'') 0"
  let ?w = "scripted [Response (http_response 404 None None), Response (http_response 404 None None)]"
  let ?w1 = "snd (safe_request ?rq ?w)"
  let ?w2 = "snd (safe_request ?rq ?w1)"
  have "fst (safe_request ?rq ?w) = Inr None" by code_simp
  then have s1: "safe_request ?rq ?w = (Inr None, ?w1)" by (rule result_pair)
  have "fst (safe_request ?rq ?w1) = Inr None" by code_simp
  then have s2: "safe_request ?rq ?w1 = (Inr None, ?w2)" by (rule result_pair)
  have h: "0 < tracks_per_genre example_config \<and> hashable (JStr ''Pop'')
      \<and> safe_request ?rq ?w = (Inr None, ?w1) \<and> safe_request ?rq ?w1 = (Inr None, ?w2)"
    by (intro conjI s1 s2) (simp_all add: example_config_def)
  from pair_failure_is_recorded [of example_config "JStr ''Pop''" ?t "JStr ''US''" ?w ?w1 ?w2 "[]" "([], [])",
      THEN conjunct1, THEN mp, OF h]
  show "fst (genre_loop example_config ?t (JStr ''US'') [JStr ''Pop''] ([], []) ?w)
      = Inr ([(JStr ''Pop'', 0)], [(JStr ''Pop'', [])])"
    by simp
next
  let ?t = "JStr ''t''"
  let ?cats = "[(JStr ''Pop'', JStr ''pop'')]"
  let ?gs = "[(JStr ''Pop'', 10 :: int)]"
  let ?v = "scripted (take 4 example_run)"
  let ?v1 = "snd (get_token example_config ?v)"
  let ?v2 = "snd (get_all_categories ?t (genres_limit example_config) ?v1)"
  let ?v3 = "snd (global_scores_loop example_config ?t ?cats [] ?v2)"
  let ?v4 = "snd (get_markets example_config ?t ?v3)"
  have "fst (get_token example_config ?v) = Inr ?t" by code_simp
  then have s1: "get_token example_config ?v = (Inr ?t, ?v1)" by (rule result_pair)
  have "fst (get_all_categories ?t (genres_limit example_config) ?v1) = Inr ?cats" by code_simp
  then have s2: "get_all_categories ?t (genres_limit example_config) ?v1 = (Inr ?cats, ?v2)"
    by (rule result_pair)
  have "fst (global_scores_loop example_config ?t ?cats [] ?v2) = Inr ?gs" by code_simp
  then have s3: "global_scores_loop example_config ?t ?cats [] ?v2 = (Inr ?gs, ?v3)"
    by (rule result_pair)
  have "fst (get_markets example_config ?t ?v3) = Inr (JArr [JStr ''US''])" by code_simp
  then have s4: "get_markets example_config ?t ?v3 = (Inr (JArr [JStr ''US'']), ?v4)"
    by (rule result_pair)
  have len: "length (sent ?v4) = 4" by code_simp
  have srv: "server ?v4 = server ?v"
    by (simp only: get_markets_server global_scores_loop_server get_all_categories_server
        get_token_server)
  have u: "unavailable_from (length (sent ?v4)) ?v4"
    unfolding unavailable_from_def len srv
    by (simp add: scripted_def example_run_def)
  have tg: "select_top_genres example_config ?gs = [JStr ''Pop'']" by code_simp
  have h: "get_token example_config ?v = (Inr ?t, ?v1) \<and> truthy ?t
      \<and> get_all_categories ?t (genres_limit example_config) ?v1 = (Inr ?cats, ?v2)
      \<and> global_scores_loop example_config ?t ?cats [] ?v2 = (Inr ?gs, ?v3)
      \<and> get_markets example_config ?t ?v3 = (Inr (JArr [JStr ''US'']), ?v4) \<and> truthy (JArr [JStr ''US''])
      \<and> py_iter (JArr [JStr ''US'']) = Inr [JStr ''US'']
      \<and> list_all hashable [JStr ''US''] \<and> list_all hashable (select_top_genres example_config ?gs)
      \<and> unavailable_from (length (sent ?v4)) ?v4"
    by (intro conjI s1 s2 s3 s4 u) (simp_all add: tg)
  show "\<exists>s v'. main example_config ?v = (Inr (Some s), v')
      \<and> list_all (\<lambda>kv. list_all (\<lambda>ge. snd ge = 0) (snd kv)) (country_genre_popularity s)
      \<and> list_all (\<lambda>kv. list_all (\<lambda>ge. snd ge = []) (snd kv)) (top_artists s)
      \<and> fst ` set (country_genre_popularity s) = set [JStr ''US'']"
    by (rule pair_failure_is_recorded [where cfg = example_config and v = ?v and token = ?t
          and ?v1.0 = ?v1 and cats = ?cats and ?v2.0 = ?v2 and gs = ?gs and ?v3.0 = ?v3
          and markets = "JArr [JStr ''US'']" and ?v4.0 = ?v4 and ms = "[JStr ''US'']",
          THEN conjunct2, THEN conjunct1, THEN mp, OF h])
next
  let ?t = "JStr ''t''"
  let ?rq = "search_request ?t (JStr ''Pop'') (JStr ''US'') 0"
  let ?w = "scripted [Response (http_response 200 None None)]"
  let ?w1 = "snd (safe_request ?rq ?w)"
  have "fst (safe_request ?rq ?w) = Inr (Some (http_response 200 None None))" by code_simp
  then have s1: "safe_request ?rq ?w = (Inr (Some (http_response 200 None None)), ?w1)"
    by (rule result_pair)
  have h: "0 < tracks_per_genre example_config
      \<and> safe_request ?rq ?w = (Inr (Some (http_response 200 None None)), ?w1)
      \<and> body (http_response 200 None None) = None"
    by (intro conjI s1) (simp_all add: example_config_def)
  from pair_failure_is_recorded [where cfg = example_config and token = ?t and genre = "JStr ''Pop''"
      and market = "JStr ''US''" and w = ?w and ?w1.0 = ?w1 and r = "http_response 200 None None"
      and rest = "[]" and acc = "([], [])",
      THEN conjunct2, THEN conjunct2, THEN mp, OF h]
  show "fst (genre_loop example_config ?t (JStr ''US'') [JStr ''Pop''] ([], []) ?w) = Inl JSONDecodeError"
    by simp
qed

section \<open>The boundary normalizer\<close>

lemma first_iso2_column_split:
  "list_all (\<lambda>c. py_lower c \<notin> set iso2_aliases) pre \<Longrightarrow> py_lower col \<in> set iso2_aliases \<Longrightarrow>
   first_iso2_column (pre @ col # post) = Some col"
  by (induction pre) auto

lemma first_iso2_column_none:
  "list_all (\<lambda>c. py_lower c \<notin> set iso2_aliases) cols \<Longrightarrow> first_iso2_column cols = None"
  by (induction cols) auto

lemma one_column_of_label:
  "distinct (map fst g) \<Longrightarrow> k \<in> fst ` set g \<Longrightarrow> length (filter (\<lambda>c. fst c = k) g) = 1"
proof (induction g)
  case Nil
  then show ?case by simp
next
  case (Cons c g)
  show ?case
  proof (cases "fst c = k")
    case True
    have "k \<notin> fst ` set g"
      using Cons.prems(1) True by auto
    then have "filter (\<lambda>c. fst c = k) g = []"
      by (auto simp: filter_empty_conv)
    with True show ?thesis by simp
  next
    case False
    with Cons show ?thesis by auto
  qed
qed

lemma upper_renamed:
  assumes "col \<in> fst ` set f" and "distinct (map fst (rename_column col f))"
  shows "upper_iso_a2 (rename_column col f)
    = Inr (map (\<lambda>c. if fst c = col then (''iso_a2'', map (map_option py_upper) (snd c)) else c) f)"
proof -
  have in_labels: "''iso_a2'' \<in> fst ` set (rename_column col f)"
    using assms(1) by (force simp: rename_column_def)
  have one: "length (filter (\<lambda>c. fst c = ''iso_a2'') (rename_column col f)) = 1"
    by (rule one_column_of_label [OF assms(2) in_labels])
  have other: "fst c \<noteq> ''iso_a2''" if "c \<in> set f" "fst c \<noteq> col" for c
  proof
    assume eq: "fst c = ''iso_a2''"
    from assms(1) obtain c0 where c0: "c0 \<in> set f" "fst c0 = col" by auto
    have "inj_on (\<lambda>c. if fst c = col then ''iso_a2'' else fst c) (set f)"
      using assms(2) by (simp add: rename_column_def distinct_map comp_def)
    from inj_onD [OF this _ that(1) c0(1)] eq c0(2) that(2) show False by auto
  qed
  have "map (\<lambda>c. if fst c = ''iso_a2'' then (fst c, map (map_option py_upper) (snd c)) else c)
          (rename_column col f)
      = map (\<lambda>c. if fst c = col then (''iso_a2'', map (map_option py_upper) (snd c)) else c) f"
    unfolding rename_column_def map_map
    by (rule map_cong) (auto dest: other)
  with one show ?thesis by (simp add: upper_iso_a2_def)
qed

lemma lower_char_two: "lower_char x = CHR ''2'' \<Longrightarrow> x = CHR ''2''"
proof -
  assume a: "lower_char x = CHR ''2''"
  show ?thesis
  proof (cases "65 \<le> (of_char x :: nat) \<and> (of_char x :: nat) \<le> 90")
    case True
    with a have "char_of ((of_char x :: nat) + 32) = CHR ''2''" by (simp add: lower_char_def)
    then have "(of_char (char_of ((of_char x :: nat) + 32) :: char) :: nat) = of_char (CHR ''2'')" by simp
    with True show ?thesis by (simp add: of_char_of)
  next
    case False
    with a show ?thesis by (auto simp: lower_char_def)
  qed
qed

lemma alias_is_candidate: "py_lower c \<in> set iso2_aliases \<Longrightarrow> app_iso2_candidate c"
proof -
  assume a: "py_lower c \<in> set iso2_aliases"
  then have "take 3 (py_lower c) = ''iso''" by (auto simp: iso2_aliases_def)
  moreover from a have "CHR ''2'' \<in> set (py_lower c)" by (auto simp: iso2_aliases_def)
  then obtain x where "x \<in> set c" "lower_char x = CHR ''2''"
    by (auto simp: py_lower_def)
  then have "CHR ''2'' \<in> set c" using lower_char_two [of x] by simp
  ultimately show ?thesis by (simp add: app_iso2_candidate_def)
qed

text \<open>
  Claim C7, as the code has it. \<^verbatim>\<open>prepare_and_render_maps.py\<close> takes the first
  column whose lower-cased label is one of the four aliases, gives it the label
  \<^verbatim>\<open>iso_a2\<close> with its values in upper case, leaves the other columns as they are,
  and raises \<^verbatim>\<open>RuntimeError\<close> when no label is an alias. \<^verbatim>\<open>app.py\<close> does the
  same with the last column whose lower-cased label starts with \<^verbatim>\<open>iso\<close> and whose
  label contains \<^verbatim>\<open>2\<close>, and raises \<^verbatim>\<open>IndexError\<close> when there is none; every
  alias is such a label. Both suppose that the labels are distinct after the renaming.
\<close>

theorem boundary_normalizers:
  "(map fst f = pre @ col # post \<and> list_all (\<lambda>c. py_lower c \<notin> set iso2_aliases) pre
      \<and> py_lower col \<in> set iso2_aliases \<and> distinct (map fst (rename_column col f)) \<longrightarrow>
    normalize_boundaries f
    = Inr (map (\<lambda>c. if fst c = col then (''iso_a2'', map (map_option py_upper) (snd c)) else c) f))
   \<and> (list_all (\<lambda>c. py_lower c \<notin> set iso2_aliases) (map fst f) \<longrightarrow>
    normalize_boundaries f = Inl RuntimeError)
   \<and> (map fst f = pre @ col # post \<and> app_iso2_candidate col
      \<and> list_all (\<lambda>c. \<not> app_iso2_candidate c) post \<and> distinct (map fst (rename_column col f)) \<longrightarrow>
    app_normalize_boundaries f
    = Inr (map (\<lambda>c. if fst c = col then (''iso_a2'', map (map_option py_upper) (snd c)) else c) f))
   \<and> (list_all (\<lambda>c. \<not> app_iso2_candidate c) (map fst f) \<longrightarrow>
    app_normalize_boundaries f = Inl IndexError)
   \<and> (py_lower label \<in> set iso2_aliases \<longrightarrow> app_iso2_candidate label)"
proof (intro conjI impI)
  assume a: "map fst f = pre @ col # post \<and> list_all (\<lambda>c. py_lower c \<notin> set iso2_aliases) pre
      \<and> py_lower col \<in> set iso2_aliases \<and> distinct (map fst (rename_column col f))"
  then have "first_iso2_column (map fst f) = Some col"
    by (simp add: first_iso2_column_split)
  moreover from a have "col \<in> set (map fst f)" by simp
  then have "col \<in> fst ` set f" by simp
  ultimately show "normalize_boundaries f
    = Inr (map (\<lambda>c. if fst c = col then (''iso_a2'', map (map_option py_upper) (snd c)) else c) f)"
    using a by (simp add: normalize_boundaries_def upper_renamed)
next
  assume "list_all (\<lambda>c. py_lower c \<notin> set iso2_aliases) (map fst f)"
  then show "normalize_boundaries f = Inl RuntimeError"
    by (simp add: normalize_boundaries_def first_iso2_column_none)
next
  assume a: "map fst f = pre @ col # post \<and> app_iso2_candidate col
      \<and> list_all (\<lambda>c. \<not> app_iso2_candidate c) post \<and> distinct (map fst (rename_column col f))"
  then have "filter app_iso2_candidate post = []"
    by (auto simp: filter_empty_conv list_all_iff)
  with a have fl: "filter app_iso2_candidate (map fst f) = filter app_iso2_candidate pre @ [col]"
    by simp
  from a have "col \<in> set (map fst f)" by simp
  then have "col \<in> fst ` set f" by simp
  with a have "upper_iso_a2 (rename_column col f)
    = Inr (map (\<lambda>c. if fst c = col then (''iso_a2'', map (map_option py_upper) (snd c)) else c) f)"
    by (simp add: upper_renamed)
  then show "app_normalize_boundaries f
    = Inr (map (\<lambda>c. if fst c = col then (''iso_a2'', map (map_option py_upper) (snd c)) else c) f)"
    unfolding app_normalize_boundaries_def fl
    by (cases "filter app_iso2_candidate pre") simp_all
next
  assume "list_all (\<lambda>c. \<not> app_iso2_candidate c) (map fst f)"
  then have "filter app_iso2_candidate (map fst f) = []"
    by (auto simp: filter_empty_conv list_all_iff)
  then show "app_normalize_boundaries f = Inl IndexError"
    by (simp add: app_normalize_boundaries_def)
next
  assume "py_lower label \<in> set iso2_aliases"
  then show "app_iso2_candidate label" by (rule alias_is_candidate)
qed

text \<open>
  The file of the geo-countries data set is normalized in the same way by both; a file
  with the columns of Natural Earth is not, and has its \<^verbatim>\<open>ISO_A2_EH\<close> column
  taken by \<^verbatim>\<open>app.py\<close>.
\<close>

theorem boundary_normalizers_witness:
  "normalize_boundaries [(''name'', [Some ''France'']), (''ISO3166-1-Alpha-3'', [Some ''fra'']),
       (''ISO3166-1-Alpha-2'', [Some ''fr''])]
   = Inr [(''name'', [Some ''France'']), (''ISO3166-1-Alpha-3'', [Some ''fra'']),
          (''iso_a2'', [Some ''FR''])]
   \<and> normalize_boundaries [(''name'', [Some ''France''])] = Inl RuntimeError
   \<and> app_normalize_boundaries [(''name'', [Some ''France'']), (''ISO3166-1-Alpha-3'', [Some ''fra'']),
       (''ISO3166-1-Alpha-2'', [Some ''fr''])]
     = Inr [(''name'', [Some ''France'']), (''ISO3166-1-Alpha-3'', [Some ''fra'']),
            (''iso_a2'', [Some ''FR''])]
   \<and> app_normalize_boundaries [(''name'', [Some ''France''])] = Inl IndexError
   \<and> app_iso2_candidate ''ISO2''"
proof -
  let ?f = "[(''name'', [Some ''France'']), (''ISO3166-1-Alpha-3'', [Some ''fra'']),
       (''ISO3166-1-Alpha-2'', [Some ''fr''])] :: frame"
  let ?g = "[(''name'', [Some ''France''])] :: frame"
  have low: "py_lower ''name'' = ''name''" "py_lower ''ISO3166-1-Alpha-3'' = ''iso3166-1-alpha-3''"
    "py_lower ''ISO3166-1-Alpha-2'' = ''iso3166-1-alpha-2''" "py_lower ''ISO2'' = ''iso2''"
    by code_simp+
  have up: "py_upper ''fr'' = ''FR''" by code_simp
  have cand: "\<not> app_iso2_candidate ''name''" "app_iso2_candidate ''ISO3166-1-Alpha-2''"
    by (simp_all add: app_iso2_candidate_def low)
  have h1: "map fst ?f = [''name'', ''ISO3166-1-Alpha-3''] @ ''ISO3166-1-Alpha-2'' # []
      \<and> list_all (\<lambda>c. py_lower c \<notin> set iso2_aliases) [''name'', ''ISO3166-1-Alpha-3'']
      \<and> py_lower ''ISO3166-1-Alpha-2'' \<in> set iso2_aliases
      \<and> distinct (map fst (rename_column ''ISO3166-1-Alpha-2'' ?f))"
    by (simp add: low iso2_aliases_def rename_column_def)
  have h2: "list_all (\<lambda>c. py_lower c \<notin> set iso2_aliases) (map fst ?g)"
    by (simp add: low iso2_aliases_def)
  have h3: "map fst ?f = [''name'', ''ISO3166-1-Alpha-3''] @ ''ISO3166-1-Alpha-2'' # []
      \<and> app_iso2_candidate ''ISO3166-1-Alpha-2''
      \<and> list_all (\<lambda>c. \<not> app_iso2_candidate c) [] \<and> distinct (map fst (rename_column ''ISO3166-1-Alpha-2'' ?f))"
    by (simp add: cand rename_column_def)
  have h4: "list_all (\<lambda>c. \<not> app_iso2_candidate c) (map fst ?g)"
    by (simp add: cand)
  have h5: "py_lower ''ISO2'' \<in> set iso2_aliases" by (simp add: low iso2_aliases_def)
  note t1 = boundary_normalizers [of ?f "[''name'', ''ISO3166-1-Alpha-3'']" "''ISO3166-1-Alpha-2''" "[]",
      THEN conjunct1, THEN mp, OF h1]
  note t2 = boundary_normalizers [of ?g, THEN conjunct2, THEN conjunct1, THEN mp, OF h2]
  note t3 = boundary_normalizers [of ?f "[''name'', ''ISO3166-1-Alpha-3'']" "''ISO3166-1-Alpha-2''" "[]",
      THEN conjunct2, THEN conjunct2, THEN conjunct1, THEN mp, OF h3]
  note t4 = boundary_normalizers [of ?g, THEN conjunct2, THEN conjunct2, THEN conjunct2,
      THEN conjunct1, THEN mp, OF h4]
  note t5 = boundary_normalizers [where label = "''ISO2''", THEN conjunct2, THEN conjunct2,
      THEN conjunct2, THEN conjunct2, THEN mp, OF h5]
  from t1 t2 t3 t4 t5 show ?thesis by (simp add: up)
qed

text \<open>
  Claim C7 as stated fails for \<^verbatim>\<open>app.py\<close>. Given the columns \<^verbatim>\<open>ISO_A2\<close> and
  \<^verbatim>\<open>ISO_A2_EH\<close>, it leaves the column that matches an alias as it is and renames the
  other one; given \<^verbatim>\<open>ISO_A2_EH\<close> alone, where no column matches an alias, it does
  not fail.
\<close>

theorem boundary_normalizers_counterexample:
  "app_normalize_boundaries [(''ISO_A2'', [Some ''us'']), (''ISO_A2_EH'', [Some ''xk''])]
   = Inr [(''ISO_A2'', [Some ''us'']), (''iso_a2'', [Some ''XK''])]
   \<and> py_lower ''ISO_A2'' \<in> set iso2_aliases
   \<and> py_lower ''ISO_A2_EH'' \<notin> set iso2_aliases
   \<and> app_normalize_boundaries [(''ISO_A2_EH'', [Some ''xk''])] = Inr [(''iso_a2'', [Some ''XK''])]"
  by code_simp

section \<open>The joiner\<close>

lemma filter_key_distinct:
  "distinct (map fst recs) \<Longrightarrow>
   filter (\<lambda>r. Some (fst r) = k) recs =
     (case k of None \<Rightarrow> [] | Some c \<Rightarrow> (case map_of recs c of None \<Rightarrow> [] | Some v \<Rightarrow> [(c, v)]))"
proof (induction recs)
  case Nil
  then show ?case by (simp split: option.splits)
next
  case (Cons a recs)
  then have d: "distinct (map fst recs)" and a: "fst a \<notin> fst ` set recs"
    by simp_all
  note ih = Cons.IH [OF d]
  show ?case
  proof (cases k)
    case None
    then show ?thesis by simp
  next
    case (Some c)
    show ?thesis
    proof (cases "fst a = c")
      case True
      with a have "map_of recs c = None"
        by (simp add: map_of_eq_None_iff)
      with ih Some True show ?thesis
        by (cases a) simp
    next
      case False
      with ih Some show ?thesis
        by (cases a) (simp split: option.splits)
    qed
  qed
qed

lemma left_merge_distinct:
  assumes "distinct (map fst recs)"
  shows "left_merge world recs =
           map (\<lambda>k. (k, case k of None \<Rightarrow> None | Some c \<Rightarrow> map_of recs c)) world"
proof -
  have one: "(case filter (\<lambda>r. Some (fst r) = k) recs of
                [] \<Rightarrow> [(k, None)]
              | m # ms \<Rightarrow> map (\<lambda>r. (k, Some (snd r))) (m # ms)) =
             [(k, case k of None \<Rightarrow> None | Some c \<Rightarrow> map_of recs c)]" for k
    by (simp add: filter_key_distinct [OF assms] split: option.splits)
  show ?thesis
    unfolding left_merge_def one by (induction world) simp_all
qed

lemma merge_fill:
  assumes "recs \<noteq> []" and "distinct (map fst recs)"
  shows "(case merge_on_iso world recs of Inl e \<Rightarrow> Inl e | Inr rows \<Rightarrow> Inr (map f rows)) =
           Inr (map (\<lambda>k. f (k, case k of None \<Rightarrow> None | Some c \<Rightarrow> map_of recs c)) world)"
  using assms by (simp add: merge_on_iso_def left_merge_distinct comp_def)

lemma no_entry_lookup:
  assumes "no_entry k (map fst recs)"
  shows "(case k of None \<Rightarrow> None | Some c \<Rightarrow> map_of recs c) = None"
  using assms by (cases k) (simp_all add: no_entry_def map_of_eq_None_iff)

lemma fill_rows:
  assumes rows: "rows = map (\<lambda>k. \<lparr>row_iso = k,
                                   row_value = (case look k of None \<Rightarrow> 0 | Some r \<Rightarrow> v r),
                                   row_tooltip = (case look k of None \<Rightarrow> t0 | Some r \<Rightarrow> t r)\<rparr>) world"
    and look: "\<And>k. no_entry k keys \<Longrightarrow> look k = None"
  shows "map row_iso rows = world \<and>
         (\<forall>r\<in>set rows. no_entry (row_iso r) keys \<longrightarrow> row_value r = 0 \<and> row_tooltip r = t0)"
proof
  show "map row_iso rows = world"
    unfolding rows by (simp add: comp_def)
  show "\<forall>r\<in>set rows. no_entry (row_iso r) keys \<longrightarrow> row_value r = 0 \<and> row_tooltip r = t0"
    unfolding rows using look by auto
qed

lemma merged_total_rows:
  assumes "popularity \<noteq> []" and "distinct (codes popularity)"
  shows "\<exists>rows. merged_total world popularity = Inr rows \<and> map row_iso rows = world \<and>
           (\<forall>r\<in>set rows. no_entry (row_iso r) (codes popularity) \<longrightarrow>
              row_value r = 0 \<and> row_tooltip r = Some ''No data'')"
proof -
  let ?recs = "total_records popularity"
  have keys: "map fst ?recs = codes popularity"
    by (simp add: total_records_def codes_def comp_def)
  with assms have ne: "?recs \<noteq> []" and d: "distinct (map fst ?recs)"
    by (auto simp: total_records_def)
  define look where "look k = (case k of None \<Rightarrow> None | Some c \<Rightarrow> map_of ?recs c)" for k
  define rows where "rows = map (\<lambda>k. \<lparr>row_iso = k,
      row_value = (case look k of None \<Rightarrow> 0 | Some r \<Rightarrow> fst r),
      row_tooltip = (case look k of None \<Rightarrow> Some ''No data'' | Some r \<Rightarrow> Some (snd r))\<rparr>) world"
  have "merged_total world popularity = Inr rows"
    unfolding merged_total_def merge_fill [OF ne d] rows_def look_def
    by (simp split: option.splits)
  moreover have "look k = None" if "no_entry k (codes popularity)" for k
    using that no_entry_lookup [of k ?recs] by (simp add: keys look_def)
  note fill_rows [OF rows_def this]
  ultimately show ?thesis by blast
qed

lemma merged_g_rows:
  assumes "popularity \<noteq> []" and "distinct (codes popularity)"
  shows "\<exists>rows. merged_g world popularity artists genre = Inr rows \<and> map row_iso rows = world \<and>
           (\<forall>r\<in>set rows. no_entry (row_iso r) (codes popularity) \<longrightarrow>
              row_value r = 0 \<and> row_tooltip r = Some ''No data'')"
proof -
  let ?recs = "genre_records popularity artists genre"
  have keys: "map fst ?recs = codes popularity"
    by (simp add: genre_records_def codes_def comp_def)
  with assms have ne: "?recs \<noteq> []" and d: "distinct (map fst ?recs)"
    by (auto simp: genre_records_def)
  define look where "look k = (case k of None \<Rightarrow> None | Some c \<Rightarrow> map_of ?recs c)" for k
  define rows where "rows = map (\<lambda>k. \<lparr>row_iso = k,
      row_value = (case look k of None \<Rightarrow> 0 | Some r \<Rightarrow> fst r),
      row_tooltip = (case look k of None \<Rightarrow> Some ''No data'' | Some r \<Rightarrow> Some (snd r))\<rparr>) world"
  have "merged_g world popularity artists genre = Inr rows"
    unfolding merged_g_def merge_fill [OF ne d] rows_def look_def
    by (simp split: option.splits)
  moreover have "look k = None" if "no_entry k (codes popularity)" for k
    using that no_entry_lookup [of k ?recs] by (simp add: keys look_def)
  note fill_rows [OF rows_def this]
  ultimately show ?thesis by blast
qed

lemma merged_tot_rows:
  assumes "country_pop \<noteq> []" and "distinct (codes country_pop)"
  shows "\<exists>rows. merged_tot world country_pop = Inr rows \<and> map row_iso rows = world \<and>
           (\<forall>r\<in>set rows. no_entry (row_iso r) (codes country_pop) \<longrightarrow>
              row_value r = 0 \<and> row_tooltip r = Some ''None'')"
proof -
  let ?recs = "tot_records country_pop"
  have keys: "map fst ?recs = codes country_pop"
    by (simp add: tot_records_def codes_def comp_def)
  with assms have ne: "?recs \<noteq> []" and d: "distinct (map fst ?recs)"
    by (auto simp: tot_records_def)
  define look where "look k = (case k of None \<Rightarrow> None | Some c \<Rightarrow> map_of ?recs c)" for k
  define rows where "rows = map (\<lambda>k. \<lparr>row_iso = k,
      row_value = (case look k of None \<Rightarrow> 0 | Some r \<Rightarrow> fst r),
      row_tooltip = (case look k of None \<Rightarrow> Some ''None'' | Some r \<Rightarrow> Some (snd r))\<rparr>) world"
  have "merged_tot world country_pop = Inr rows"
    unfolding merged_tot_def merge_fill [OF ne d] rows_def look_def
    by (simp split: option.splits)
  moreover have "look k = None" if "no_entry k (codes country_pop)" for k
    using that no_entry_lookup [of k ?recs] by (simp add: keys look_def)
  note fill_rows [OF rows_def this]
  ultimately show ?thesis by blast
qed

lemma app_genre_loop_returns:
  assumes "list_all (\<lambda>e. map_of country_pop (fst e) \<noteq> None) country_art"
  shows "\<exists>recs tips. app_genre_loop country_pop genre country_art = Inr (recs, tips)"
  using assms
proof (induction country_art)
  case Nil
  then show ?case by simp
next
  case (Cons e rest)
  then obtain scores recs tips where "map_of country_pop (fst e) = Some scores"
    and "app_genre_loop country_pop genre rest = Inr (recs, tips)"
    by auto
  then show ?case by (simp add: Let_def)
qed

lemma app_genre_loop_keys:
  "app_genre_loop country_pop genre country_art = Inr (recs, tips) \<Longrightarrow>
   map fst recs = codes country_art \<and> fst ` set tips = set (codes country_art)"
proof (induction country_art arbitrary: recs tips)
  case Nil
  then show ?case by (simp add: codes_def)
next
  case (Cons e rest)
  from Cons.prems obtain scores where s: "map_of country_pop (fst e) = Some scores"
    by (cases "map_of country_pop (fst e)") simp_all
  from Cons.prems s obtain later where l: "app_genre_loop country_pop genre rest = Inr later"
    by (cases "app_genre_loop country_pop genre rest") simp_all
  obtain r t where later: "later = (r, t)" by (cases later)
  note ih = Cons.IH [OF l [unfolded later]]
  from Cons.prems s l later have
    recs: "recs = (py_upper (fst e), dict_get scores genre 0) # r"
    and tips: "fst ` set tips = insert (py_upper (fst e)) (fst ` set t)"
    by (auto simp: Let_def split: if_splits)
  from ih show ?case
    unfolding recs tips by (simp add: codes_def)
qed

lemma app_merged_g_rows:
  assumes ne: "country_art \<noteq> []" and d: "distinct (codes country_art)"
    and pop: "list_all (\<lambda>e. map_of country_pop (fst e) \<noteq> None) country_art"
  shows "\<exists>rows. app_merged_g world country_pop country_art genre = Inr rows \<and>
           map row_iso rows = world \<and>
           (\<forall>r\<in>set rows. no_entry (row_iso r) (codes country_art) \<longrightarrow>
              row_value r = 0 \<and> row_tooltip r = None)"
proof -
  from app_genre_loop_returns [OF pop] obtain recs tips
    where loop: "app_genre_loop country_pop genre country_art = Inr (recs, tips)"
    by blast
  note keys = app_genre_loop_keys [OF loop]
  from keys ne d have rne: "recs \<noteq> []" and rd: "distinct (map fst recs)"
    by (auto simp: codes_def)
  define look where "look k = (case k of None \<Rightarrow> None | Some c \<Rightarrow> map_of recs c)" for k
  define rows where "rows = map (\<lambda>k. \<lparr>row_iso = k,
      row_value = (case look k of None \<Rightarrow> 0 | Some v \<Rightarrow> v),
      row_tooltip = (case k of None \<Rightarrow> None | Some c \<Rightarrow> map_of tips c)\<rparr>) world"
  have run: "app_merged_g world country_pop country_art genre = Inr rows"
    unfolding app_merged_g_def loop rows_def look_def
    by (simp add: merge_fill [OF rne rd] split: option.splits)
  have iso: "map row_iso rows = world"
    unfolding rows_def by (simp add: comp_def)
  have "row_value r = 0 \<and> row_tooltip r = None"
    if r: "r \<in> set rows" and n: "no_entry (row_iso r) (codes country_art)" for r
  proof -
    from r obtain k where k: "k \<in> set world" and rk: "r = \<lparr>row_iso = k,
      row_value = (case look k of None \<Rightarrow> 0 | Some v \<Rightarrow> v),
      row_tooltip = (case k of None \<Rightarrow> None | Some c \<Rightarrow> map_of tips c)\<rparr>"
      unfolding rows_def by auto
    from n rk have nk: "no_entry k (codes country_art)" by simp
    with keys have "look k = None"
      using no_entry_lookup [of k recs] by (simp add: look_def)
    moreover from nk keys have "(case k of None \<Rightarrow> None | Some c \<Rightarrow> map_of tips c) = None"
      by (cases k) (simp_all add: no_entry_def map_of_eq_None_iff)
    ultimately show ?thesis by (simp add: rk)
  qed
  with run iso show ?thesis by blast
qed

text \<open>
  C6, the missing-country property of the joiner. For a non-empty aggregate whose
  country codes stay distinct in upper case, every view returns the boundary records
  in order, one row for each, and a record with no entry in the aggregate has value 0.
  Its tooltip is the sentinel \<^verbatim>\<open>No data\<close> in both views of
  \<^verbatim>\<open>prepare_and_render_maps.py\<close> and \<^verbatim>\<open>None\<close> in the total view of
  \<^verbatim>\<open>app.py\<close>; in the view of one genre of \<^verbatim>\<open>app.py\<close> it is missing
  (NaN): that view fills the value only and never the tooltip.
\<close>

theorem joiner_missing_country:
  assumes "popularity \<noteq> []" and "distinct (codes popularity)"
    and "artists \<noteq> []" and "distinct (codes artists)"
    and "list_all (\<lambda>e. map_of popularity (fst e) \<noteq> None) artists"
  shows "(\<exists>rows. merged_total world popularity = Inr rows \<and> map row_iso rows = world \<and>
            (\<forall>r\<in>set rows. no_entry (row_iso r) (codes popularity) \<longrightarrow>
               row_value r = 0 \<and> row_tooltip r = Some ''No data'')) \<and>
         (\<exists>rows. merged_g world popularity artists genre = Inr rows \<and> map row_iso rows = world \<and>
            (\<forall>r\<in>set rows. no_entry (row_iso r) (codes popularity) \<longrightarrow>
               row_value r = 0 \<and> row_tooltip r = Some ''No data'')) \<and>
         (\<exists>rows. merged_tot world popularity = Inr rows \<and> map row_iso rows = world \<and>
            (\<forall>r\<in>set rows. no_entry (row_iso r) (codes popularity) \<longrightarrow>
               row_value r = 0 \<and> row_tooltip r = Some ''None'')) \<and>
         (\<exists>rows. app_merged_g world popularity artists genre = Inr rows \<and> map row_iso rows = world \<and>
            (\<forall>r\<in>set rows. no_entry (row_iso r) (codes artists) \<longrightarrow>
               row_value r = 0 \<and> row_tooltip r = None))"
  using merged_total_rows [OF assms(1,2)] merged_g_rows [OF assms(1,2)]
    merged_tot_rows [OF assms(1,2)] app_merged_g_rows [OF assms(3,4,5)]
  by (intro conjI)

lemma example_codes:
  "codes example_popularity = [''US'']" "codes example_artists = [''US'']"
  by (simp_all add: codes_def example_popularity_def example_artists_def) code_simp+

lemma last_row:
  assumes "map row_iso rows = [a, b]"
  shows "last rows \<in> set rows \<and> row_iso (last rows) = b"
proof -
  from assms obtain x y where "rows = [x, y]"
    by (cases rows; cases "tl rows") auto
  with assms show ?thesis by simp
qed

theorem joiner_missing_country_witness:
  "example_popularity \<noteq> [] \<and> distinct (codes example_popularity) \<and>
   example_artists \<noteq> [] \<and> distinct (codes example_artists) \<and>
   list_all (\<lambda>e. map_of example_popularity (fst e) \<noteq> None) example_artists \<and>
   (\<exists>rows. merged_g example_world example_popularity example_artists ''Pop'' = Inr rows \<and>
      map row_iso rows = [Some ''US'', Some ''FR''] \<and>
      row_value (last rows) = 0 \<and> row_tooltip (last rows) = Some ''No data'') \<and>
   (\<exists>rows. app_merged_g example_world example_popularity example_artists ''Pop'' = Inr rows \<and>
      map row_iso rows = [Some ''US'', Some ''FR''] \<and>
      row_value (last rows) = 0 \<and> row_tooltip (last rows) = None)"
proof -
  have h: "example_popularity \<noteq> []" "distinct (codes example_popularity)"
    "example_artists \<noteq> []" "distinct (codes example_artists)"
    "list_all (\<lambda>e. map_of example_popularity (fst e) \<noteq> None) example_artists"
    by (simp_all add: example_codes) (simp_all add: example_popularity_def example_artists_def)
  have fr: "no_entry (Some ''FR'') (codes example_popularity)"
    "no_entry (Some ''FR'') (codes example_artists)"
    by (simp_all add: example_codes no_entry_def)
  note all = joiner_missing_country [OF h, of example_world "''Pop''"]
  from all [THEN conjunct2, THEN conjunct1] obtain rows
    where g: "merged_g example_world example_popularity example_artists ''Pop'' = Inr rows"
      and gi: "map row_iso rows = example_world"
      and gf: "\<forall>r\<in>set rows. no_entry (row_iso r) (codes example_popularity) \<longrightarrow>
                 row_value r = 0 \<and> row_tooltip r = Some ''No data''"
    by blast
  from gi have gl: "last rows \<in> set rows \<and> row_iso (last rows) = Some ''FR''"
    by (intro last_row) (simp add: example_world_def)
  with gf fr have gv: "row_value (last rows) = 0 \<and> row_tooltip (last rows) = Some ''No data''"
    by auto
  from all [THEN conjunct2, THEN conjunct2, THEN conjunct2] obtain arows
    where a: "app_merged_g example_world example_popularity example_artists ''Pop'' = Inr arows"
      and ai: "map row_iso arows = example_world"
      and af: "\<forall>r\<in>set arows. no_entry (row_iso r) (codes example_artists) \<longrightarrow>
                 row_value r = 0 \<and> row_tooltip r = None"
    by blast
  from ai have al: "last arows \<in> set arows \<and> row_iso (last arows) = Some ''FR''"
    by (intro last_row) (simp add: example_world_def)
  with af fr have av: "row_value (last arows) = 0 \<and> row_tooltip (last arows) = None"
    by auto
  from g gi gv have G: "\<exists>rows. merged_g example_world example_popularity example_artists ''Pop'' = Inr rows \<and>
      map row_iso rows = [Some ''US'', Some ''FR''] \<and>
      row_value (last rows) = 0 \<and> row_tooltip (last rows) = Some ''No data''"
    by (simp add: example_world_def)
  from a ai av have A: "\<exists>rows. app_merged_g example_world example_popularity example_artists ''Pop'' = Inr rows \<and>
      map row_iso rows = [Some ''US'', Some ''FR''] \<and>
      row_value (last rows) = 0 \<and> row_tooltip (last rows) = None"
    by (simp add: example_world_def)
  from h G A show ?thesis by (intro conjI)
qed

text \<open>
  The run that shows it: boundaries for the United States and France, a snapshot with
  the United States only, genre Pop. The row of France carries the sentinel in the
  three other views, and no tooltip in the view of one genre of \<^verbatim>\<open>app.py\<close>.
\<close>

theorem joiner_missing_country_run:
  "merged_total example_world example_popularity =
     Inr [\<lparr>row_iso = Some ''US'', row_value = 17, row_tooltip = Some ''Pop: 17''\<rparr>,
          \<lparr>row_iso = Some ''FR'', row_value = 0, row_tooltip = Some ''No data''\<rparr>] \<and>
   merged_g example_world example_popularity example_artists ''Pop'' =
     Inr [\<lparr>row_iso = Some ''US'', row_value = 17, row_tooltip = Some ''A: 10<br>B: 7''\<rparr>,
          \<lparr>row_iso = Some ''FR'', row_value = 0, row_tooltip = Some ''No data''\<rparr>] \<and>
   merged_tot example_world example_popularity =
     Inr [\<lparr>row_iso = Some ''US'', row_value = 17, row_tooltip = Some ''Pop (17)''\<rparr>,
          \<lparr>row_iso = Some ''FR'', row_value = 0, row_tooltip = Some ''None''\<rparr>] \<and>
   app_merged_g example_world example_popularity example_artists ''Pop'' =
     Inr [\<lparr>row_iso = Some ''US'', row_value = 17, row_tooltip = Some ''A (10), B (7)''\<rparr>,
          \<lparr>row_iso = Some ''FR'', row_value = 0, row_tooltip = None\<rparr>]"
  by (intro conjI; code_simp)

end
